theory Spec2Isabelle
  imports Main
begin

section \<open>Formatting of generated names\<close>

text \<open>
  The lowering visitor builds names with \<^verbatim>\<open>fmt.Sprintf("L%04d_%s", n, tag)\<close> and
  \<^verbatim>\<open>fmt.Sprintf("_%s_%04d", prefix, n)\<close>. The verb \<^verbatim>\<open>%04d\<close> prints a non-negative
  integer in decimal, padded on the left with zeros to at least four characters.
  The counters are Go \<^verbatim>\<open>int\<close>s that start at zero and are only ever incremented by one
  per generated name; they are modelled as natural numbers.
\<close>

definition digit_char :: "nat \<Rightarrow> char" where
  "digit_char d = ''0123456789'' ! d"

fun dec :: "nat \<Rightarrow> string" where
  "dec n = (if n < 10 then [digit_char n] else dec (n div 10) @ [digit_char (n mod 10)])"

declare dec.simps [simp del]

definition pad4 :: "nat \<Rightarrow> string" where
  "pad4 n = replicate (4 - length (dec n)) (CHR ''0'') @ dec n"

definition fmtLabel :: "nat \<Rightarrow> string \<Rightarrow> string" where
  "fmtLabel n tag = ''L'' @ pad4 n @ ''_'' @ tag"

definition fmtIdent :: "string \<Rightarrow> nat \<Rightarrow> string" where
  "fmtIdent prefix n = ''_'' @ prefix @ ''_'' @ pad4 n"

section \<open>The typed syntax tree consumed by the lowering\<close>

text \<open>
  The node types are the ones the visitor in package \<^verbatim>\<open>ir\<close> and the parser use.
  A Go pointer that may be nil is an \<open>option\<close>. Of \<^verbatim>\<open>ast.Type\<close> only the fields the
  lowering reads (\<^verbatim>\<open>Kind\<close>, \<^verbatim>\<open>Elem\<close>) are kept.
\<close>

datatype TypeKind =
  TypeUnknown | TypeInt | TypeBool | TypeString | TypeVoid
  | TypePointer | TypeArray | TypeAny | TypeVararg

datatype Type = Type (Kind: TypeKind) (Elem: "Type option")

datatype ast_BinOpKind =
  ast_BinOpAdd | ast_BinOpSub | ast_BinOpMul | ast_BinOpDiv
  | ast_BinOpShl | ast_BinOpShr | ast_BinOpAnd | ast_BinOpOr
  | ast_BinOpLogAnd | ast_BinOpLogOr
  | ast_BinOpEq | ast_BinOpNe | ast_BinOpLt | ast_BinOpLe | ast_BinOpGt | ast_BinOpGe
  | ast_BinOpOther string

text \<open>
  \<^verbatim>\<open>ast.BinOpKind\<close> is a string type in Go; \<open>ast_BinOpOther\<close> stands for every value
  that is none of the sixteen declared operators.
\<close>

datatype Expression =
    Literal "Type option" int bool string
  | Binop ast_BinOpKind Expression Expression "Type option"
  | VariableRef string "Type option"
  | Deref Expression "Type option"
  | Call string "(Expression \<times> Type option) list" "Type option"

text \<open>
  \<open>Literal ty i b s\<close> carries \<^verbatim>\<open>Type, IntValue, BoolValue, StringValue\<close>;
  an argument of a call is the pair \<^verbatim>\<open>(Value, Type)\<close> of \<^verbatim>\<open>ast.Arg\<close>.
\<close>

datatype Instruction =
    Declare string "Type option"
  | Assign Expression Expression
  | CallStmt string "(Expression \<times> Type option) list" "Type option"
  | Return "Expression option"
  | If "Instruction list" Expression "Instruction list" "Instruction option"
  | For "Instruction list" Expression "Instruction list" "Instruction list"
  | Body "Instruction list"

text \<open>
  \<open>Assign lhs value\<close>; \<open>If init cond then else\<close>; \<open>For init cond post body\<close>.
  \<open>CallStmt\<close> is an \<^verbatim>\<open>*ast.Call\<close> in statement position.
\<close>

datatype AttrKey =
  AttrKeyExtern | AttrKeyExport | AttrKeyLinkname | AttrKeyPure | AttrKeyInline | AttrKeyPrivate

datatype AttrValue = AttrNone | AttrString string | AttrInt int

record FuncParam =
  fp_Ident :: string
  fp_Type :: "Type option"
  fp_Attributes :: "AttrKey \<rightharpoonup> AttrValue"
  fp_Value :: "Expression option"

record FuncDef =
  fd_Ident :: string
  fd_Attributes :: "AttrKey \<rightharpoonup> AttrValue"
  fd_Params :: "FuncParam list"
  fd_ReturnType :: "Type option"
  fd_Body :: "Instruction list option"

record CompilationUnit =
  cu_Ident :: string
  cu_Attributes :: "AttrKey \<rightharpoonup> AttrValue"
  cu_Types :: "string list"
  cu_Data :: "string list"
  cu_Funcs :: "FuncDef list"

section \<open>The intermediate representation\<close>

type_synonym Ident = string

datatype Val = NewValInteger int | NewValGlobal Ident | NewValIdent Ident

datatype BaseTy = BaseWord | BaseLong | BaseSingle | BaseDouble

datatype AbiTy = NewAbiTyBase BaseTy

datatype Arg = NewArgRegular AbiTy "Val option"

datatype BinOpKind =
  BinOpAdd | BinOpSub | BinOpMul | BinOpDiv | BinOpEq | BinOpNe | BinOpLt | BinOpLe
  | BinOpGt | BinOpGe | BinOpShl | BinOpShr | BinOpAnd | BinOpOr

text \<open>
  The instruction constructors take their operands in the order of the Go constructors
  \<^verbatim>\<open>NewBinop(op, dest, lhs, rhs)\<close>, \<^verbatim>\<open>NewCall(callee, args...)\<close> followed by the optional
  \<^verbatim>\<open>(LHS, RetTy)\<close> that \<^verbatim>\<open>WithRet\<close> attaches, \<^verbatim>\<open>NewRet(val...)\<close>,
  \<^verbatim>\<open>NewJnz(cond, ifTrue, ifFalse)\<close>, \<^verbatim>\<open>NewJmp(label)\<close>, \<^verbatim>\<open>NewLabel(name)\<close>,
  \<^verbatim>\<open>NewLoad(dest, addr)\<close> and \<^verbatim>\<open>NewStore(addr, val)\<close>. Operands are \<^verbatim>\<open>*Val\<close>.
\<close>

datatype Instr =
    NewBinop BinOpKind "Val option" "Val option" "Val option"
  | IRCall Val "Arg list" "(Ident \<times> AbiTy) option"
  | NewRet "Val option"
  | NewJnz "Val option" string string
  | NewJmp string
  | NewLabel string
  | NewLoad "Val option" "Val option"
  | NewStore "Val option" "Val option"

definition NewCall :: "Val \<Rightarrow> Arg list \<Rightarrow> Instr" where
  "NewCall callee args = IRCall callee args None"

text \<open>
  Modelled from the spec: \<^verbatim>\<open>Call.WithRet\<close> of package \<^verbatim>\<open>ir\<close>, whose source is not
  part of the repository snapshot. The specification says of a call used as an expression
  with a non-void type that "a fresh tmp is allocated and attached".
\<close>

fun WithRet :: "Instr \<Rightarrow> Ident \<Rightarrow> AbiTy \<Rightarrow> Instr" where
  "WithRet (IRCall callee args r) lhs retTy = IRCall callee args (Some (lhs, retTy))"
| "WithRet i lhs retTy = i"

datatype DataItem = NewDataItemString string | NewDataItemInteger int

datatype DataInit = NewDataInitByte "DataItem list"

record DataDef =
  dd_Ident :: Ident
  dd_Initializer :: "DataInit list"

definition NewDataDefStringZ :: "Ident \<Rightarrow> string \<Rightarrow> DataDef" where
  "NewDataDefStringZ ident val =
     \<lparr>dd_Ident = ident,
      dd_Initializer = [NewDataInitByte [NewDataItemString val],
                        NewDataInitByte [NewDataItemInteger 0]]\<rparr>"

datatype Param = NewParamRegular AbiTy Ident

datatype Linkage = NewLinkageExport

record Block =
  blk_Label :: string
  blk_Instructions :: "Instr list"

record IRFuncDef =
  ir_Ident :: Ident
  ir_Params :: "Param list"
  ir_LinkName :: Ident
  ir_RetTy :: "AbiTy option"
  ir_Linkage :: "Linkage option"
  ir_Blocks :: "Block list"

definition NewFuncDef :: "Ident \<Rightarrow> Param list \<Rightarrow> IRFuncDef" where
  "NewFuncDef ident params =
     \<lparr>ir_Ident = ident, ir_Params = params, ir_LinkName = '''',
      ir_RetTy = None, ir_Linkage = None, ir_Blocks = []\<rparr>"

record IRUnit =
  DataDefs :: "DataDef list"
  FuncDefs :: "IRFuncDef list"

section \<open>The lowering visitor\<close>

datatype error = Panic string

record visitor =
  unit :: IRUnit
  lastVal :: "Val option"
  lastType :: "Type option"
  lastParam :: "Param option"
  lastInstructions :: "Instr list"
  tmpCounter :: nat
  labelCounter :: nat

definition newVisitor :: visitor where
  "newVisitor =
     \<lparr>unit = \<lparr>DataDefs = [], FuncDefs = []\<rparr>, lastVal = None, lastType = None,
      lastParam = None, lastInstructions = [], tmpCounter = 0, labelCounter = 0\<rparr>"

definition nextLabel :: "string \<Rightarrow> visitor \<Rightarrow> string \<times> visitor" where
  "nextLabel tag v =
     (let v' = v\<lparr>labelCounter := labelCounter v + 1\<rparr>
      in (fmtLabel (labelCounter v') tag, v'))"

definition nextIdent :: "string \<Rightarrow> visitor \<Rightarrow> Ident \<times> visitor" where
  "nextIdent prefix v =
     (let v' = v\<lparr>tmpCounter := tmpCounter v + 1\<rparr>
      in (fmtIdent prefix (tmpCounter v'), v'))"

fun isLabel :: "Instr \<Rightarrow> bool" where
  "isLabel (NewLabel l) = True"
| "isLabel i = False"

fun isRet :: "Instr \<Rightarrow> bool" where
  "isRet (NewRet r) = True"
| "isRet i = False"

definition appendInstruction :: "Instr \<Rightarrow> visitor \<Rightarrow> visitor" where
  "appendInstruction instr v =
     (if isLabel instr then v\<lparr>lastInstructions := lastInstructions v @ [instr]\<rparr>
      else
        let v1 =
          (if lastInstructions v \<noteq> [] \<and> isRet (last (lastInstructions v))
           then (let (label, v') = nextLabel ''block'' v
                 in v'\<lparr>lastInstructions := lastInstructions v' @ [NewLabel label]\<rparr>)
           else v)
        in v1\<lparr>lastInstructions := lastInstructions v1 @ [instr]\<rparr>)"

definition mapTypeToAbiTy :: "Type option \<Rightarrow> AbiTy" where
  "mapTypeToAbiTy ty =
     (case ty of
        None \<Rightarrow> NewAbiTyBase BaseWord
      | Some t \<Rightarrow>
          (case Kind t of
             TypeInt \<Rightarrow> NewAbiTyBase BaseWord
           | TypeString \<Rightarrow> NewAbiTyBase BaseLong
           | TypePointer \<Rightarrow> NewAbiTyBase BaseLong
           | _ \<Rightarrow> NewAbiTyBase BaseWord))"

definition binOpMap :: "ast_BinOpKind \<Rightarrow> BinOpKind option" where
  "binOpMap op =
     (case op of
        ast_BinOpAdd \<Rightarrow> Some BinOpAdd
      | ast_BinOpSub \<Rightarrow> Some BinOpSub
      | ast_BinOpMul \<Rightarrow> Some BinOpMul
      | ast_BinOpDiv \<Rightarrow> Some BinOpDiv
      | ast_BinOpEq \<Rightarrow> Some BinOpEq
      | ast_BinOpNe \<Rightarrow> Some BinOpNe
      | ast_BinOpLt \<Rightarrow> Some BinOpLt
      | ast_BinOpLe \<Rightarrow> Some BinOpLe
      | ast_BinOpGt \<Rightarrow> Some BinOpGt
      | ast_BinOpGe \<Rightarrow> Some BinOpGe
      | ast_BinOpShl \<Rightarrow> Some BinOpShl
      | ast_BinOpShr \<Rightarrow> Some BinOpShr
      | ast_BinOpAnd \<Rightarrow> Some BinOpAnd
      | ast_BinOpOr \<Rightarrow> Some BinOpOr
      | _ \<Rightarrow> None)"

text \<open>The loop of \<^verbatim>\<open>VisitCall\<close> that replaces the callee by its link name.\<close>

fun lookupLinkName :: "IRFuncDef list \<Rightarrow> Ident \<Rightarrow> Ident" where
  "lookupLinkName [] ident = ident"
| "lookupLinkName (fd # fds) ident =
     (if ir_Ident fd = ident \<and> ir_LinkName fd \<noteq> '''' then ir_LinkName fd
      else lookupLinkName fds ident)"

definition isPointer :: "Type option \<Rightarrow> bool" where
  "isPointer ty = (case ty of None \<Rightarrow> False | Some t \<Rightarrow> Kind t = TypePointer)"

definition elemSizeOf :: "Type option \<Rightarrow> int" where
  "elemSizeOf ptrType =
     (case ptrType of
        None \<Rightarrow> 4
      | Some t \<Rightarrow> (case Elem t of None \<Rightarrow> 4 | Some e \<Rightarrow> if Kind e = TypeInt then 4 else 4))"

text \<open>
  The body of \<^verbatim>\<open>VisitBinop\<close> after both operands are lowered: the operator table,
  the scaling of the integer side of pointer arithmetic, and the final instruction.
\<close>

definition finishBinop ::
  "ast_BinOpKind \<Rightarrow> Type option \<Rightarrow> Val option \<Rightarrow> Val option \<Rightarrow> Type option \<Rightarrow>
   Val option \<Rightarrow> Type option \<Rightarrow> visitor \<Rightarrow> error + visitor" where
  "finishBinop op ty result left leftType right rightType v =
     (case binOpMap op of
        None \<Rightarrow> Inl (Panic ''unsupported binary operation'')
      | Some irOp \<Rightarrow>
          let isLhsPtr = isPointer leftType;
              isRhsPtr = isPointer rightType
          in if (op = ast_BinOpAdd \<or> op = ast_BinOpSub) \<and> isLhsPtr \<noteq> isRhsPtr
                \<and> elemSizeOf (if isLhsPtr then leftType else rightType) \<noteq> 1
             then
               let ptrSide = (if isLhsPtr then left else right);
                   intSide = (if isLhsPtr then right else left);
                   elemSize = elemSizeOf (if isLhsPtr then leftType else rightType);
                   (idx, v1) = nextIdent ''idx'' v;
                   tmpScaled = Some (NewValIdent idx);
                   v2 = appendInstruction
                          (NewBinop BinOpMul tmpScaled intSide (Some (NewValInteger elemSize))) v1;
                   v3 = appendInstruction (NewBinop irOp result ptrSide tmpScaled) v2
               in Inr (v3\<lparr>lastVal := result, lastType := ty\<rparr>)
             else
               let v1 = appendInstruction (NewBinop irOp result left right) v
               in Inr (v1\<lparr>lastVal := result, lastType := ty\<rparr>))"

fun VisitExpr :: "Expression \<Rightarrow> visitor \<Rightarrow> error + visitor"
  and VisitArgs :: "(Expression \<times> Type option) list \<Rightarrow> Arg list \<Rightarrow> visitor
                     \<Rightarrow> error + (Arg list \<times> visitor)" where
  "VisitExpr (Literal ty i b s) v =
     (case ty of
        None \<Rightarrow> Inl (Panic ''literal has nil type'')
      | Some t \<Rightarrow>
          (case Kind t of
             TypeInt \<Rightarrow> Inr (v\<lparr>lastVal := Some (NewValInteger i), lastType := ty\<rparr>)
           | TypeBool \<Rightarrow>
               Inr (v\<lparr>lastVal := Some (NewValInteger (if b then 1 else 0)), lastType := ty\<rparr>)
           | TypeString \<Rightarrow>
               (let (ident, v1) = nextIdent ''str'' v;
                    v2 = v1\<lparr>unit := (unit v1)
                            \<lparr>DataDefs := DataDefs (unit v1) @ [NewDataDefStringZ ident s]\<rparr>\<rparr>
                in Inr (v2\<lparr>lastVal := Some (NewValGlobal ident), lastType := ty\<rparr>))
           | _ \<Rightarrow> Inl (Panic ''unsupported literal type'')))"
| "VisitExpr (Binop op lhs rhs ty) v =
     (case VisitExpr lhs (v\<lparr>lastVal := None, lastType := None\<rparr>) of
        Inl e \<Rightarrow> Inl e
      | Inr v1 \<Rightarrow>
          let left = lastVal v1;
              leftType = lastType v1;
              (rid, v2) = nextIdent ''tmp'' v1;
              result = Some (NewValIdent rid)
          in if op = ast_BinOpLogAnd then
               let (trueLabel, v3) = nextLabel ''true'' v2;
                   (falseLabel, v4) = nextLabel ''false'' v3;
                   (endLabel, v5) = nextLabel ''end'' v4;
                   v6 = appendInstruction (NewJnz left trueLabel falseLabel) v5;
                   v7 = appendInstruction (NewLabel falseLabel) v6;
                   v8 = appendInstruction
                          (NewBinop BinOpAdd result left (Some (NewValInteger 0))) v7;
                   v9 = appendInstruction (NewJmp endLabel) v8;
                   v10 = appendInstruction (NewLabel trueLabel) v9
               in (case VisitExpr rhs v10 of
                     Inl e \<Rightarrow> Inl e
                   | Inr v11 \<Rightarrow>
                       let right = lastVal v11;
                           v12 = appendInstruction
                                   (NewBinop BinOpAdd result right (Some (NewValInteger 0))) v11;
                           v13 = appendInstruction (NewLabel endLabel) v12
                       in Inr (v13\<lparr>lastVal := result\<rparr>))
             else if op = ast_BinOpLogOr then
               let (trueLabel, v3) = nextLabel ''true'' v2;
                   (falseLabel, v4) = nextLabel ''false'' v3;
                   (endLabel, v5) = nextLabel ''end'' v4;
                   v6 = appendInstruction (NewJnz left trueLabel falseLabel) v5;
                   v7 = appendInstruction (NewLabel trueLabel) v6;
                   v8 = appendInstruction
                          (NewBinop BinOpAdd result left (Some (NewValInteger 0))) v7;
                   v9 = appendInstruction (NewJmp endLabel) v8;
                   v10 = appendInstruction (NewLabel falseLabel) v9
               in (case VisitExpr rhs v10 of
                     Inl e \<Rightarrow> Inl e
                   | Inr v11 \<Rightarrow>
                       let right = lastVal v11;
                           v12 = appendInstruction
                                   (NewBinop BinOpAdd result right (Some (NewValInteger 0))) v11;
                           v13 = appendInstruction (NewLabel endLabel) v12
                       in Inr (v13\<lparr>lastVal := result\<rparr>))
             else
               (case VisitExpr rhs (v2\<lparr>lastVal := None, lastType := None\<rparr>) of
                  Inl e \<Rightarrow> Inl e
                | Inr v3 \<Rightarrow>
                    finishBinop op ty result left leftType (lastVal v3) (lastType v3) v3))"
| "VisitExpr (VariableRef ident ty) v =
     Inr (v\<lparr>lastVal := Some (NewValIdent ident), lastType := ty\<rparr>)"
| "VisitExpr (Deref e ty) v =
     (case VisitExpr e v of
        Inl err \<Rightarrow> Inl err
      | Inr v1 \<Rightarrow>
          let addr = lastVal v1;
              (t, v2) = nextIdent ''tmp'' v1;
              tmp = Some (NewValIdent t);
              v3 = appendInstruction (NewLoad tmp addr) v2
          in Inr (v3\<lparr>lastVal := tmp, lastType := ty\<rparr>))"
| "VisitExpr (Call ident cargs ty) v =
     (let callee = NewValGlobal (lookupLinkName (FuncDefs (unit v)) ident)
      in case VisitArgs cargs [] v of
           Inl e \<Rightarrow> Inl e
         | Inr (args, v1) \<Rightarrow>
             let (t, v2) = nextIdent ''tmp'' v1;
                 call = NewCall callee args;
                 call' = (case ty of
                            None \<Rightarrow> call
                          | Some cty \<Rightarrow>
                              if Kind cty \<noteq> TypeVoid then WithRet call t (mapTypeToAbiTy ty)
                              else call);
                 v3 = appendInstruction call' v2
             in Inr (v3\<lparr>lastVal := Some (NewValIdent t)\<rparr>))"
| "VisitArgs [] args v = Inr (args, v)"
| "VisitArgs (a # as) args v =
     (case VisitExpr (fst a) (v\<lparr>lastVal := None\<rparr>) of
        Inl e \<Rightarrow> Inl e
      | Inr v1 \<Rightarrow> VisitArgs as (args @ [NewArgRegular (mapTypeToAbiTy (snd a)) (lastVal v1)]) v1)"

fun VisitInstr :: "Instruction \<Rightarrow> visitor \<Rightarrow> error + visitor"
  and VisitBody :: "Instruction list \<Rightarrow> visitor \<Rightarrow> error + visitor" where
  "VisitInstr (Declare ident ty) v = Inr v"
| "VisitInstr (Assign lhs val) v =
     (case VisitExpr val (v\<lparr>lastVal := None\<rparr>) of
        Inl e \<Rightarrow> Inl e
      | Inr v1 \<Rightarrow>
          let val' = lastVal v1;
              v2 = v1\<lparr>lastVal := None\<rparr>
          in (case lhs of
                Deref p pty \<Rightarrow>
                  (case VisitExpr p v2 of
                     Inl e \<Rightarrow> Inl e
                   | Inr v3 \<Rightarrow> Inr (appendInstruction (NewStore (lastVal v3) val') v3))
              | VariableRef x xty \<Rightarrow>
                  (case VisitExpr (VariableRef x xty) v2 of
                     Inl e \<Rightarrow> Inl e
                   | Inr v3 \<Rightarrow>
                       Inr (appendInstruction
                              (NewBinop BinOpAdd (lastVal v3) val' (Some (NewValInteger 0))) v3))
              | _ \<Rightarrow> Inl (Panic ''unsupported LHS in assignment'')))"
| "VisitInstr (CallStmt ident cargs ty) v = VisitExpr (Call ident cargs ty) v"
| "VisitInstr (Return r) v =
     (case r of
        None \<Rightarrow> Inr (appendInstruction (NewRet None) v)
      | Some e \<Rightarrow>
          (case VisitExpr e (v\<lparr>lastVal := None\<rparr>) of
             Inl err \<Rightarrow> Inl err
           | Inr v1 \<Rightarrow> Inr (appendInstruction (NewRet (lastVal v1)) v1)))"
| "VisitInstr (If init cond thn els) v =
     (let (trueLabel, v1) = nextLabel ''then'' v;
          (falseLabel, v2) = nextLabel ''else'' v1;
          (endLabel, v3) = nextLabel ''end'' v2
      in case VisitBody init v3 of
           Inl e \<Rightarrow> Inl e
         | Inr v4 \<Rightarrow>
             (case VisitExpr cond v4 of
                Inl e \<Rightarrow> Inl e
              | Inr v5 \<Rightarrow>
                  let v6 = appendInstruction (NewJnz (lastVal v5) trueLabel falseLabel) v5;
                      v7 = appendInstruction (NewLabel trueLabel) v6
                  in (case VisitBody thn v7 of
                        Inl e \<Rightarrow> Inl e
                      | Inr v8 \<Rightarrow>
                          let v9 = appendInstruction (NewJmp endLabel) v8;
                              v10 = appendInstruction (NewLabel falseLabel) v9
                          in (case (case els of None \<Rightarrow> Inr v10 | Some i \<Rightarrow> VisitInstr i v10) of
                                Inl e \<Rightarrow> Inl e
                              | Inr v11 \<Rightarrow> Inr (appendInstruction (NewLabel endLabel) v11)))))"
| "VisitInstr (For init cond post body) v =
     (let (startLabel, v1) = nextLabel ''for'' v;
          (bodyLabel, v2) = nextLabel ''body'' v1;
          (endLabel, v3) = nextLabel ''end'' v2
      in case VisitBody init v3 of
           Inl e \<Rightarrow> Inl e
         | Inr v4 \<Rightarrow>
             let v5 = appendInstruction (NewLabel startLabel) v4
             in (case VisitExpr cond v5 of
                   Inl e \<Rightarrow> Inl e
                 | Inr v6 \<Rightarrow>
                     let v7 = appendInstruction (NewJnz (lastVal v6) bodyLabel endLabel) v6;
                         v8 = appendInstruction (NewLabel bodyLabel) v7
                     in (case VisitBody body v8 of
                           Inl e \<Rightarrow> Inl e
                         | Inr v9 \<Rightarrow>
                             (case VisitBody post v9 of
                                Inl e \<Rightarrow> Inl e
                              | Inr v10 \<Rightarrow>
                                  let v11 = appendInstruction (NewJmp startLabel) v10
                                  in Inr (appendInstruction (NewLabel endLabel) v11)))))"
| "VisitInstr (Body b) v = VisitBody b v"
| "VisitBody [] v = Inr v"
| "VisitBody (i # is) v =
     (case VisitInstr i v of Inl e \<Rightarrow> Inl e | Inr v1 \<Rightarrow> VisitBody is v1)"

definition VisitFuncParam :: "FuncParam \<Rightarrow> visitor \<Rightarrow> visitor" where
  "VisitFuncParam fp v =
     v\<lparr>lastParam := Some (NewParamRegular (mapTypeToAbiTy (fp_Type fp)) (fp_Ident fp))\<rparr>"

text \<open>The parameter loop of \<^verbatim>\<open>VisitFuncDef\<close>.\<close>

fun lowerParams :: "FuncParam list \<Rightarrow> Param list \<Rightarrow> visitor \<Rightarrow> Param list \<times> visitor" where
  "lowerParams [] params v = (params, v)"
| "lowerParams (p # ps) params v =
     (let v1 = VisitFuncParam p (v\<lparr>lastParam := None\<rparr>)
      in lowerParams ps
           (case lastParam v1 of None \<Rightarrow> params | Some q \<Rightarrow> params @ [q]) v1)"

definition VisitFuncDef :: "FuncDef \<Rightarrow> visitor \<Rightarrow> error + visitor" where
  "VisitFuncDef fd v =
     (let v0 = v\<lparr>labelCounter := 0, lastInstructions := []\<rparr>;
          (params, v1) = lowerParams (fd_Params fd) [] v0;
          irFunc = NewFuncDef (fd_Ident fd) params
      in case (case fd_Attributes fd AttrKeyLinkname of
                 None \<Rightarrow> Inr irFunc
               | Some (AttrString s) \<Rightarrow> Inr (irFunc\<lparr>ir_LinkName := s\<rparr>)
               | Some _ \<Rightarrow> Inl (Panic ''link_name attribute must be a string'')) of
           Inl e \<Rightarrow> Inl e
         | Inr irFunc1 \<Rightarrow>
             let irFunc2 =
                   (case fd_ReturnType fd of
                      None \<Rightarrow> irFunc1
                    | Some rt \<Rightarrow>
                        if Kind rt \<noteq> TypeVoid
                        then irFunc1\<lparr>ir_RetTy := Some (mapTypeToAbiTy (fd_ReturnType fd))\<rparr>
                        else irFunc1);
                 irFunc3 =
                   (case fd_Attributes fd AttrKeyExport of
                      None \<Rightarrow> irFunc2
                    | Some _ \<Rightarrow> irFunc2\<lparr>ir_Linkage := Some NewLinkageExport\<rparr>)
             in (case fd_Body fd of
                   None \<Rightarrow>
                     Inr (v1\<lparr>unit := (unit v1)\<lparr>FuncDefs := FuncDefs (unit v1) @ [irFunc3]\<rparr>\<rparr>)
                 | Some body \<Rightarrow>
                     (case VisitBody body v1 of
                        Inl e \<Rightarrow> Inl e
                      | Inr v2 \<Rightarrow>
                          let irFunc4 = irFunc3\<lparr>ir_Blocks := ir_Blocks irFunc3 @
                                [\<lparr>blk_Label = ''start'',
                                  blk_Instructions = lastInstructions v2\<rparr>]\<rparr>
                          in Inr (v2\<lparr>unit := (unit v2)
                                    \<lparr>FuncDefs := FuncDefs (unit v2) @ [irFunc4]\<rparr>\<rparr>))))"

fun VisitFuncs :: "FuncDef list \<Rightarrow> visitor \<Rightarrow> error + visitor" where
  "VisitFuncs [] v = Inr v"
| "VisitFuncs (fd # fds) v =
     (case VisitFuncDef fd v of Inl e \<Rightarrow> Inl e | Inr v1 \<Rightarrow> VisitFuncs fds v1)"

text \<open>
  \<^verbatim>\<open>VisitTypeDef\<close> and \<^verbatim>\<open>VisitDataDef\<close> have empty bodies, so the first two loops of
  \<^verbatim>\<open>VisitCompilationUnit\<close> leave the visitor as it is.
\<close>

definition VisitCompilationUnit :: "CompilationUnit \<Rightarrow> visitor \<Rightarrow> error + visitor" where
  "VisitCompilationUnit cu v = VisitFuncs (cu_Funcs cu) (fold (\<lambda>d w. w) (cu_Data cu)
     (fold (\<lambda>t w. w) (cu_Types cu) v))"

definition Lower :: "CompilationUnit \<Rightarrow> error + IRUnit" where
  "Lower cu =
     (case VisitCompilationUnit cu newVisitor of Inl e \<Rightarrow> Inl e | Inr v \<Rightarrow> Inr (unit v))"

section \<open>Reading the number back from a generated name\<close>

definition isNumeric :: "char \<Rightarrow> bool" where
  "isNumeric c = (48 \<le> (of_char c :: nat) \<and> (of_char c :: nat) \<le> 57)"

definition digitVal :: "char \<Rightarrow> nat" where
  "digitVal c = of_char c - 48"

definition decVal :: "string \<Rightarrow> nat" where
  "decVal s = foldl (\<lambda>a c. 10 * a + digitVal c) 0 s"

definition identNumber :: "string \<Rightarrow> nat" where
  "identNumber s = decVal (rev (takeWhile isNumeric (rev s)))"

definition labelNumber :: "string \<Rightarrow> nat" where
  "labelNumber s = decVal (takeWhile isNumeric (tl s))"

section \<open>Properties of emitted instruction lists\<close>

text \<open>A \<^verbatim>\<open>Ret\<close> that is not the last instruction is directly followed by a label.\<close>

fun retThenLabel :: "Instr list \<Rightarrow> bool" where
  "retThenLabel [] = True"
| "retThenLabel [i] = True"
| "retThenLabel (i # j # is) = ((isRet i \<longrightarrow> isLabel j) \<and> retThenLabel (j # is))"

definition funcsOK :: "IRFuncDef list \<Rightarrow> bool" where
  "funcsOK fs = (\<forall>f \<in> set fs. \<forall>b \<in> set (ir_Blocks f). retThenLabel (blk_Instructions b))"

text \<open>
  \<open>steps v w\<close>: the visitor state \<open>w\<close> is reached from \<open>v\<close> by appending instructions
  through \<open>appendInstruction\<close> and by updates that leave the instruction list and the
  functions lowered so far alone and do not decrease a counter.
\<close>

inductive steps :: "visitor \<Rightarrow> visitor \<Rightarrow> bool" where
  steps_refl: "steps v v"
| steps_append: "steps v w \<Longrightarrow> steps v (appendInstruction i w)"
| steps_silent: "steps v w \<Longrightarrow> lastInstructions w' = lastInstructions w \<Longrightarrow>
     tmpCounter w \<le> tmpCounter w' \<Longrightarrow> labelCounter w \<le> labelCounter w' \<Longrightarrow>
     FuncDefs (unit w') = FuncDefs (unit w) \<Longrightarrow> steps v w'"

subsection \<open>Names defined by the lowered program\<close>

text \<open>
  The identifiers an IR instruction assigns to: the destination of a \<^verbatim>\<open>Binop\<close> or a
  \<^verbatim>\<open>Load\<close>, and the result of a \<^verbatim>\<open>Call\<close> that has one; \<open>definedIdents\<close> lists the names a
  unit defines, the data definitions first, then the destinations in every block.
\<close>

fun valName :: "Val option \<Rightarrow> Ident list" where
  "valName (Some (NewValIdent x)) = [x]"
| "valName v = []"

fun instrDests :: "Instr \<Rightarrow> Ident list" where
  "instrDests (NewBinop op d l r) = valName d"
| "instrDests (IRCall c args ret) = (case ret of None \<Rightarrow> [] | Some (x, ty) \<Rightarrow> [x])"
| "instrDests (NewLoad d a) = valName d"
| "instrDests i = []"

definition definedIn :: "Instr list \<Rightarrow> Ident list" where
  "definedIn is = concat (map instrDests is)"

definition definedIdents :: "IRUnit \<Rightarrow> Ident list" where
  "definedIdents u =
     map dd_Ident (DataDefs u) @
     concat (map (\<lambda>f. concat (map (\<lambda>b. definedIn (blk_Instructions b)) (ir_Blocks f)))
               (FuncDefs u))"

text \<open>
  The variables of the source program that an assignment writes to. The lowering of
  \<^verbatim>\<open>x = e\<close> emits a move whose destination is \<^verbatim>\<open>x\<close> itself; every other destination in
  the output is a name from \<open>nextIdent\<close>.
\<close>

fun assignedIn :: "Instruction \<Rightarrow> string set"
  and assignedInList :: "Instruction list \<Rightarrow> string set" where
  "assignedIn (Assign lhs val) = (case lhs of VariableRef x ty \<Rightarrow> {x} | _ \<Rightarrow> {})"
| "assignedIn (If init cond thn els) =
     assignedInList init \<union> assignedInList thn
     \<union> (case els of None \<Rightarrow> {} | Some i \<Rightarrow> assignedIn i)"
| "assignedIn (For init cond post body) =
     assignedInList init \<union> assignedInList post \<union> assignedInList body"
| "assignedIn (Body b) = assignedInList b"
| "assignedIn (Declare x ty) = {}"
| "assignedIn (CallStmt f args ty) = {}"
| "assignedIn (Return r) = {}"
| "assignedInList [] = {}"
| "assignedInList (i # is) = assignedIn i \<union> assignedInList is"

definition assignedVars :: "CompilationUnit \<Rightarrow> string set" where
  "assignedVars cu =
     (\<Union>fd \<in> set (cu_Funcs cu). case fd_Body fd of None \<Rightarrow> {} | Some b \<Rightarrow> assignedInList b)"

definition generatedIdents :: "CompilationUnit \<Rightarrow> IRUnit \<Rightarrow> string set" where
  "generatedIdents cu u = set (definedIdents u) - assignedVars cu"

text \<open>
  \<open>freshSegment A lo hi N\<close>: every name in \<open>N\<close> is a variable in \<open>A\<close> or a generated
  name \<^verbatim>\<open>_<kind>_NNNN\<close> with a number in \<open>(lo, hi]\<close>, and two names of \<open>N\<close> outside \<open>A\<close>
  with the same number are the same name.
\<close>

definition identKinds :: "string set" where
  "identKinds = {''tmp'', ''str'', ''idx''}"

definition freshSegment :: "string set \<Rightarrow> nat \<Rightarrow> nat \<Rightarrow> string set \<Rightarrow> bool" where
  "freshSegment A lo hi N =
     ((\<forall>x \<in> N. x \<in> A \<or> (\<exists>p k. p \<in> identKinds \<and> lo < k \<and> k \<le> hi \<and> x = fmtIdent p k))
      \<and> (\<forall>x \<in> N. \<forall>y \<in> N. x \<notin> A \<longrightarrow> y \<notin> A \<longrightarrow> identNumber x = identNumber y \<longrightarrow> x = y))"

text \<open>
  \<open>definedSoFar v\<close>: the names defined in the data definitions and in the instruction
  list of the function being lowered. \<open>extends A v v'\<close>: from \<open>v\<close> to \<open>v'\<close> the counter does
  not decrease, the finished functions are the same, and the names defined since \<open>v\<close> form
  a fresh segment for the numbers handed out since \<open>v\<close>; \<open>extendsUnit\<close> is the same for
  the names defined in the whole unit.
\<close>

definition definedSoFar :: "visitor \<Rightarrow> string set" where
  "definedSoFar v = set (map dd_Ident (DataDefs (unit v))) \<union> set (definedIn (lastInstructions v))"

definition extends :: "string set \<Rightarrow> visitor \<Rightarrow> visitor \<Rightarrow> bool" where
  "extends A v v' =
     (tmpCounter v \<le> tmpCounter v' \<and> FuncDefs (unit v') = FuncDefs (unit v)
      \<and> (\<exists>N. definedSoFar v' = definedSoFar v \<union> N \<and> freshSegment A (tmpCounter v) (tmpCounter v') N))"

definition extendsUnit :: "string set \<Rightarrow> visitor \<Rightarrow> visitor \<Rightarrow> bool" where
  "extendsUnit A v v' =
     (tmpCounter v \<le> tmpCounter v'
      \<and> (\<exists>N. set (definedIdents (unit v')) = set (definedIdents (unit v)) \<union> N
               \<and> freshSegment A (tmpCounter v) (tmpCounter v') N))"

section \<open>Example programs\<close>

text \<open>
  \<^verbatim>\<open>pick :: func(x: int) -> int { if x == 1 { return 1 } else { return 2 } }\<close>
\<close>

definition exBody :: "Instruction list" where
  "exBody =
     [If [] (Binop ast_BinOpEq (VariableRef ''x'' (Some (Type TypeInt None)))
               (Literal (Some (Type TypeInt None)) 1 False '''') (Some (Type TypeBool None)))
         [Return (Some (Literal (Some (Type TypeInt None)) 1 False ''''))]
         (Some (Body [Return (Some (Literal (Some (Type TypeInt None)) 2 False ''''))]))]"

definition exIfElse :: CompilationUnit where
  "exIfElse = \<lparr>cu_Ident = ''main'', cu_Attributes = Map.empty, cu_Types = [], cu_Data = [],
     cu_Funcs =
     [\<lparr>fd_Ident = ''pick'', fd_Attributes = Map.empty,
       fd_Params = [\<lparr>fp_Ident = ''x'', fp_Type = Some (Type TypeInt None),
                    fp_Attributes = Map.empty, fp_Value = None\<rparr>],
       fd_ReturnType = Some (Type TypeInt None),
       fd_Body = Some exBody\<rparr>]\<rparr>"

definition exIfElseInstrs :: "Instr list" where
  "exIfElseInstrs =
     [NewBinop BinOpEq (Some (NewValIdent ''_tmp_0001'')) (Some (NewValIdent ''x''))
        (Some (NewValInteger 1)),
      NewJnz (Some (NewValIdent ''_tmp_0001'')) ''L0001_then'' ''L0002_else'',
      NewLabel ''L0001_then'', NewRet (Some (NewValInteger 1)),
      NewLabel ''L0004_block'', NewJmp ''L0003_end'',
      NewLabel ''L0002_else'', NewRet (Some (NewValInteger 2)),
      NewLabel ''L0003_end'']"

definition exIfElseBlock :: Block where
  "exIfElseBlock = \<lparr>blk_Label = ''start'', blk_Instructions = exIfElseInstrs\<rparr>"

definition exIfElseFunc :: IRFuncDef where
  "exIfElseFunc =
     \<lparr>ir_Ident = ''pick'', ir_Params = [NewParamRegular (NewAbiTyBase BaseWord) ''x''],
      ir_LinkName = '''', ir_RetTy = Some (NewAbiTyBase BaseWord), ir_Linkage = None,
      ir_Blocks = [exIfElseBlock]\<rparr>"

definition exIfElseIR :: IRUnit where
  "exIfElseIR = \<lparr>DataDefs = [], FuncDefs = [exIfElseFunc]\<rparr>"

text \<open>
  \<^verbatim>\<open>main :: func() { puts("hi") }\<close>, where \<^verbatim>\<open>puts\<close> returns an \<^verbatim>\<open>int\<close>: a call whose first
  argument is a string literal.
\<close>

definition exCallStr :: CompilationUnit where
  "exCallStr = \<lparr>cu_Ident = ''main'', cu_Attributes = Map.empty, cu_Types = [], cu_Data = [],
     cu_Funcs =
     [\<lparr>fd_Ident = ''main'', fd_Attributes = Map.empty, fd_Params = [],
       fd_ReturnType = Some (Type TypeVoid None),
       fd_Body = Some
         [CallStmt ''puts''
            [(Literal (Some (Type TypeString None)) 0 False ''hi'', Some (Type TypeString None))]
            (Some (Type TypeInt None)),
          Return None]\<rparr>]\<rparr>"

definition exCallStrIR :: IRUnit where
  "exCallStrIR =
     \<lparr>DataDefs = [NewDataDefStringZ ''_str_0001'' ''hi''],
      FuncDefs =
        [\<lparr>ir_Ident = ''main'', ir_Params = [], ir_LinkName = [], ir_RetTy = None,
          ir_Linkage = None,
          ir_Blocks =
            [\<lparr>blk_Label = ''start'',
              blk_Instructions =
                [IRCall (NewValGlobal ''puts'')
                   [NewArgRegular (NewAbiTyBase BaseLong) (Some (NewValGlobal ''_str_0001''))]
                   (Some (''_tmp_0002'', NewAbiTyBase BaseWord)),
                 NewRet None]\<rparr>]\<rparr>]\<rparr>"

text \<open>
  A unit with \<^verbatim>\<open>pick\<close> and a second function \<^verbatim>\<open>pick2\<close> with the same body, the IR of
  the second function, and the visitor after the first and after the second function.
\<close>

definition exPick2 :: FuncDef where
  "exPick2 =
     \<lparr>fd_Ident = ''pick2'', fd_Attributes = Map.empty,
      fd_Params = [\<lparr>fp_Ident = ''x'', fp_Type = Some (Type TypeInt None),
                   fp_Attributes = Map.empty, fp_Value = None\<rparr>],
      fd_ReturnType = Some (Type TypeInt None),
      fd_Body = Some exBody\<rparr>"

definition exTwoFuncs :: CompilationUnit where
  "exTwoFuncs = exIfElse\<lparr>cu_Funcs := cu_Funcs exIfElse @ [exPick2]\<rparr>"

definition exPick2Instrs :: "Instr list" where
  "exPick2Instrs =
     [NewBinop BinOpEq (Some (NewValIdent ''_tmp_0002'')) (Some (NewValIdent ''x''))
        (Some (NewValInteger 1)),
      NewJnz (Some (NewValIdent ''_tmp_0002'')) ''L0001_then'' ''L0002_else'',
      NewLabel ''L0001_then'', NewRet (Some (NewValInteger 1)),
      NewLabel ''L0004_block'', NewJmp ''L0003_end'',
      NewLabel ''L0002_else'', NewRet (Some (NewValInteger 2)),
      NewLabel ''L0003_end'']"

definition exPick2Func :: IRFuncDef where
  "exPick2Func =
     \<lparr>ir_Ident = ''pick2'', ir_Params = [NewParamRegular (NewAbiTyBase BaseWord) ''x''],
      ir_LinkName = [], ir_RetTy = Some (NewAbiTyBase BaseWord), ir_Linkage = None,
      ir_Blocks = [\<lparr>blk_Label = ''start'', blk_Instructions = exPick2Instrs\<rparr>]\<rparr>"

definition exAfterPick :: visitor where
  "exAfterPick =
     \<lparr>unit = exIfElseIR, lastVal = Some (NewValInteger 2),
      lastType = Some (Type TypeInt None),
      lastParam = Some (NewParamRegular (NewAbiTyBase BaseWord) ''x''),
      lastInstructions = exIfElseInstrs, tmpCounter = 1, labelCounter = 4\<rparr>"

definition exAfterPick2 :: visitor where
  "exAfterPick2 =
     exAfterPick\<lparr>unit := \<lparr>DataDefs = [], FuncDefs = [exIfElseFunc, exPick2Func]\<rparr>,
                 lastInstructions := exPick2Instrs, tmpCounter := 2\<rparr>"

section \<open>The scanner and the tokenizer\<close>

text \<open>
  Modelled from the spec: the \<^verbatim>\<open>Scanner\<close> of package \<^verbatim>\<open>lexer\<close>, whose source is not
  part of the repository snapshot. The specification describes it as a "byte stream with
  line/column tracking and small pushback"; the tokenizer uses \<^verbatim>\<open>Next\<close> (the next
  byte, or \<^verbatim>\<open>io.EOF\<close> at the end), \<^verbatim>\<open>Unread(n)\<close> (step back \<open>n\<close> bytes) and
  \<^verbatim>\<open>Location\<close>. A location is represented by the byte offset alone.
\<close>

record Scanner =
  sc_input :: string
  sc_pos :: nat

datatype lex_error = EOF | NumError string

definition Scan_Next :: "Scanner \<Rightarrow> lex_error + (char \<times> Scanner)" where
  "Scan_Next s =
     (if sc_pos s < length (sc_input s)
      then Inr (sc_input s ! sc_pos s, s\<lparr>sc_pos := Suc (sc_pos s)\<rparr>)
      else Inl EOF)"

definition Scan_Unread :: "nat \<Rightarrow> Scanner \<Rightarrow> Scanner" where
  "Scan_Unread n s = s\<lparr>sc_pos := sc_pos s - n\<rparr>"

definition Scan_Location :: "Scanner \<Rightarrow> nat" where
  "Scan_Location s = sc_pos s"

text \<open>
  \<^verbatim>\<open>TokenType\<close> and \<^verbatim>\<open>Keyword\<close> are string types in Go. The first fifteen token types
  and the keywords up to \<open>KeywordPackage\<close> are the ones \<^verbatim>\<open>lexer/tokenizer.go\<close> declares;
  the others are the further ones \<^verbatim>\<open>parser/parser.go\<close> refers to. \<open>lexer_TypeNone\<close> and
  \<open>KeywordNone\<close> are the empty strings of the zero value \<^verbatim>\<open>Token{}\<close>.
\<close>

datatype TokenType =
  lexer_TypeNone | lexer_TypeEOF | lexer_TypeIdent | lexer_TypeKeyword | lexer_TypeNumber | lexer_TypeString | lexer_TypeLparen | lexer_TypeRparen
  | lexer_TypeLbrace | lexer_TypeRbrace | lexer_TypeComma | lexer_TypeArrow | lexer_TypeColon | lexer_TypeAt | lexer_TypeEquals | lexer_TypePlus
  | lexer_TypeAssign | lexer_TypeMinus | lexer_TypeStar | lexer_TypeSlash | lexer_TypeShl | lexer_TypeShr | lexer_TypeBinAnd | lexer_TypeBinOr
  | lexer_TypeLogAnd | lexer_TypeLogOr | lexer_TypeEq | lexer_TypeNe | lexer_TypeLt | lexer_TypeLe | lexer_TypeGt | lexer_TypeGe
  | lexer_TypeCaret | lexer_TypeSemicolon | lexer_TypeBool

datatype Keyword =
  KeywordNone | KeywordFunc | KeywordReturn | KeywordInt | KeywordString | KeywordVoid
  | KeywordPackage | KeywordIf | KeywordElse | KeywordFor | KeywordBool | KeywordTrue
  | KeywordFalse

record Token =
  tk_Type :: TokenType
  tk_Keyword :: Keyword
  tk_Identifier :: string
  tk_StringVal :: string
  tk_NumberVal :: int
  tk_Location :: nat

definition emptyToken :: Token where
  "emptyToken =
     \<lparr>tk_Type = lexer_TypeNone, tk_Keyword = KeywordNone, tk_Identifier = '''', tk_StringVal = '''',
      tk_NumberVal = 0, tk_Location = 0\<rparr>"

text \<open>\<^verbatim>\<open>Token{Type: ty, StringVal: sv, Location: start}\<close>\<close>

definition simpleToken :: "TokenType \<Rightarrow> string \<Rightarrow> nat \<Rightarrow> Token" where
  "simpleToken ty sv start = emptyToken\<lparr>tk_Type := ty, tk_StringVal := sv, tk_Location := start\<rparr>"

definition checkKeyword :: "string \<Rightarrow> Keyword option" where
  "checkKeyword ident =
     (if ident = ''func'' then Some KeywordFunc
      else if ident = ''return'' then Some KeywordReturn
      else if ident = ''int'' then Some KeywordInt
      else if ident = ''string'' then Some KeywordString
      else if ident = ''void'' then Some KeywordVoid
      else if ident = ''package'' then Some KeywordPackage
      else None)"

definition isAlpha :: "char \<Rightarrow> bool" where
  "isAlpha a =
     ((of_char (CHR ''a'') \<le> (of_char a :: nat) \<and> (of_char a :: nat) \<le> of_char (CHR ''z''))
      \<or> (of_char (CHR ''A'') \<le> (of_char a :: nat) \<and> (of_char a :: nat) \<le> of_char (CHR ''Z''))
      \<or> a = CHR ''_'')"

definition isAlphanumeric :: "char \<Rightarrow> bool" where
  "isAlphanumeric a = (isAlpha a \<or> isNumeric a)"

definition isWhitespace :: "char \<Rightarrow> bool" where
  "isWhitespace c = (c = CHR '' '' \<or> c = CHR 0x09 \<or> c = CHR 0x0A \<or> c = CHR 0x0D)"

text \<open>
  \<^verbatim>\<open>strconv.Atoi\<close> of the Go standard library, for an \<^verbatim>\<open>int\<close> of 64 bits: an optional
  sign and decimal digits; a value outside the range of the type is an error.
\<close>

definition Atoi :: "string \<Rightarrow> lex_error + int" where
  "Atoi s =
     (let neg = (s \<noteq> [] \<and> hd s = CHR ''-'');
          ds = (if s \<noteq> [] \<and> (hd s = CHR ''-'' \<or> hd s = CHR ''+'') then tl s else s)
      in if ds = [] \<or> \<not> list_all isNumeric ds then Inl (NumError ''invalid syntax'')
         else
           let v = (if neg then - int (decVal ds) else int (decVal ds))
           in if v < - (2 ^ 63) \<or> 2 ^ 63 - 1 < v then Inl (NumError ''value out of range'')
              else Inr v)"

record Tokenizer =
  Scan :: Scanner
  Buffer :: "Token list"

definition NewTokenizer :: "Scanner \<Rightarrow> Tokenizer" where
  "NewTokenizer scan = \<lparr>Scan = scan, Buffer = []\<rparr>"

text \<open>The loop of the string case of \<^verbatim>\<open>next\<close>; \<open>CHR 0x22\<close> is the double quote, \<open>CHR 0x5C\<close> the backslash.\<close>

function scanString :: "string \<Rightarrow> nat \<Rightarrow> Scanner \<Rightarrow> lex_error + (Token \<times> Scanner)" where
  "scanString buf start s =
     (case Scan_Next s of
        Inl e \<Rightarrow> Inl e
      | Inr (c, s1) \<Rightarrow>
          if c = CHR 0x22 then Inr (simpleToken lexer_TypeString buf start, s1)
          else if c = CHR 0x5C then
            (case Scan_Next s1 of
               Inl e \<Rightarrow> Inl e
             | Inr (c2, s2) \<Rightarrow> scanString (buf @ [CHR 0x5C, c2]) start s2)
          else scanString (buf @ [c]) start s1)"
  by pat_completeness auto
termination
  by (relation "measure (\<lambda>(buf, start, s). length (sc_input s) - sc_pos s)")
     (auto simp: Scan_Next_def split: if_splits)

declare scanString.simps [simp del]

text \<open>The loop of the numeric case, followed by the conversion.\<close>

function scanNumber :: "string \<Rightarrow> nat \<Rightarrow> Scanner \<Rightarrow> lex_error + (Token \<times> Scanner)" where
  "scanNumber buf start s =
     (case Scan_Next s of
        Inl e \<Rightarrow> Inl e
      | Inr (c, s1) \<Rightarrow>
          if isNumeric c then scanNumber (buf @ [c]) start s1
          else
            (case Atoi buf of
               Inl e \<Rightarrow> Inl e
             | Inr num \<Rightarrow>
                 Inr ((simpleToken lexer_TypeNumber buf start)\<lparr>tk_NumberVal := num\<rparr>,
                      Scan_Unread 1 s1)))"
  by pat_completeness auto
termination
  by (relation "measure (\<lambda>(buf, start, s). length (sc_input s) - sc_pos s)")
     (auto simp: Scan_Next_def split: if_splits)

declare scanNumber.simps [simp del]

text \<open>The loop of the identifier case, followed by the keyword check.\<close>

function scanIdent :: "string \<Rightarrow> nat \<Rightarrow> Scanner \<Rightarrow> lex_error + (Token \<times> Scanner)" where
  "scanIdent buf start s =
     (case Scan_Next s of
        Inl e \<Rightarrow> Inl e
      | Inr (c, s1) \<Rightarrow>
          if isAlphanumeric c then scanIdent (buf @ [c]) start s1
          else
            (case checkKeyword buf of
               Some kw \<Rightarrow>
                 Inr ((simpleToken lexer_TypeKeyword buf start)
                        \<lparr>tk_Keyword := kw, tk_Identifier := buf\<rparr>, Scan_Unread 1 s1)
             | None \<Rightarrow>
                 Inr ((simpleToken lexer_TypeIdent buf start)\<lparr>tk_Identifier := buf\<rparr>,
                      Scan_Unread 1 s1)))"
  by pat_completeness auto
termination
  by (relation "measure (\<lambda>(buf, start, s). length (sc_input s) - sc_pos s)")
     (auto simp: Scan_Next_def split: if_splits)

declare scanIdent.simps [simp del]

text \<open>
  The outer loop of \<^verbatim>\<open>next\<close> (\<open>nextLoop\<close>) with the loop that skips a line comment
  (\<open>skipLine\<close>). A byte that matches no case of the \<^verbatim>\<open>switch\<close> falls out of it and the
  loop reads the next byte.
\<close>

function nextLoop :: "string \<Rightarrow> Scanner \<Rightarrow> lex_error + (Token \<times> Scanner)"
  and skipLine :: "string \<Rightarrow> Scanner \<Rightarrow> lex_error + (Token \<times> Scanner)" where
  "nextLoop buf s =
     (case Scan_Next s of
        Inl e \<Rightarrow> Inl e
      | Inr (c, s1) \<Rightarrow>
          let start = Scan_Location s1
          in if c = CHR ''='' then Inr (simpleToken lexer_TypeEquals ''='' start, s1)
             else if c = CHR ''('' then Inr (simpleToken lexer_TypeLparen ''('' start, s1)
             else if c = CHR '')'' then Inr (simpleToken lexer_TypeRparen '')'' start, s1)
             else if c = CHR ''{'' then Inr (simpleToken lexer_TypeLbrace ''{'' start, s1)
             else if c = CHR ''}'' then Inr (simpleToken lexer_TypeRbrace ''}'' start, s1)
             else if c = CHR '','' then Inr (simpleToken lexer_TypeComma '','' start, s1)
             else if c = CHR '':'' then Inr (simpleToken lexer_TypeColon '':'' start, s1)
             else if c = CHR ''@'' then Inr (simpleToken lexer_TypeAt ''@'' start, s1)
             else if c = CHR ''+'' then Inr (simpleToken lexer_TypePlus ''+'' start, s1)
             else if c = CHR ''/'' then
               (case Scan_Next s1 of
                  Inl e \<Rightarrow> Inl e
                | Inr (c2, s2) \<Rightarrow>
                    if c2 = CHR ''/'' then skipLine buf s2
                    else nextLoop buf (Scan_Unread 1 s2))
             else if c = CHR ''-'' then
               (case Scan_Next s1 of
                  Inl e \<Rightarrow> Inl e
                | Inr (c2, s2) \<Rightarrow>
                    if c2 = CHR ''>'' then Inr (simpleToken lexer_TypeArrow ''->'' start, s2)
                    else if isNumeric c2 then nextLoop (buf @ ''-'') (Scan_Unread 1 s2)
                    else nextLoop buf (Scan_Unread 1 s2))
             else if isWhitespace c then nextLoop buf s1
             else if c = CHR 0x22 then scanString buf start s1
             else if isNumeric c then scanNumber (buf @ [c]) start s1
             else if isAlpha c then scanIdent (buf @ [c]) start s1
             else nextLoop buf s1)"
| "skipLine buf s =
     (case Scan_Next s of
        Inl e \<Rightarrow> Inl e
      | Inr (c, s1) \<Rightarrow>
          if c = CHR 0x0A \<or> c = CHR 0x0D then nextLoop buf s1 else skipLine buf s1)"
  by pat_completeness auto
termination
  by (relation "measure (\<lambda>x. case x of Inl (buf, s) \<Rightarrow> length (sc_input s) - sc_pos s
                                       | Inr (buf, s) \<Rightarrow> length (sc_input s) - sc_pos s)")
     (auto simp: Scan_Next_def Scan_Unread_def split: if_splits)

declare nextLoop.simps [simp del] skipLine.simps [simp del]

definition Tokenizer_next :: "Tokenizer \<Rightarrow> lex_error + (Token \<times> Tokenizer)" where
  "Tokenizer_next t =
     (if Buffer t \<noteq> [] then Inr (hd (Buffer t), t\<lparr>Buffer := tl (Buffer t)\<rparr>)
      else
        (case nextLoop [] (Scan t) of
           Inl e \<Rightarrow> Inl e
         | Inr (tok, s) \<Rightarrow> Inr (tok, t\<lparr>Scan := s\<rparr>)))"

lemma Scan_Next_Inr:
  "Scan_Next s = Inr (c, s1) \<Longrightarrow>
     sc_input s1 = sc_input s \<and> sc_pos s1 = Suc (sc_pos s) \<and> sc_pos s < length (sc_input s)
     \<and> c = sc_input s ! sc_pos s"
  by (auto simp: Scan_Next_def split: if_splits)


text \<open>
  Every call of \<open>nextLoop\<close> that returns a token has moved the scanner forward; this is
  what makes the loop of \<^verbatim>\<open>Tokens\<close> terminate.
\<close>

definition advances :: "bool \<Rightarrow> Scanner \<Rightarrow> lex_error + (Token \<times> Scanner) \<Rightarrow> bool" where
  "advances strict s r =
     (case r of
        Inl e \<Rightarrow> True
      | Inr (tok, s') \<Rightarrow>
          sc_input s' = sc_input s \<and> sc_pos s' \<le> length (sc_input s)
          \<and> (if strict then sc_pos s < sc_pos s' else sc_pos s \<le> sc_pos s'))"

lemma advances_Inl [simp]: "advances b s (Inl e)"
  by (simp add: advances_def)

lemma advances_bind:
  "(\<And>c s1. Scan_Next s0 = Inr (c, s1) \<Longrightarrow> advances b s (f c s1)) \<Longrightarrow>
   advances b s (case Scan_Next s0 of Inl e \<Rightarrow> Inl e | Inr (c, s1) \<Rightarrow> f c s1)"
  by (cases "Scan_Next s0") auto

lemma advances_if:
  "(c \<Longrightarrow> advances b s x) \<Longrightarrow> (\<not> c \<Longrightarrow> advances b s y) \<Longrightarrow> advances b s (if c then x else y)"
  by simp

lemma advances_mono:
  "advances b s1 r \<Longrightarrow> sc_input s1 = sc_input s \<Longrightarrow> sc_pos s < sc_pos s1 \<Longrightarrow> advances True s r"
  by (auto simp: advances_def split: sum.splits if_splits)

lemma advances_weaken: "advances True s r \<Longrightarrow> advances b s r"
  by (auto simp: advances_def split: sum.splits if_splits)

lemma scanString_advances: "advances True s (scanString buf start s)"
proof (induction "length (sc_input s) - sc_pos s" arbitrary: buf s rule: less_induct)
  case less
  have IH: "advances True s (scanString b start s2)"
    if "sc_input s2 = sc_input s" "sc_pos s < sc_pos s2" "sc_pos s2 \<le> length (sc_input s)" for b s2
  proof -
    have "length (sc_input s2) - sc_pos s2 < length (sc_input s) - sc_pos s" using that by simp
    from less[OF this] have "advances True s2 (scanString b start s2)" .
    from advances_mono[OF this that(1,2)] show ?thesis by (rule advances_weaken)
  qed
  show ?case
    apply (subst scanString.simps)
    apply (intro advances_bind advances_if)
      apply (auto simp: advances_def dest!: Scan_Next_Inr)[1]
     apply (rule IH; auto dest!: Scan_Next_Inr)
    apply (rule IH; auto dest!: Scan_Next_Inr)
    done
qed

lemma scanNumber_advances: "advances False s (scanNumber buf start s)"
proof (induction "length (sc_input s) - sc_pos s" arbitrary: buf s rule: less_induct)
  case less
  have IH: "advances False s (scanNumber b start s2)"
    if "sc_input s2 = sc_input s" "sc_pos s < sc_pos s2" "sc_pos s2 \<le> length (sc_input s)" for b s2
  proof -
    have "length (sc_input s2) - sc_pos s2 < length (sc_input s) - sc_pos s" using that by simp
    from less[OF this] have "advances False s2 (scanNumber b start s2)" .
    from advances_mono[OF this that(1,2)] show ?thesis by (rule advances_weaken)
  qed
  show ?case
    apply (subst scanNumber.simps)
    apply (intro advances_bind advances_if)
     apply (rule IH; auto dest!: Scan_Next_Inr)
    apply (auto simp: advances_def Scan_Unread_def split: sum.splits dest!: Scan_Next_Inr)
    done
qed

lemma scanIdent_advances: "advances False s (scanIdent buf start s)"
proof (induction "length (sc_input s) - sc_pos s" arbitrary: buf s rule: less_induct)
  case less
  have IH: "advances False s (scanIdent b start s2)"
    if "sc_input s2 = sc_input s" "sc_pos s < sc_pos s2" "sc_pos s2 \<le> length (sc_input s)" for b s2
  proof -
    have "length (sc_input s2) - sc_pos s2 < length (sc_input s) - sc_pos s" using that by simp
    from less[OF this] have "advances False s2 (scanIdent b start s2)" .
    from advances_mono[OF this that(1,2)] show ?thesis by (rule advances_weaken)
  qed
  show ?case
    apply (subst scanIdent.simps)
    apply (intro advances_bind advances_if)
     apply (rule IH; auto dest!: Scan_Next_Inr)
    apply (auto simp: advances_def Scan_Unread_def split: option.splits dest!: Scan_Next_Inr)
    done
qed

lemma nextLoop_advances:
  "advances True s (nextLoop buf s) \<and> advances True s (skipLine buf s)"
proof (induction "length (sc_input s) - sc_pos s" arbitrary: buf s rule: less_induct)
  case less
  have IH: "advances True s (nextLoop b s2)" "advances True s (skipLine b s2)"
    if "sc_input s2 = sc_input s" "sc_pos s < sc_pos s2" "sc_pos s2 \<le> length (sc_input s)" for b s2
  proof -
    have "length (sc_input s2) - sc_pos s2 < length (sc_input s) - sc_pos s" using that by simp
    from less[OF this, of b]
    have "advances True s2 (nextLoop b s2)" "advances True s2 (skipLine b s2)" by simp_all
    from advances_mono[OF this(1) that(1,2)] advances_mono[OF this(2) that(1,2)]
    show "advances True s (nextLoop b s2)" "advances True s (skipLine b s2)" .
  qed
  have tok: "advances True s (Inr (t, s1))" if "Scan_Next s = Inr (c, s1)" for t c s1
    using Scan_Next_Inr[OF that] by (simp add: advances_def)
  have tok2: "advances True s (Inr (t, s2))" if "Scan_Next s = Inr (c, s1)" "Scan_Next s1 = Inr (c2, s2)" for t c s1 c2 s2
    using Scan_Next_Inr[OF that(1)] Scan_Next_Inr[OF that(2)] by (simp add: advances_def)
  have rec1: "advances True s (nextLoop b s1)" "advances True s (skipLine b s1)"
    if "Scan_Next s = Inr (c, s1)" for b c s1
    using Scan_Next_Inr[OF that] by (auto intro!: IH)
  have rec2: "advances True s (nextLoop b (Scan_Unread 1 s2))" "advances True s (skipLine b s2)"
    if "Scan_Next s = Inr (c, s1)" "Scan_Next s1 = Inr (c2, s2)" for b c s1 c2 s2
    using Scan_Next_Inr[OF that(1)] Scan_Next_Inr[OF that(2)]
    by (auto intro!: IH simp: Scan_Unread_def)
  have sub: "advances True s (scanString b st s1)" "advances True s (scanNumber b st s1)"
     "advances True s (scanIdent b st s1)"
    if "Scan_Next s = Inr (c, s1)" for b st c s1
    using Scan_Next_Inr[OF that] scanString_advances[of s1 b st] scanNumber_advances[of s1 b st]
      scanIdent_advances[of s1 b st]
    by (auto intro: advances_mono)
  have "advances True s (nextLoop buf s)"
    apply (subst nextLoop.simps)
    apply (simp only: Let_def)
    apply (intro advances_bind advances_if)
    apply (erule tok rec1 sub | erule (1) tok2 rec2)+
    done
  moreover have "advances True s (skipLine buf s)"
    apply (subst skipLine.simps)
    apply (intro advances_bind advances_if)
    apply (erule tok rec1 sub | erule (1) tok2 rec2)+
    done
  ultimately show ?case by simp
qed

lemma nextLoop_progress:
  "nextLoop buf s = Inr (tok, s') \<Longrightarrow>
     sc_input s' = sc_input s \<and> sc_pos s < sc_pos s' \<and> sc_pos s' \<le> length (sc_input s)"
  using nextLoop_advances[of s buf] by (simp add: advances_def)

text \<open>
  The loop of \<^verbatim>\<open>Tokens\<close>: \<^verbatim>\<open>io.EOF\<close> from \<^verbatim>\<open>next\<close> ends it with the tokens read so
  far, any other error is returned.
\<close>

function TokensLoop :: "Token list \<Rightarrow> Tokenizer \<Rightarrow> lex_error + Token list" where
  "TokensLoop tokens t =
     (case Tokenizer_next t of
        Inl err \<Rightarrow> if err = EOF then Inr tokens else Inl err
      | Inr (token, t') \<Rightarrow> TokensLoop (tokens @ [token]) t')"
  by pat_completeness auto
termination
proof (relation "measure (\<lambda>(tokens, t). length (Buffer t) + (length (sc_input (Scan t)) - sc_pos (Scan t)))")
  show "wf (measure (\<lambda>(tokens, t). length (Buffer t) + (length (sc_input (Scan t)) - sc_pos (Scan t))))"
    by simp
next
  fix tokens t x token t'
  assume "Tokenizer_next t = Inr x" "(token, t') = x"
  then have n: "Tokenizer_next t = Inr (token, t')" by simp
  show "((tokens @ [token], t'), (tokens, t)) \<in> measure (\<lambda>(tokens, t). length (Buffer t) + (length (sc_input (Scan t)) - sc_pos (Scan t)))"
  proof (cases "Buffer t = []")
    case True
    with n obtain s where s: "nextLoop [] (Scan t) = Inr (token, s)" and t': "t' = t\<lparr>Scan := s\<rparr>"
      by (auto simp: Tokenizer_next_def split: sum.splits)
    from nextLoop_progress[OF s] show ?thesis using True t' by auto
  next
    case False
    with n show ?thesis by (cases "Buffer t") (auto simp: Tokenizer_next_def)
  qed
qed

declare TokensLoop.simps [simp del]

definition Tokens :: "Tokenizer \<Rightarrow> lex_error + Token list" where
  "Tokens t = TokensLoop [] t"

text \<open>A byte that no case of the \<^verbatim>\<open>switch\<close> in \<^verbatim>\<open>next\<close> handles.\<close>

definition invalidChar :: "char \<Rightarrow> bool" where
  "invalidChar c =
     (c \<notin> set ''=(){},:@+/-'' \<and> c \<noteq> CHR 0x22 \<and> \<not> isWhitespace c \<and> \<not> isNumeric c
      \<and> \<not> isAlpha c)"

section \<open>The parser\<close>

text \<open>
  Modelled from the spec: the node constructors of package \<^verbatim>\<open>ast\<close> that the parser calls
  (\<^verbatim>\<open>NewVariableRef\<close>, \<^verbatim>\<open>NewDeref\<close>, \<^verbatim>\<open>NewBinop\<close>, the literal constructors,
  \<^verbatim>\<open>NewCall\<close>, \<^verbatim>\<open>NewFuncDef\<close>) and \<^verbatim>\<open>ParseAttrKey\<close>; their source is not part of
  the repository snapshot. A node whose type the type checker fills in later carries no
  type; \<^verbatim>\<open>NewFuncDef\<close> keeps the attributes collected before the definition.
\<close>

definition NewVariableRef :: "string \<Rightarrow> TypeKind \<Rightarrow> Expression" where
  "NewVariableRef ident kind = VariableRef ident (Some (Type kind None))"

definition NewDeref :: "Expression \<Rightarrow> Expression" where
  "NewDeref e = Deref e None"

definition ast_NewBinop :: "ast_BinOpKind \<Rightarrow> Expression \<Rightarrow> Expression \<Rightarrow> Expression" where
  "ast_NewBinop kind lhs rhs = Binop kind lhs rhs None"

definition NewIntLiteral :: "int \<Rightarrow> Expression" where
  "NewIntLiteral n = Literal (Some (Type TypeInt None)) n False ''''"

definition NewBoolLiteral :: "bool \<Rightarrow> Expression" where
  "NewBoolLiteral b = Literal (Some (Type TypeBool None)) 0 b ''''"

definition NewStringLiteral :: "string \<Rightarrow> Expression" where
  "NewStringLiteral s = Literal (Some (Type TypeString None)) 0 False s"

text \<open>
  An \<^verbatim>\<open>*ast.Call\<close> is an expression and an instruction at once; \<open>CallNode\<close> holds its
  fields, and \<open>CallExpr\<close> and \<open>CallInstr\<close> are the two views of it.
\<close>

type_synonym CallNode = "string \<times> (Expression \<times> Type option) list \<times> Type option"

definition ast_NewCall :: "string \<Rightarrow> (Expression \<times> Type option) list \<Rightarrow> CallNode" where
  "ast_NewCall ident args = (ident, args, None)"

definition CallExpr :: "CallNode \<Rightarrow> Expression" where
  "CallExpr c = (case c of (ident, args, ty) \<Rightarrow> Call ident args ty)"

definition CallInstr :: "CallNode \<Rightarrow> Instruction" where
  "CallInstr c = (case c of (ident, args, ty) \<Rightarrow> CallStmt ident args ty)"

definition ParseAttrKey :: "string \<Rightarrow> AttrKey option" where
  "ParseAttrKey key =
     (if key = ''extern'' then Some AttrKeyExtern
      else if key = ''export'' then Some AttrKeyExport
      else if key = ''linkname'' then Some AttrKeyLinkname
      else if key = ''pure'' then Some AttrKeyPure
      else if key = ''inline'' then Some AttrKeyInline
      else if key = ''private'' then Some AttrKeyPrivate
      else None)"

datatype parse_error = ParseEOF | ParseError string | ParsePanic string | OutOfFuel

text \<open>
  \<open>ParseEOF\<close> is \<^verbatim>\<open>io.EOF\<close>. The recursive parsing functions take a bound on the depth of
  calls and loop iterations as their first argument; \<open>OutOfFuel\<close> is the answer of the
  model when the bound is reached and corresponds to no behaviour of the program.
  The index into the tokens is only decremented after a token was read, so a natural
  number represents it.
\<close>

record Parser =
  tok :: "Token list"
  index :: nat
  p_unit :: CompilationUnit
  attributes :: "AttrKey \<rightharpoonup> AttrValue"
  localID :: nat
  currentRetType :: Keyword

definition nextToken :: "Parser \<Rightarrow> parse_error + (Token \<times> Parser)" where
  "nextToken p =
     (if index p \<ge> length (tok p) then Inl ParseEOF
      else Inr (tok p ! index p, p\<lparr>index := index p + 1\<rparr>))"

text \<open>
  \<^verbatim>\<open>expectType\<close> and \<^verbatim>\<open>peekType\<close> return a token together with an error, and callers
  look at both; the model returns the token, the optional error and the parser state.
\<close>

definition expectType :: "TokenType list \<Rightarrow> Parser \<Rightarrow> Token \<times> parse_error option \<times> Parser" where
  "expectType tts p =
     (case nextToken p of
        Inl e \<Rightarrow> (emptyToken, Some e, p)
      | Inr (token, p') \<Rightarrow>
          if tk_Type token \<in> set tts then (token, None, p')
          else (token, Some (ParseError ''unexpected token type''), p'))"

definition peekType :: "TokenType list \<Rightarrow> Parser \<Rightarrow> Token \<times> parse_error option \<times> Parser" where
  "peekType tts p =
     (case expectType tts p of
        (t, err, p') \<Rightarrow>
          if err = Some ParseEOF then (t, err, p')
          else if err \<noteq> None then (t, None, p'\<lparr>index := index p' - 1\<rparr>)
          else (t, None, p'))"

definition expectKeyword :: "Keyword list \<Rightarrow> Parser \<Rightarrow> Token \<times> parse_error option \<times> Parser" where
  "expectKeyword kws p =
     (case expectType [lexer_TypeKeyword] p of
        (token, err, p') \<Rightarrow>
          if err \<noteq> None then (token, err, p')
          else if tk_Keyword token \<in> set kws then (token, None, p')
          else (token, Some (ParseError ''unexpected keyword''), p'))"

record opInfo =
  precedence :: nat
  rightAssoc :: bool
  kind :: ast_BinOpKind

definition opPrecedence :: "TokenType \<Rightarrow> opInfo option" where
  "opPrecedence tt =
     (case tt of
        lexer_TypePlus \<Rightarrow> Some \<lparr>precedence = 10, rightAssoc = False, kind = ast_BinOpAdd\<rparr>
      | lexer_TypeMinus \<Rightarrow> Some \<lparr>precedence = 10, rightAssoc = False, kind = ast_BinOpSub\<rparr>
      | lexer_TypeStar \<Rightarrow> Some \<lparr>precedence = 20, rightAssoc = False, kind = ast_BinOpMul\<rparr>
      | lexer_TypeSlash \<Rightarrow> Some \<lparr>precedence = 20, rightAssoc = False, kind = ast_BinOpDiv\<rparr>
      | lexer_TypeShl \<Rightarrow> Some \<lparr>precedence = 15, rightAssoc = False, kind = ast_BinOpShl\<rparr>
      | lexer_TypeShr \<Rightarrow> Some \<lparr>precedence = 15, rightAssoc = False, kind = ast_BinOpShr\<rparr>
      | lexer_TypeBinAnd \<Rightarrow> Some \<lparr>precedence = 8, rightAssoc = False, kind = ast_BinOpAnd\<rparr>
      | lexer_TypeBinOr \<Rightarrow> Some \<lparr>precedence = 6, rightAssoc = False, kind = ast_BinOpOr\<rparr>
      | lexer_TypeLogAnd \<Rightarrow> Some \<lparr>precedence = 4, rightAssoc = False, kind = ast_BinOpLogAnd\<rparr>
      | lexer_TypeLogOr \<Rightarrow> Some \<lparr>precedence = 3, rightAssoc = False, kind = ast_BinOpLogOr\<rparr>
      | lexer_TypeEq \<Rightarrow> Some \<lparr>precedence = 5, rightAssoc = False, kind = ast_BinOpEq\<rparr>
      | lexer_TypeNe \<Rightarrow> Some \<lparr>precedence = 5, rightAssoc = False, kind = ast_BinOpNe\<rparr>
      | lexer_TypeLt \<Rightarrow> Some \<lparr>precedence = 7, rightAssoc = False, kind = ast_BinOpLt\<rparr>
      | lexer_TypeLe \<Rightarrow> Some \<lparr>precedence = 7, rightAssoc = False, kind = ast_BinOpLe\<rparr>
      | lexer_TypeGt \<Rightarrow> Some \<lparr>precedence = 7, rightAssoc = False, kind = ast_BinOpGt\<rparr>
      | lexer_TypeGe \<Rightarrow> Some \<lparr>precedence = 7, rightAssoc = False, kind = ast_BinOpGe\<rparr>
      | _ \<Rightarrow> None)"

text \<open>The keys of the map \<^verbatim>\<open>opPrecedence\<close>, which \<^verbatim>\<open>parseExpressionPratt\<close> collects first.\<close>

definition binops :: "TokenType list" where
  "binops =
     [lexer_TypePlus, lexer_TypeMinus, lexer_TypeStar, lexer_TypeSlash, lexer_TypeShl,
      lexer_TypeShr, lexer_TypeBinAnd, lexer_TypeBinOr, lexer_TypeLogAnd, lexer_TypeLogOr,
      lexer_TypeEq, lexer_TypeNe, lexer_TypeLt, lexer_TypeLe, lexer_TypeGt, lexer_TypeGe]"

definition starters :: "TokenType list" where
  "starters =
     [lexer_TypeNumber, lexer_TypeBool, lexer_TypeString, lexer_TypeIdent, lexer_TypeLparen,
      lexer_TypeKeyword]"

text \<open>
  The idiom \<^verbatim>\<open>x, err := p.expectType(...); if err != nil { return nil, err }\<close>, and the
  same with \<^verbatim>\<open>peekType\<close>.
\<close>

definition expectOrFail :: "TokenType list \<Rightarrow> Parser \<Rightarrow> parse_error + (Token \<times> Parser)" where
  "expectOrFail tts p =
     (case expectType tts p of (t, err, p') \<Rightarrow>
        (case err of Some e \<Rightarrow> Inl e | None \<Rightarrow> Inr (t, p')))"

definition peekOrFail :: "TokenType list \<Rightarrow> Parser \<Rightarrow> parse_error + (Token \<times> Parser)" where
  "peekOrFail tts p =
     (case peekType tts p of (t, err, p') \<Rightarrow>
        (case err of Some e \<Rightarrow> Inl e | None \<Rightarrow> Inr (t, p')))"

text \<open>
  \<open>prattLoop\<close> is the \<^verbatim>\<open>for\<close> loop of \<^verbatim>\<open>parseExpressionPratt\<close>, \<open>parseCallLoop\<close> the one
  of \<^verbatim>\<open>parseCall\<close>. An expression result of \<open>None\<close> is the \<^verbatim>\<open>nil, nil\<close> of an optional
  expression that is absent; a call with \<^verbatim>\<open>optional = false\<close> never returns it, so the
  branches for it after such a call are never taken.
\<close>

fun parseExpressionPratt ::
    "nat \<Rightarrow> bool \<Rightarrow> nat \<Rightarrow> Parser \<Rightarrow> parse_error + (Expression option \<times> Parser)"
  and prattLoop ::
    "nat \<Rightarrow> nat \<Rightarrow> Expression \<Rightarrow> Parser \<Rightarrow> parse_error + (Expression option \<times> Parser)"
  and parsePrimary ::
    "nat \<Rightarrow> bool \<Rightarrow> Parser \<Rightarrow> parse_error + (Expression option \<times> Parser)"
  and parseCall :: "nat \<Rightarrow> Token \<Rightarrow> Parser \<Rightarrow> parse_error + (CallNode \<times> Parser)"
  and parseCallLoop ::
    "nat \<Rightarrow> Token \<Rightarrow> (Expression \<times> Type option) list \<Rightarrow> Parser
     \<Rightarrow> parse_error + (CallNode \<times> Parser)" where
  "parseExpressionPratt 0 optional minPrec p = Inl OutOfFuel"
| "parseExpressionPratt (Suc n) optional minPrec p =
     (case parsePrimary n optional p of
        Inl e \<Rightarrow> Inl e
      | Inr (None, p1) \<Rightarrow> Inr (None, p1)
      | Inr (Some lhs, p1) \<Rightarrow> prattLoop n minPrec lhs p1)"
| "prattLoop 0 minPrec lhs p = Inl OutOfFuel"
| "prattLoop (Suc n) minPrec lhs p =
     (case peekType binops p of
        (peek, err, p1) \<Rightarrow>
          if err \<noteq> None \<or> tk_Type peek \<notin> set binops then Inr (Some lhs, p1)
          else
            (case opPrecedence (tk_Type peek) of
               None \<Rightarrow> Inr (Some lhs, p1)
             | Some info \<Rightarrow>
                 if precedence info < minPrec then Inr (Some lhs, p1\<lparr>index := index p1 - 1\<rparr>)
                 else
                   let nextMinPrec =
                         (if \<not> rightAssoc info then precedence info + 1 else precedence info)
                   in (case parseExpressionPratt n False nextMinPrec p1 of
                         Inl e \<Rightarrow> Inl e
                       | Inr (None, p2) \<Rightarrow> Inl (ParsePanic ''nil right operand'')
                       | Inr (Some rhs, p2) \<Rightarrow>
                           prattLoop n minPrec (ast_NewBinop (kind info) lhs rhs) p2)))"
| "parsePrimary 0 optional p = Inl OutOfFuel"
| "parsePrimary (Suc n) optional p =
     (case peekOrFail starters p of
        Inl e \<Rightarrow> Inl e
      | Inr (start, p1) \<Rightarrow>
          if tk_Type start \<notin> set starters then
            (if optional then Inr (None, p1)
             else Inl (ParseError ''expected start of expression''))
          else if tk_Type start = lexer_TypeKeyword then
            (if tk_Keyword start = KeywordTrue then Inr (Some (NewBoolLiteral True), p1)
             else if tk_Keyword start = KeywordFalse then Inr (Some (NewBoolLiteral False), p1)
             else Inl (ParseError ''unexpected keyword''))
          else if tk_Type start = lexer_TypeNumber then
            Inr (Some (NewIntLiteral (tk_NumberVal start)), p1)
          else if tk_Type start = lexer_TypeBool then
            (if tk_Keyword start = KeywordTrue then Inr (Some (NewBoolLiteral True), p1)
             else if tk_Keyword start = KeywordFalse then Inr (Some (NewBoolLiteral False), p1)
             else Inl (ParsePanic ''unexpected boolean keyword''))
          else if tk_Type start = lexer_TypeString then
            Inr (Some (NewStringLiteral (tk_StringVal start)), p1)
          else if tk_Type start = lexer_TypeIdent then
            (case peekType [lexer_TypeLparen, lexer_TypeCaret] p1 of
               (next, err2, p2) \<Rightarrow>
                 if err2 \<noteq> None \<and> err2 \<noteq> Some ParseEOF then Inl (the err2)
                 else if tk_Type next = lexer_TypeLparen then
                   (case parseCall n start p2 of
                      Inl e \<Rightarrow> Inl e
                    | Inr (c, p3) \<Rightarrow> Inr (Some (CallExpr c), p3))
                 else if tk_Type next = lexer_TypeCaret then
                   Inr (Some (NewDeref (NewVariableRef (tk_StringVal start) TypeUnknown)), p2)
                 else Inr (Some (NewVariableRef (tk_StringVal start) TypeUnknown), p2))
          else
            (case parseExpressionPratt n False 0 p1 of
               Inl e \<Rightarrow> Inl e
             | Inr (None, p2) \<Rightarrow> Inl (ParsePanic ''nil expression'')
             | Inr (Some expr, p2) \<Rightarrow>
                 (case expectOrFail [lexer_TypeRparen] p2 of
                    Inl e \<Rightarrow> Inl e
                  | Inr (t, p3) \<Rightarrow>
                      (case peekType [lexer_TypeCaret] p3 of
                         (next, err3, p4) \<Rightarrow>
                           if err3 = None \<and> tk_Type next = lexer_TypeCaret
                           then Inr (Some (NewDeref expr), p4)
                           else Inr (Some expr, p4)))))"
| "parseCall 0 first p = Inl OutOfFuel"
| "parseCall (Suc n) first p = parseCallLoop n first [] p"
| "parseCallLoop 0 first args p = Inl OutOfFuel"
| "parseCallLoop (Suc n) first args p =
     (case parseExpressionPratt n True 0 p of
        Inl e \<Rightarrow> Inl e
      | Inr (Some expr, p1) \<Rightarrow>
          (case expectOrFail [lexer_TypeRparen, lexer_TypeComma] p1 of
             Inl e \<Rightarrow> Inl e
           | Inr (next, p2) \<Rightarrow>
               if tk_Type next \<noteq> lexer_TypeRparen
               then parseCallLoop n first (args @ [(expr, None)]) p2
               else Inr (ast_NewCall (tk_StringVal first) (args @ [(expr, None)]), p2))
      | Inr (None, p1) \<Rightarrow>
          (case expectOrFail [lexer_TypeRparen] p1 of
             Inl e \<Rightarrow> Inl e
           | Inr (next, p2) \<Rightarrow>
               if tk_Type next \<noteq> lexer_TypeRparen then parseCallLoop n first args p2
               else Inr (ast_NewCall (tk_StringVal first) args, p2)))"

declare parseExpressionPratt.simps [simp del] prattLoop.simps [simp del]
  parsePrimary.simps [simp del] parseCall.simps [simp del] parseCallLoop.simps [simp del]

definition parseExpression ::
    "nat \<Rightarrow> bool \<Rightarrow> Parser \<Rightarrow> parse_error + (Expression option \<times> Parser)" where
  "parseExpression n optional p = parseExpressionPratt n optional 0 p"

text \<open>An expression that is not optional: the result is never \<^verbatim>\<open>nil\<close> without an error.\<close>

definition parseExpr :: "nat \<Rightarrow> Parser \<Rightarrow> parse_error + (Expression \<times> Parser)" where
  "parseExpr n p =
     (case parseExpression n False p of
        Inl e \<Rightarrow> Inl e
      | Inr (None, p1) \<Rightarrow> Inl (ParsePanic ''nil expression'')
      | Inr (Some expr, p1) \<Rightarrow> Inr (expr, p1))"

text \<open>\<^verbatim>\<open>parseType\<close>: the loop that counts leading carets, then the keyword.\<close>

function parseTypeCarets :: "nat \<Rightarrow> Parser \<Rightarrow> nat \<times> Parser" where
  "parseTypeCarets pointerDepth p =
     (case peekType [lexer_TypeCaret] p of
        (t, err, p1) \<Rightarrow>
          if err \<noteq> None then (pointerDepth, p1)
          else if tk_Type t = lexer_TypeCaret then parseTypeCarets (pointerDepth + 1) p1
          else (pointerDepth, p1))"
  by pat_completeness auto
termination
  by (relation "measure (\<lambda>(d, p). length (tok p) - index p)")
     (auto simp: peekType_def expectType_def nextToken_def split: if_splits)

declare parseTypeCarets.simps [simp del]

definition parseType :: "Parser \<Rightarrow> parse_error + (Type \<times> Parser)" where
  "parseType p =
     (case parseTypeCarets 0 p of
        (pointerDepth, p1) \<Rightarrow>
          (case expectOrFail [lexer_TypeKeyword] p1 of
             Inl e \<Rightarrow> Inl e
           | Inr (t, p2) \<Rightarrow>
               (case (if tk_Keyword t = KeywordInt then Some (Type TypeInt None)
                      else if tk_Keyword t = KeywordString then Some (Type TypeString None)
                      else if tk_Keyword t = KeywordBool then Some (Type TypeBool None)
                      else if tk_Keyword t = KeywordVoid then Some (Type TypeVoid None)
                      else None) of
                  None \<Rightarrow> Inl (ParseError ''unexpected type keyword'')
                | Some base \<Rightarrow>
                    Inr (((\<lambda>b. Type TypePointer (Some b)) ^^ pointerDepth) base, p2))))"

text \<open>\<^verbatim>\<open>parseAttributes\<close>: the loop over the entries between the parentheses.\<close>

fun parseAttributesLoop :: "nat \<Rightarrow> Parser \<Rightarrow> parse_error + Parser" where
  "parseAttributesLoop 0 p = Inl OutOfFuel"
| "parseAttributesLoop (Suc n) p =
     (case expectOrFail [lexer_TypeRparen, lexer_TypeIdent] p of
        Inl e \<Rightarrow> Inl e
      | Inr (t, p1) \<Rightarrow>
          if tk_Type t = lexer_TypeRparen then Inr p1
          else
            (case ParseAttrKey (tk_StringVal t) of
               None \<Rightarrow> Inl (ParseError ''unknown attribute'')
             | Some validKey \<Rightarrow>
                 (case expectOrFail [lexer_TypeAssign, lexer_TypeComma, lexer_TypeRparen] p1 of
                    Inl e \<Rightarrow> Inl e
                  | Inr (next, p2) \<Rightarrow>
                      (case (if tk_Type next = lexer_TypeAssign then
                               (case expectOrFail [lexer_TypeString, lexer_TypeNumber] p2 of
                                  Inl e \<Rightarrow> Inl e
                                | Inr (valTok, p3) \<Rightarrow>
                                    (case expectOrFail [lexer_TypeComma, lexer_TypeRparen] p3 of
                                       Inl e \<Rightarrow> Inl e
                                     | Inr (next', p4) \<Rightarrow>
                                         Inr (if tk_Type valTok = lexer_TypeString
                                              then AttrString (tk_StringVal valTok)
                                              else AttrInt (tk_NumberVal valTok), next', p4)))
                             else Inr (AttrNone, next, p2)) of
                         Inl e \<Rightarrow> Inl e
                       | Inr (value, next'', p5) \<Rightarrow>
                           let p6 = p5\<lparr>attributes := (attributes p5)(validKey \<mapsto> value)\<rparr>
                           in if tk_Type next'' = lexer_TypeRparen then Inr p6
                              else parseAttributesLoop n p6))))"

definition parseAttributes :: "nat \<Rightarrow> Token \<Rightarrow> Parser \<Rightarrow> parse_error + Parser" where
  "parseAttributes n start p =
     (case expectOrFail [lexer_TypeLparen] p of
        Inl e \<Rightarrow> Inl e
      | Inr (t, p1) \<Rightarrow> parseAttributesLoop n p1)"

definition parseAssign :: "nat \<Rightarrow> Expression \<Rightarrow> Parser \<Rightarrow> parse_error + (Instruction list \<times> Parser)" where
  "parseAssign n lhs p =
     (case parseExpr n p of
        Inl e \<Rightarrow> Inl e
      | Inr (expr, p1) \<Rightarrow> Inr ([Assign lhs expr], p1))"

definition parseDeclare :: "nat \<Rightarrow> Token \<Rightarrow> Parser \<Rightarrow> parse_error + (Instruction list \<times> Parser)" where
  "parseDeclare n ident p =
     (case peekOrFail [lexer_TypeAssign, lexer_TypeKeyword, lexer_TypeCaret] p of
        Inl e \<Rightarrow> Inl e
      | Inr (next, p1) \<Rightarrow>
          (case (if tk_Type next \<noteq> lexer_TypeAssign then
                   (case parseType (p1\<lparr>index := index p1 - 1\<rparr>) of
                      Inl e \<Rightarrow> Inl e
                    | Inr (ty, p2) \<Rightarrow>
                        (case peekOrFail [lexer_TypeAssign] p2 of
                           Inl e \<Rightarrow> Inl e
                         | Inr (next', p3) \<Rightarrow> Inr (ty, next', p3)))
                 else Inr (Type TypeUnknown None, next, p1)) of
             Inl e \<Rightarrow> Inl e
           | Inr (declaredType, next'', p4) \<Rightarrow>
               let instructions = [Declare (tk_StringVal ident) (Some declaredType)]
               in if tk_Type next'' = lexer_TypeAssign then
                    (case parseAssign n (NewVariableRef (tk_StringVal ident) (Kind declaredType)) p4 of
                       Inl e \<Rightarrow> Inl e
                     | Inr (instr, p5) \<Rightarrow> Inr (instructions @ instr, p5))
                  else Inr (instructions, p4)))"

text \<open>
  \<^verbatim>\<open>parseLValue\<close>. Its caller goes on after a failure, with the parser where the failure
  left it, so a failure carries the parser state.
\<close>

definition parseLValue ::
    "nat \<Rightarrow> Parser \<Rightarrow> (parse_error \<times> Parser) + (Expression \<times> Parser)" where
  "parseLValue n p =
     (case nextToken p of
        Inl e \<Rightarrow> Inl (e, p)
      | Inr (first, p1) \<Rightarrow>
          if tk_Type first = lexer_TypeIdent then
            (case peekType [lexer_TypeCaret] p1 of
               (next, err, p2) \<Rightarrow>
                 if err = None \<and> tk_Type next = lexer_TypeCaret
                 then Inr (NewDeref (NewVariableRef (tk_StringVal first) TypeUnknown), p2)
                 else Inr (NewVariableRef (tk_StringVal first) TypeUnknown, p2))
          else if tk_Type first = lexer_TypeLparen then
            (case parseExpressionPratt n False 0 p1 of
               Inl e \<Rightarrow> Inl (e, p1)
             | Inr (None, p2) \<Rightarrow> Inl (ParsePanic ''nil expression'', p2)
             | Inr (Some expr, p2) \<Rightarrow>
                 (case expectType [lexer_TypeRparen] p2 of
                    (t, err, p3) \<Rightarrow>
                      (case err of
                         Some e \<Rightarrow> Inl (e, p3)
                       | None \<Rightarrow>
                           (case peekType [lexer_TypeCaret] p3 of
                              (next, err2, p4) \<Rightarrow>
                                if err2 = None \<and> tk_Type next = lexer_TypeCaret
                                then Inr (NewDeref expr, p4)
                                else Inl (ParseError ''invalid lvalue'', p4)))))
          else Inl (ParseError ''invalid lvalue start'', p1))"

text \<open>
  The case \<^verbatim>\<open>lexer.TypeIdent, lexer.TypeLparen\<close> of the loop of \<^verbatim>\<open>parseBlock\<close>: a
  declaration, an assignment or a call statement; each path that does not fail ends in
  \<^verbatim>\<open>instructions = append(instructions, ...); continue\<close>, and the result here is what is
  appended.
\<close>

definition parseSimpleStatement ::
    "nat \<Rightarrow> Token \<Rightarrow> Parser \<Rightarrow> parse_error + (Instruction list \<times> Parser)" where
  "parseSimpleStatement n first p =
     (case (if tk_Type first = lexer_TypeIdent
            then (case peekType [lexer_TypeColon] p of
                    (next, err, p1) \<Rightarrow> (err = None \<and> tk_Type next = lexer_TypeColon, p1))
            else (False, p)) of
        (isDecl, p1) \<Rightarrow>
          if isDecl then parseDeclare n first p1
          else
            (case (case parseLValue n (p1\<lparr>index := index p1 - 1\<rparr>) of
                     Inl (e, p2) \<Rightarrow> if e = OutOfFuel then Inl OutOfFuel else Inr (None, p2)
                   | Inr (lvalueExpr, p2) \<Rightarrow>
                       (case peekType [lexer_TypeAssign] p2 of
                          (next, err, p3) \<Rightarrow>
                            if err = None \<and> tk_Type next = lexer_TypeAssign
                            then Inr (Some lvalueExpr, p3)
                            else Inr (None, p3))) of
               Inl e \<Rightarrow> Inl e
             | Inr (Some lvalueExpr, p3) \<Rightarrow> parseAssign n lvalueExpr p3
             | Inr (None, p3) \<Rightarrow>
                 if tk_Type first = lexer_TypeIdent then
                   (case peekType [lexer_TypeLparen] p3 of
                      (next, err, p4) \<Rightarrow>
                        if err = None \<and> tk_Type next = lexer_TypeLparen then
                          (case parseCall n first p4 of
                             Inl e \<Rightarrow> Inl e
                           | Inr (c, p5) \<Rightarrow> Inr ([CallInstr c], p5))
                        else Inl (ParseError ''unexpected statement''))
                 else Inl (ParseError ''unexpected statement'')))"

text \<open>
  The optional initializer of \<^verbatim>\<open>parseIf\<close> and of \<^verbatim>\<open>parseFor\<close>; \<open>back\<close> is the index
  the parser returns to when there is none (\<^verbatim>\<open>p.index--\<close> in \<^verbatim>\<open>parseIf\<close>, the saved
  index in \<^verbatim>\<open>parseFor\<close>).
\<close>

definition parseInit ::
    "nat \<Rightarrow> (Parser \<Rightarrow> nat) \<Rightarrow> Parser \<Rightarrow> parse_error + (Instruction list \<times> Parser)" where
  "parseInit n back p =
     (case expectType [lexer_TypeIdent] p of
        (next, err, p1) \<Rightarrow>
          if err = None then
            (case peekType [lexer_TypeColon, lexer_TypeAssign] p1 of
               (t, err2, p2) \<Rightarrow>
                 if err2 \<noteq> None then Inr ([], p2\<lparr>index := back p2\<rparr>)
                 else if tk_Type t = lexer_TypeColon then
                   (case parseDeclare n next p2 of
                      Inl e \<Rightarrow> Inl e
                    | Inr (initInstrs, p3) \<Rightarrow>
                        (case expectOrFail [lexer_TypeSemicolon] p3 of
                           Inl e \<Rightarrow> Inl e
                         | Inr (s, p4) \<Rightarrow> Inr (initInstrs, p4)))
                 else if tk_Type t = lexer_TypeAssign then
                   (case parseAssign n (NewVariableRef (tk_StringVal next) TypeUnknown) p2 of
                      Inl e \<Rightarrow> Inl e
                    | Inr (initInstrs, p3) \<Rightarrow>
                        (case expectOrFail [lexer_TypeSemicolon] p3 of
                           Inl e \<Rightarrow> Inl e
                         | Inr (s, p4) \<Rightarrow> Inr (initInstrs, p4)))
                 else Inr ([], p2\<lparr>index := back p2\<rparr>))
          else Inr ([], p1\<lparr>index := back p1\<rparr>))"

text \<open>The optional post statement of \<^verbatim>\<open>parseFor\<close>, after the condition.\<close>

definition parseForPost :: "nat \<Rightarrow> Parser \<Rightarrow> parse_error + (Instruction list \<times> Parser)" where
  "parseForPost n p =
     (case peekOrFail [lexer_TypeSemicolon] p of
        Inl e \<Rightarrow> Inl e
      | Inr (semi, p1) \<Rightarrow>
          if tk_Type semi = lexer_TypeSemicolon then
            (case expectOrFail [lexer_TypeIdent] p1 of
               Inl e \<Rightarrow> Inl e
             | Inr (start, p2) \<Rightarrow>
                 (case peekOrFail [lexer_TypeColon, lexer_TypeAssign] p2 of
                    Inl e \<Rightarrow> Inl e
                  | Inr (next, p3) \<Rightarrow>
                      if tk_Type next = lexer_TypeColon then parseDeclare n start p3
                      else if tk_Type next = lexer_TypeAssign then
                        parseAssign n (NewVariableRef (tk_StringVal start) TypeUnknown) p3
                      else Inr ([], p3\<lparr>index := index p3 - 1\<rparr>)))
          else Inr ([], p1))"

fun parseBlock :: "nat \<Rightarrow> Token \<Rightarrow> Parser \<Rightarrow> parse_error + (Instruction list \<times> Parser)"
  and parseBlockLoop ::
    "nat \<Rightarrow> Instruction list \<Rightarrow> Parser \<Rightarrow> parse_error + (Instruction list \<times> Parser)"
  and parseIf :: "nat \<Rightarrow> Parser \<Rightarrow> parse_error + (Instruction \<times> Parser)"
  and parseFor :: "nat \<Rightarrow> Parser \<Rightarrow> parse_error + (Instruction \<times> Parser)" where
  "parseBlock 0 start p = Inl OutOfFuel"
| "parseBlock (Suc n) start p =
     (if tk_Type start \<noteq> lexer_TypeLbrace then Inl (ParseError ''expected {'')
      else parseBlockLoop n [] p)"
| "parseBlockLoop 0 instructions p = Inl OutOfFuel"
| "parseBlockLoop (Suc n) instructions p =
     (case nextToken p of
        Inl e \<Rightarrow> Inl e
      | Inr (first, p1) \<Rightarrow>
          if tk_Type first = lexer_TypeRbrace then Inr (instructions, p1\<lparr>index := index p1 - 1\<rparr>)
          else if tk_Type first = lexer_TypeKeyword then
            (if tk_Keyword first = KeywordReturn then
               (if currentRetType p1 = KeywordVoid
                then parseBlockLoop n (instructions @ [Return None]) p1
                else (case parseExpr n p1 of
                        Inl e \<Rightarrow> Inl e
                      | Inr (expr, p2) \<Rightarrow>
                          parseBlockLoop n (instructions @ [Return (Some expr)]) p2))
             else if tk_Keyword first = KeywordIf then
               (case parseIf n p1 of
                  Inl e \<Rightarrow> Inl e
                | Inr (inst, p2) \<Rightarrow> parseBlockLoop n (instructions @ [inst]) p2)
             else if tk_Keyword first = KeywordFor then
               (case parseFor n p1 of
                  Inl e \<Rightarrow> Inl e
                | Inr (inst, p2) \<Rightarrow> parseBlockLoop n (instructions @ [inst]) p2)
             else parseBlockLoop n instructions p1)
          else if tk_Type first = lexer_TypeIdent \<or> tk_Type first = lexer_TypeLparen then
            (case parseSimpleStatement n first p1 of
               Inl e \<Rightarrow> Inl e
             | Inr (instr, p2) \<Rightarrow> parseBlockLoop n (instructions @ instr) p2)
          else parseBlockLoop n instructions p1)"
| "parseIf 0 p = Inl OutOfFuel"
| "parseIf (Suc n) p =
     (case parseInit n (\<lambda>q. index q - 1) p of
        Inl e \<Rightarrow> Inl e
      | Inr (initInstrs, p1) \<Rightarrow>
      (case parseExpr n p1 of
        Inl e \<Rightarrow> Inl e
      | Inr (cond, p2) \<Rightarrow>
      (case expectOrFail [lexer_TypeLbrace] p2 of
        Inl e \<Rightarrow> Inl e
      | Inr (lbrace, p3) \<Rightarrow>
      (case parseBlock n lbrace p3 of
        Inl e \<Rightarrow> Inl e
      | Inr (thenInstrs, p4) \<Rightarrow>
      (case expectOrFail [lexer_TypeRbrace] p4 of
        Inl e \<Rightarrow> Inl e
      | Inr (rb, p5) \<Rightarrow>
      (case peekOrFail [lexer_TypeKeyword] p5 of
        Inl e \<Rightarrow> Inl e
      | Inr (nextElse, p6) \<Rightarrow>
          if tk_Type nextElse \<noteq> lexer_TypeKeyword then
            Inr (If initInstrs cond thenInstrs None, p6)
          else if tk_Keyword nextElse \<noteq> KeywordElse then
            Inr (If initInstrs cond thenInstrs None, p6\<lparr>index := index p6 - 1\<rparr>)
          else
            (case peekOrFail [lexer_TypeKeyword, lexer_TypeLbrace] p6 of
               Inl e \<Rightarrow> Inl e
             | Inr (afterElse, p7) \<Rightarrow>
                 if tk_Type afterElse = lexer_TypeKeyword \<and> tk_Keyword afterElse = KeywordIf then
                   (case parseIf n p7 of
                      Inl e \<Rightarrow> Inl e
                    | Inr (elseInstr, p8) \<Rightarrow>
                        Inr (If initInstrs cond thenInstrs (Some elseInstr), p8))
                 else if tk_Type afterElse = lexer_TypeLbrace then
                   (case parseBlock n lbrace p7 of
                      Inl e \<Rightarrow> Inl e
                    | Inr (elseInstrs, p8) \<Rightarrow>
                        (case expectOrFail [lexer_TypeRbrace] p8 of
                           Inl e \<Rightarrow> Inl e
                         | Inr (rb2, p9) \<Rightarrow>
                             Inr (If initInstrs cond thenInstrs (Some (Body elseInstrs)), p9)))
                 else Inl (ParseError ''expected if or { after else''))))))))"
| "parseFor 0 p = Inl OutOfFuel"
| "parseFor (Suc n) p =
     (case parseInit n (\<lambda>q. index p) p of
        Inl e \<Rightarrow> Inl e
      | Inr (initInstrs, p1) \<Rightarrow>
      (case parseExpr n p1 of
        Inl e \<Rightarrow> Inl e
      | Inr (cond, p2) \<Rightarrow>
      (case parseForPost n p2 of
        Inl e \<Rightarrow> Inl e
      | Inr (postInstrs, p3) \<Rightarrow>
      (case expectOrFail [lexer_TypeLbrace] p3 of
        Inl e \<Rightarrow> Inl e
      | Inr (lbrace, p4) \<Rightarrow>
      (case parseBlock n lbrace p4 of
        Inl e \<Rightarrow> Inl e
      | Inr (bodyInstrs, p5) \<Rightarrow>
      (case expectOrFail [lexer_TypeRbrace] p5 of
        Inl e \<Rightarrow> Inl e
      | Inr (rb, p6) \<Rightarrow> Inr (For initInstrs cond postInstrs bodyInstrs, p6)))))))"

declare parseBlock.simps [simp del] parseBlockLoop.simps [simp del] parseIf.simps [simp del]
  parseFor.simps [simp del]

text \<open>
  Modelled from the spec: \<^verbatim>\<open>ast.NewFuncDef\<close> builds a function definition with the given
  name and attributes, and nothing else. The source passes the parser's attribute map and
  clears it afterwards; the definition here keeps the attributes collected before the
  clearing, as the specification describes them on the function.
\<close>

definition ast_NewFuncDef :: "string \<Rightarrow> (AttrKey \<rightharpoonup> AttrValue) \<Rightarrow> FuncDef" where
  "ast_NewFuncDef ident attrs =
     \<lparr>fd_Ident = ident, fd_Attributes = attrs, fd_Params = [], fd_ReturnType = None,
      fd_Body = None\<rparr>"

definition parseFuncParam :: "nat \<Rightarrow> Parser \<Rightarrow> parse_error + (FuncParam option \<times> Parser)" where
  "parseFuncParam n p =
     (case expectOrFail [lexer_TypeRparen, lexer_TypeAt, lexer_TypeIdent] p of
        Inl e \<Rightarrow> Inl e
      | Inr (nextTok, p1) \<Rightarrow>
          if tk_Type nextTok = lexer_TypeRparen then Inr (None, p1)
          else
            (case (if tk_Type nextTok = lexer_TypeAt then
                     (case parseAttributes n nextTok p1 of
                        Inl e \<Rightarrow> Inl e
                      | Inr p2 \<Rightarrow>
                          (case expectOrFail [lexer_TypeIdent] (p2\<lparr>attributes := Map.empty\<rparr>) of
                             Inl e \<Rightarrow> Inl e
                           | Inr (nextTok', p3) \<Rightarrow> Inr (attributes p2, nextTok', p3)))
                   else Inr (Map.empty, nextTok, p1)) of
               Inl e \<Rightarrow> Inl e
             | Inr (attrs, ident, p3) \<Rightarrow>
             (case expectOrFail [lexer_TypeColon] p3 of
               Inl e \<Rightarrow> Inl e
             | Inr (c, p4) \<Rightarrow>
             (case peekOrFail [lexer_TypeAssign] p4 of
               Inl e \<Rightarrow> Inl e
             | Inr (equal, p5) \<Rightarrow>
             (case (if tk_Type equal \<noteq> lexer_TypeAssign then
                      (case parseType p5 of
                         Inl e \<Rightarrow> Inl e
                       | Inr (ty, p6) \<Rightarrow>
                           (case peekOrFail [lexer_TypeAssign] p6 of
                              Inl e \<Rightarrow> Inl e
                            | Inr (equal', p7) \<Rightarrow> Inr (ty, equal', p7)))
                    else Inr (Type TypeUnknown None, equal, p5)) of
               Inl e \<Rightarrow> Inl e
             | Inr (paramType, equal'', p7) \<Rightarrow>
             (case (if tk_Type equal'' = lexer_TypeAssign then
                      (case parseExpr n p7 of
                         Inl e \<Rightarrow> Inl e
                       | Inr (v, p8) \<Rightarrow> Inr (Some v, p8))
                    else Inr (None, p7)) of
               Inl e \<Rightarrow> Inl e
             | Inr (value, p8) \<Rightarrow>
                 Inr (Some \<lparr>fp_Ident = tk_StringVal ident, fp_Type = Some paramType,
                            fp_Attributes = attrs, fp_Value = value\<rparr>, p8)))))))"

definition parseFuncReturnType :: "Parser \<Rightarrow> parse_error + (Type \<times> Parser)" where
  "parseFuncReturnType p =
     (case peekOrFail [lexer_TypeArrow] p of
        Inl e \<Rightarrow> Inl e
      | Inr (arrow, p1) \<Rightarrow>
          if tk_Type arrow = lexer_TypeArrow then parseType p1
          else Inr (Type TypeVoid None, p1))"

text \<open>The loop of \<^verbatim>\<open>parseFunc\<close> that collects the parameters.\<close>

fun parseFuncParams ::
    "nat \<Rightarrow> FuncParam list \<Rightarrow> Parser \<Rightarrow> parse_error + (FuncParam list \<times> Parser)" where
  "parseFuncParams 0 params p = Inl OutOfFuel"
| "parseFuncParams (Suc n) params p =
     (case parseFuncParam n p of
        Inl e \<Rightarrow> Inl e
      | Inr (None, p1) \<Rightarrow> Inr (params, p1)
      | Inr (Some param, p1) \<Rightarrow>
          (case expectOrFail [lexer_TypeComma, lexer_TypeRparen] p1 of
             Inl e \<Rightarrow> Inl e
           | Inr (t, p2) \<Rightarrow>
               if tk_Type t = lexer_TypeRparen then Inr (params @ [param], p2)
               else parseFuncParams n (params @ [param]) p2))"

text \<open>
  The first part of \<^verbatim>\<open>parseFunc\<close>, up to \<^verbatim>\<open>def.ReturnType = retType\<close>: the parameter
  list and the return type.
\<close>

definition parseFuncSignature :: "nat \<Rightarrow> Token \<Rightarrow> Parser \<Rightarrow> parse_error + (FuncDef \<times> Type \<times> Parser)" where
  "parseFuncSignature n name p =
     (case expectOrFail [lexer_TypeLparen] p of
        Inl e \<Rightarrow> Inl e
      | Inr (t, p1) \<Rightarrow>
          let def = ast_NewFuncDef (tk_StringVal name) (attributes p1);
              p2 = p1\<lparr>attributes := Map.empty\<rparr>
          in (case parseFuncParams n [] p2 of
                Inl e \<Rightarrow> Inl e
              | Inr (params, p3) \<Rightarrow>
                  (case parseFuncReturnType p3 of
                     Inl e \<Rightarrow> if e = ParseEOF then Inl ParseEOF
                              else Inl (ParseError ''error parsing return type'')
                   | Inr (retType, p4) \<Rightarrow>
                       let p5 = p4\<lparr>currentRetType :=
                                  (if Kind retType = TypeVoid then KeywordVoid
                                   else if Kind retType = TypeInt then KeywordInt
                                   else if Kind retType = TypeString then KeywordString
                                   else KeywordVoid)\<rparr>
                       in Inr (def\<lparr>fd_Params := params, fd_ReturnType := Some retType\<rparr>,
                               retType, p5))))"

text \<open>
  The implicit return of \<^verbatim>\<open>parseFunc\<close>: the statements from \<^verbatim>\<open>addRet := false\<close> to the end
  of the \<^verbatim>\<open>switch retType.Kind\<close>.
\<close>

fun isReturn :: "Instruction \<Rightarrow> bool" where
  "isReturn (Return e) = True"
| "isReturn i = False"

definition addImplicitReturn :: "Type \<Rightarrow> Instruction list \<Rightarrow> parse_error + Instruction list" where
  "addImplicitReturn retType instructions =
     (let addRet = (if length instructions = 0 then True
                    else \<not> isReturn (instructions ! (length instructions - 1)))
      in if addRet then
           (if Kind retType = TypeVoid then Inr (instructions @ [Return None])
            else Inl (ParseError ''expected return statement''))
         else Inr instructions)"

definition parseFunc :: "nat \<Rightarrow> Token \<Rightarrow> Parser \<Rightarrow> parse_error + Parser" where
  "parseFunc n name p =
     (case parseFuncSignature n name p of
        Inl e \<Rightarrow> Inl e
      | Inr (def, retType, p5) \<Rightarrow>
          if AttrKeyExtern \<notin> dom (fd_Attributes def) then
            (case expectOrFail [lexer_TypeLbrace] p5 of
               Inl e \<Rightarrow> Inl e
             | Inr (lbrace, p6) \<Rightarrow>
             (case parseBlock n lbrace p6 of
               Inl e \<Rightarrow> Inl e
             | Inr (instructions, p7) \<Rightarrow>
             (case addImplicitReturn retType instructions of
               Inl e \<Rightarrow> Inl e
             | Inr instructions' \<Rightarrow>
             (case expectOrFail [lexer_TypeRbrace] p7 of
               Inl e \<Rightarrow> Inl e
             | Inr (rb, p8) \<Rightarrow>
                 Inr (p8\<lparr>p_unit := (p_unit p8)\<lparr>cu_Funcs :=
                        cu_Funcs (p_unit p8) @ [def\<lparr>fd_Body := Some instructions'\<rparr>]\<rparr>\<rparr>)))))
          else Inr (p5\<lparr>p_unit := (p_unit p5)\<lparr>cu_Funcs := cu_Funcs (p_unit p5) @ [def]\<rparr>\<rparr>))"

subsection \<open>Parser entry state and the precedence table of the specification\<close>

text \<open>
  Modelled from the spec: \<^verbatim>\<open>ast.NewCompilationUnit\<close> returns an empty compilation unit.
\<close>

definition ast_NewCompilationUnit :: CompilationUnit where
  "ast_NewCompilationUnit =
     \<lparr>cu_Ident = '''', cu_Attributes = Map.empty, cu_Types = [], cu_Data = [], cu_Funcs = []\<rparr>"

definition Parser_New :: "Token list \<Rightarrow> Parser" where
  "Parser_New toks =
     \<lparr>tok = toks, index = 0, p_unit = ast_NewCompilationUnit, attributes = Map.empty,
      localID = 0, currentRetType = KeywordVoid\<rparr>"

text \<open>An identifier token, as the tokenizer builds it, at location 0.\<close>

definition identToken :: "string \<Rightarrow> Token" where
  "identToken name = (simpleToken lexer_TypeIdent name 0)\<lparr>tk_Identifier := name\<rparr>"



text \<open>
  Tokens for the examples, at location 0, and the tokens that follow the name in
  \<^verbatim>\<open>f :: func() -> int { }\<close> and in \<^verbatim>\<open>f :: func() { g() }\<close>.
\<close>

definition tokenOf :: "TokenType \<Rightarrow> string \<Rightarrow> Token" where
  "tokenOf tt s = simpleToken tt s 0"

definition keywordToken :: "Keyword \<Rightarrow> string \<Rightarrow> Token" where
  "keywordToken kw s = (simpleToken lexer_TypeKeyword s 0)\<lparr>tk_Keyword := kw\<rparr>"

definition exIntFuncToks :: "Token list" where
  "exIntFuncToks =
     [tokenOf lexer_TypeLparen ''('', tokenOf lexer_TypeRparen '')'',
      tokenOf lexer_TypeArrow ''->'', keywordToken KeywordInt ''int'',
      tokenOf lexer_TypeLbrace ''{'', tokenOf lexer_TypeRbrace ''}'']"

definition exVoidFuncToks :: "Token list" where
  "exVoidFuncToks =
     [tokenOf lexer_TypeLparen ''('', tokenOf lexer_TypeRparen '')'',
      tokenOf lexer_TypeLbrace ''{'', identToken ''g'', tokenOf lexer_TypeLparen ''('',
      tokenOf lexer_TypeRparen '')'', tokenOf lexer_TypeRbrace ''}'']"

section \<open>Decimal formatting is injective\<close>

lemma lt10_cases: "d < 10 \<Longrightarrow> d \<in> {0, 1, 2, 3, 4, 5, 6, 7, 8, 9::nat}"
  by auto

lemma digit_char_props: "d < 10 \<Longrightarrow> digitVal (digit_char d) = d \<and> isNumeric (digit_char d)"
  by (drule lt10_cases) (auto simp: digit_char_def digitVal_def isNumeric_def)

lemma decVal_snoc: "decVal (s @ [c]) = 10 * decVal s + digitVal c"
  by (simp add: decVal_def)

lemma decVal_dec: "decVal (dec n) = n"
proof (induction n rule: dec.induct)
  case (1 n)
  show ?case
  proof (cases "n < 10")
    case True
    then show ?thesis using digit_char_props[of n] by (simp add: dec.simps[of n] decVal_def)
  next
    case False
    then show ?thesis using 1 digit_char_props[of "n mod 10"]
      by (simp add: dec.simps[of n] decVal_snoc)
  qed
qed

lemma dec_digits: "c \<in> set (dec n) \<Longrightarrow> isNumeric c"
proof (induction n rule: dec.induct)
  case (1 n)
  show ?case
  proof (cases "n < 10")
    case True
    then show ?thesis using 1(2) digit_char_props[of n] by (simp add: dec.simps[of n])
  next
    case False
    then show ?thesis using 1 digit_char_props[of "n mod 10"]
      by (auto simp add: dec.simps[of n])
  qed
qed

lemma foldl_zeros:
  "foldl (\<lambda>a c. 10 * a + digitVal c) a (replicate k (CHR ''0'')) = a * 10 ^ k"
  by (induction k arbitrary: a) (auto simp: digitVal_def)

lemma decVal_zeros: "decVal (replicate k (CHR ''0'') @ s) = decVal s"
  by (simp add: decVal_def foldl_zeros)

lemma decVal_pad4 [simp]: "decVal (pad4 n) = n"
  by (simp add: pad4_def decVal_zeros decVal_dec)

lemma pad4_digits: "c \<in> set (pad4 n) \<Longrightarrow> isNumeric c"
  by (auto simp: pad4_def dest: dec_digits) (simp add: isNumeric_def)

lemma takeWhile_digits:
  "\<forall>c \<in> set xs. isNumeric c \<Longrightarrow> \<not> isNumeric d \<Longrightarrow> takeWhile isNumeric (xs @ d # s) = xs"
  by (induction xs) auto

lemma takeWhile_pad4: "\<not> isNumeric c \<Longrightarrow> takeWhile isNumeric (pad4 n @ c # s) = pad4 n"
  by (rule takeWhile_digits) (auto dest: pad4_digits)

lemma labelNumber_fmtLabel [simp]: "labelNumber (fmtLabel n tag) = n"
  by (simp add: labelNumber_def fmtLabel_def takeWhile_pad4 isNumeric_def)

lemma identNumber_fmtIdent [simp]: "identNumber (fmtIdent p n) = n"
proof -
  have "takeWhile isNumeric (rev (pad4 n) @ CHR ''_'' # rev p @ ''_'') = rev (pad4 n)"
    by (rule takeWhile_digits) (auto dest: pad4_digits simp: isNumeric_def)
  then show ?thesis by (simp add: identNumber_def fmtIdent_def)
qed

lemma fmtLabel_inj: "fmtLabel n t = fmtLabel m u \<Longrightarrow> n = m"
  by (metis labelNumber_fmtLabel)

lemma fmtIdent_inj: "fmtIdent p n = fmtIdent q m \<Longrightarrow> n = m"
  by (metis identNumber_fmtIdent)

section \<open>Basic facts about the visitor\<close>

lemma nextLabel_eq [simp]:
  "nextLabel t v = (fmtLabel (Suc (labelCounter v)) t, v\<lparr>labelCounter := Suc (labelCounter v)\<rparr>)"
  by (simp add: nextLabel_def Let_def)

lemma nextIdent_eq [simp]:
  "nextIdent p v = (fmtIdent p (Suc (tmpCounter v)), v\<lparr>tmpCounter := Suc (tmpCounter v)\<rparr>)"
  by (simp add: nextIdent_def Let_def)

lemma steps_trans': "steps b c \<Longrightarrow> steps a b \<Longrightarrow> steps a c"
  by (induction rule: steps.induct) (auto intro: steps.intros)

lemma steps_trans: "steps a b \<Longrightarrow> steps b c \<Longrightarrow> steps a c"
  by (rule steps_trans')

lemma steps_silent0:
  assumes "steps w' u" "lastInstructions w' = lastInstructions w" "tmpCounter w \<le> tmpCounter w'"
    "labelCounter w \<le> labelCounter w'" "FuncDefs (unit w') = FuncDefs (unit w)"
  shows "steps w u"
  by (rule steps_trans[OF steps_silent[OF steps_refl] assms(1)]) (use assms in auto)

lemma steps_upd [simp]:
  "steps v (w\<lparr>lastVal := x\<rparr>) = steps v w"
  "steps v (w\<lparr>lastType := y\<rparr>) = steps v w"
  "steps v (w\<lparr>lastParam := z\<rparr>) = steps v w"
  "steps (v\<lparr>lastVal := x\<rparr>) w = steps v w"
  "steps (v\<lparr>lastType := y\<rparr>) w = steps v w"
  "steps (v\<lparr>lastParam := z\<rparr>) w = steps v w"
  by (auto elim: steps_silent steps_silent0)

lemma steps_unit: "steps v w \<Longrightarrow> FuncDefs u = FuncDefs (unit w) \<Longrightarrow> steps v (w\<lparr>unit := u\<rparr>)"
  by (erule steps_silent) simp_all

lemma steps_tmp: "steps v w \<Longrightarrow> tmpCounter w \<le> n \<Longrightarrow> steps v (w\<lparr>tmpCounter := n\<rparr>)"
  by (erule steps_silent) simp_all

lemma steps_lbl: "steps v w \<Longrightarrow> labelCounter w \<le> n \<Longrightarrow> steps v (w\<lparr>labelCounter := n\<rparr>)"
  by (erule steps_silent) simp_all

lemmas steps_intros = steps_refl steps_append steps_unit steps_tmp steps_lbl

lemma finishBinop_steps:
  "finishBinop op ty result left leftType right rightType v = Inr v' \<Longrightarrow> steps v v'"
  by (auto simp: finishBinop_def Let_def split: option.splits if_splits intro!: steps_intros)

lemma VisitArgs_steps:
  assumes "\<And>e t v v'. (e, t) \<in> set as \<Longrightarrow> VisitExpr e v = Inr v' \<Longrightarrow> steps v v'"
  shows "VisitArgs as args v = Inr (args', v') \<Longrightarrow> steps v v'"
  using assms
proof (induction as arbitrary: args v)
  case Nil
  then show ?case by (auto intro: steps_refl)
next
  case (Cons a as)
  from Cons.prems(1) obtain v1 where
    v1: "VisitExpr (fst a) (v\<lparr>lastVal := None\<rparr>) = Inr v1"
    and r: "VisitArgs as (args @ [NewArgRegular (mapTypeToAbiTy (snd a)) (lastVal v1)]) v1 = Inr (args', v')"
    by (auto split: sum.splits)
  have "steps v v1" using Cons.prems(2)[of "fst a" "snd a", OF _ v1] by simp
  moreover have "steps v1 v'" using Cons.IH[OF r] Cons.prems(2) by auto
  ultimately show ?case by (rule steps_trans)
qed

lemma VisitExpr_steps: "VisitExpr e v = Inr v' \<Longrightarrow> steps v v'"
proof (induction e arbitrary: v v')
  case (Literal ty i b s)
  then show ?case
    by (auto split: option.splits TypeKind.splits intro!: steps_intros)
next
  case (Binop op lhs rhs ty)
  from Binop.prems obtain v1 where v1: "VisitExpr lhs (v\<lparr>lastVal := None, lastType := None\<rparr>) = Inr v1"
    by (auto split: sum.splits)
  have s1: "steps v v1" using Binop.IH(1)[OF v1] by simp
  note IH2 = Binop.IH(2)
  show ?case using Binop.prems v1
    by (auto simp: Let_def split: sum.splits if_splits dest!: IH2 finishBinop_steps
             intro!: steps_intros elim!: steps_trans' intro: s1)
next
  case (VariableRef ident ty)
  then show ?case by (auto intro!: steps_intros)
next
  case (Deref e ty)
  then show ?case 
    by (auto simp: Let_def split: sum.splits intro!: steps_intros)
next
  case (Call ident cargs ty)
  have h: "\<And>e t v v'. (e, t) \<in> set cargs \<Longrightarrow> VisitExpr e v = Inr v' \<Longrightarrow> steps v v'"
    using Call.IH by fastforce
  from Call.prems obtain args b where ab: "VisitArgs cargs [] v = Inr (args, b)"
    by (auto simp: Let_def split: sum.splits)
  have "steps v b" by (rule VisitArgs_steps[of cargs, OF _ ab]) (rule h)
  then show ?case using Call.prems ab
    by (auto simp: Let_def split: sum.splits option.splits if_splits intro!: steps_intros)
qed

lemma VisitBody_steps_aux:
  assumes "\<forall>i \<in> set is. \<forall>v v'. VisitInstr i v = Inr v' \<longrightarrow> steps v v'"
  shows "VisitBody is v = Inr v' \<Longrightarrow> steps v v'"
  using assms
proof (induction "is" arbitrary: v)
  case Nil
  then show ?case by (auto intro: steps_refl)
next
  case (Cons i "is")
  from Cons.prems(1) obtain v1 where v1: "VisitInstr i v = Inr v1" and r: "VisitBody is v1 = Inr v'"
    by (auto split: sum.splits)
  have "steps v v1" using Cons.prems(2) v1 by simp
  moreover have "steps v1 v'" using Cons.IH[OF r] Cons.prems(2) by auto
  ultimately show ?case by (rule steps_trans)
qed

lemma VisitInstr_steps: "VisitInstr i v = Inr v' \<Longrightarrow> steps v v'"
proof (induction i arbitrary: v v')
  case (Declare x ty)
  then show ?case by (auto intro: steps_refl)
next
  case (Assign lhs val)
  then show ?case
    by (auto simp: Let_def split: sum.splits Expression.splits dest!: VisitExpr_steps
        intro!: steps_intros elim: steps_trans)
next
  case (CallStmt ident cargs ty)
  then show ?case using VisitExpr_steps[of "Call ident cargs ty" v v'] by simp
next
  case (Return r)
  then show ?case
    by (auto simp: Let_def split: sum.splits option.splits dest!: VisitExpr_steps
        intro!: steps_intros)
next
  case (If init cond thn els)
  have "\<forall>i \<in> set init. \<forall>v v'. VisitInstr i v = Inr v' \<longrightarrow> steps v v'" using If.IH(1) by blast
  note B1 = VisitBody_steps_aux[OF this]
  have "\<forall>i \<in> set thn. \<forall>v v'. VisitInstr i v = Inr v' \<longrightarrow> steps v v'" using If.IH(2) by blast
  note B2 = VisitBody_steps_aux[OF this]
  note B3 = If.IH(3)
  from If.prems obtain v4 v5 v8 v11 where
    a: "VisitBody init (v\<lparr>labelCounter := Suc (Suc (Suc (labelCounter v)))\<rparr>) = Inr v4"
    and b: "VisitExpr cond v4 = Inr v5"
    and c: "VisitBody thn (appendInstruction (NewLabel (fmtLabel (Suc (labelCounter v)) ''then''))
              (appendInstruction (NewJnz (lastVal v5) (fmtLabel (Suc (labelCounter v)) ''then'')
                 (fmtLabel (Suc (Suc (labelCounter v))) ''else'')) v5)) = Inr v8"
    and d: "(case els of None \<Rightarrow> Inr (appendInstruction (NewLabel (fmtLabel (Suc (Suc (labelCounter v))) ''else''))
              (appendInstruction (NewJmp (fmtLabel (Suc (Suc (Suc (labelCounter v)))) ''end'')) v8))
            | Some i \<Rightarrow> VisitInstr i (appendInstruction (NewLabel (fmtLabel (Suc (Suc (labelCounter v))) ''else''))
              (appendInstruction (NewJmp (fmtLabel (Suc (Suc (Suc (labelCounter v)))) ''end'')) v8))) = Inr v11"
    and e: "v' = appendInstruction (NewLabel (fmtLabel (Suc (Suc (Suc (labelCounter v)))) ''end'')) v11"
    by (auto simp: Let_def split: sum.splits)
  have "steps v (v\<lparr>labelCounter := Suc (Suc (Suc (labelCounter v)))\<rparr>)"
    by (auto intro!: steps_intros)
  then have "steps v v4" using B1[OF a] by (auto elim: steps_trans)
  then have "steps v v5" using VisitExpr_steps[OF b] by (auto elim: steps_trans)
  then have "steps v v8" using B2[OF c] by (auto elim!: steps_trans' intro!: steps_intros)
  then have "steps v v11"
  proof (cases els)
    case None
    then show ?thesis using d \<open>steps v v8\<close> by (auto intro!: steps_intros)
  next
    case (Some i)
    then have "steps (appendInstruction (NewLabel (fmtLabel (Suc (Suc (labelCounter v))) ''else''))
              (appendInstruction (NewJmp (fmtLabel (Suc (Suc (Suc (labelCounter v)))) ''end'')) v8)) v11"
      using d B3[of i] by simp
    then show ?thesis using \<open>steps v v8\<close> by (auto elim!: steps_trans' intro!: steps_intros)
  qed
  then show ?case using e by (auto intro!: steps_intros)
next
  case (For init cond post body)
  have "\<forall>i \<in> set init. \<forall>v v'. VisitInstr i v = Inr v' \<longrightarrow> steps v v'" using For.IH(1) by blast
  note B1 = VisitBody_steps_aux[OF this]
  have "\<forall>i \<in> set post. \<forall>v v'. VisitInstr i v = Inr v' \<longrightarrow> steps v v'" using For.IH(2) by blast
  note B2 = VisitBody_steps_aux[OF this]
  have "\<forall>i \<in> set body. \<forall>v v'. VisitInstr i v = Inr v' \<longrightarrow> steps v v'" using For.IH(3) by blast
  note B3 = VisitBody_steps_aux[OF this]
  from For.prems obtain v4 v6 v9 v10 where
    a: "VisitBody init (v\<lparr>labelCounter := Suc (Suc (Suc (labelCounter v)))\<rparr>) = Inr v4"
    and b: "VisitExpr cond (appendInstruction (NewLabel (fmtLabel (Suc (labelCounter v)) ''for'')) v4) = Inr v6"
    and c: "VisitBody body (appendInstruction (NewLabel (fmtLabel (Suc (Suc (labelCounter v))) ''body''))
              (appendInstruction (NewJnz (lastVal v6) (fmtLabel (Suc (Suc (labelCounter v))) ''body'')
                 (fmtLabel (Suc (Suc (Suc (labelCounter v)))) ''end'')) v6)) = Inr v9"
    and d: "VisitBody post v9 = Inr v10"
    and e: "v' = appendInstruction (NewLabel (fmtLabel (Suc (Suc (Suc (labelCounter v)))) ''end''))
              (appendInstruction (NewJmp (fmtLabel (Suc (labelCounter v)) ''for'')) v10)"
    by (auto simp: Let_def split: sum.splits)
  have "steps v (v\<lparr>labelCounter := Suc (Suc (Suc (labelCounter v)))\<rparr>)"
    by (auto intro!: steps_intros)
  then have "steps v v4" using B1[OF a] by (auto elim: steps_trans)
  then have "steps v v6" using VisitExpr_steps[OF b] by (auto elim!: steps_trans' intro!: steps_intros)
  then have "steps v v9" using B3[OF c] by (auto elim!: steps_trans' intro!: steps_intros)
  then have "steps v v10" using B2[OF d] by (auto elim: steps_trans)
  then show ?case using e by (auto intro!: steps_intros)
next
  case (Body b)
  then show ?case using VisitBody_steps_aux[of b v v'] by auto
qed

lemma VisitBody_steps: "VisitBody is v = Inr v' \<Longrightarrow> steps v v'"
  by (rule VisitBody_steps_aux) (auto intro: VisitInstr_steps)

lemma appendInstruction_label:
  "appendInstruction (NewLabel l) v = v\<lparr>lastInstructions := lastInstructions v @ [NewLabel l]\<rparr>"
  by (simp add: appendInstruction_def)

lemma appendInstruction_plain:
  "\<not> isLabel i \<Longrightarrow> lastInstructions v = [] \<or> \<not> isRet (last (lastInstructions v)) \<Longrightarrow>
   appendInstruction i v = v\<lparr>lastInstructions := lastInstructions v @ [i]\<rparr>"
  by (auto simp add: appendInstruction_def)

lemma appendInstruction_afterRet:
  "\<not> isLabel i \<Longrightarrow> lastInstructions v \<noteq> [] \<Longrightarrow> isRet (last (lastInstructions v)) \<Longrightarrow>
   appendInstruction i v =
     v\<lparr>labelCounter := Suc (labelCounter v),
       lastInstructions :=
         lastInstructions v @ [NewLabel (fmtLabel (Suc (labelCounter v)) ''block''), i]\<rparr>"
  by (simp add: appendInstruction_def)

text \<open>Rule sets for evaluating the lowering on a concrete program, used in three rounds.\<close>

lemmas eval1 = newVisitor_def Let_def finishBinop_def binOpMap_def isPointer_def elemSizeOf_def
  VisitFuncDef_def VisitCompilationUnit_def Lower_def VisitFuncParam_def mapTypeToAbiTy_def
  NewFuncDef_def NewCall_def NewDataDefStringZ_def
lemmas eval2 = appendInstruction_label appendInstruction_plain appendInstruction_afterRet
lemmas eval3 = fmtLabel_def fmtIdent_def pad4_def dec.simps digit_char_def
  numeral_2_eq_2 numeral_3_eq_3

lemma exIfElse_lowered: "Lower exIfElse = Inr exIfElseIR"
  apply (simp add: exIfElse_def exIfElseIR_def exIfElseFunc_def exIfElseBlock_def exBody_def
      exIfElseInstrs_def eval1)
  apply (simp add: eval2)
  apply (simp add: eval3)
  done

section \<open>Claim C4: a return is followed by a label\<close>

lemma retThenLabel_snoc:
  "retThenLabel (xs @ [i]) = (retThenLabel xs \<and> (xs \<noteq> [] \<and> isRet (last xs) \<longrightarrow> isLabel i))"
  by (induction xs rule: retThenLabel.induct) auto

lemma retThenLabel_nth:
  "retThenLabel xs \<Longrightarrow> Suc i < length xs \<Longrightarrow> isRet (xs ! i) \<Longrightarrow> isLabel (xs ! Suc i)"
proof (induction xs arbitrary: i rule: retThenLabel.induct)
  case (3 a b xs)
  then show ?case by (cases i) auto
qed auto

lemma appendInstruction_fields [simp]:
  "tmpCounter (appendInstruction i v) = tmpCounter v"
  "unit (appendInstruction i v) = unit v"
  "lastVal (appendInstruction i v) = lastVal v"
  "lastType (appendInstruction i v) = lastType v"
  "lastParam (appendInstruction i v) = lastParam v"
  by (simp_all add: appendInstruction_def Let_def)

lemma appendInstruction_retThenLabel:
  "retThenLabel (lastInstructions v) \<Longrightarrow> retThenLabel (lastInstructions (appendInstruction i v))"
  by (cases i) (auto simp: appendInstruction_def Let_def retThenLabel_snoc)

lemma steps_retThenLabel:
  "steps v w \<Longrightarrow> retThenLabel (lastInstructions v) \<Longrightarrow> retThenLabel (lastInstructions w)"
  by (induction rule: steps.induct) (auto intro: appendInstruction_retThenLabel)

lemma steps_FuncDefs: "steps v w \<Longrightarrow> FuncDefs (unit w) = FuncDefs (unit v)"
  by (induction rule: steps.induct) auto

lemma steps_tmpCounter: "steps v w \<Longrightarrow> tmpCounter v \<le> tmpCounter w"
  by (induction rule: steps.induct) auto

lemma lowerParams_fields [simp]:
  "lastInstructions (snd (lowerParams ps acc v)) = lastInstructions v"
  "labelCounter (snd (lowerParams ps acc v)) = labelCounter v"
  "tmpCounter (snd (lowerParams ps acc v)) = tmpCounter v"
  "unit (snd (lowerParams ps acc v)) = unit v"
  by (induction ps arbitrary: acc v) (auto simp: Let_def VisitFuncParam_def)

lemma fold_ignore [simp]: "fold (\<lambda>d w. w) xs v = v"
  by (induction xs) auto

lemma VisitFuncDef_funcsOK:
  assumes "VisitFuncDef fd v = Inr v'" "funcsOK (FuncDefs (unit v))"
  shows "funcsOK (FuncDefs (unit v'))"
proof -
  obtain params v1 where p: "lowerParams (fd_Params fd) [] (v\<lparr>labelCounter := 0, lastInstructions := []\<rparr>) = (params, v1)"
    by (cases "lowerParams (fd_Params fd) [] (v\<lparr>labelCounter := 0, lastInstructions := []\<rparr>)")
  have l1: "lastInstructions v1 = []" and u1: "unit v1 = unit v"
    using lowerParams_fields(1,4)[of "fd_Params fd" "[]" "v\<lparr>labelCounter := 0, lastInstructions := []\<rparr>"] p by auto
  show ?thesis
  proof (cases "fd_Body fd")
    case None
    then show ?thesis using assms p u1
      by (auto simp: VisitFuncDef_def Let_def funcsOK_def NewFuncDef_def split: sum.splits option.splits AttrValue.splits if_splits)
  next
    case (Some body)
    with assms(1) p obtain v2 where v2: "VisitBody body v1 = Inr v2"
      by (auto simp: VisitFuncDef_def Let_def split: sum.splits option.splits AttrValue.splits if_splits)
    have s: "steps v1 v2" by (rule VisitBody_steps[OF v2])
    have r: "retThenLabel (lastInstructions v2)" using steps_retThenLabel[OF s] l1 by simp
    have f: "FuncDefs (unit v2) = FuncDefs (unit v)" using steps_FuncDefs[OF s] u1 by simp
    show ?thesis using assms p Some v2 r f
      by (auto simp: VisitFuncDef_def Let_def funcsOK_def NewFuncDef_def split: sum.splits option.splits AttrValue.splits if_splits)
  qed
qed

lemma VisitFuncs_funcsOK:
  "VisitFuncs fds v = Inr v' \<Longrightarrow> funcsOK (FuncDefs (unit v)) \<Longrightarrow> funcsOK (FuncDefs (unit v'))"
  by (induction fds arbitrary: v) (auto split: sum.splits dest: VisitFuncDef_funcsOK)

text \<open>
  Claim C4. In every function of the IR produced by a successful lowering, a \<^verbatim>\<open>Ret\<close>
  instruction that is not the last instruction of the function's instruction list is
  immediately followed by a \<^verbatim>\<open>Label\<close>.
\<close>

theorem C4_ret_followed_by_label:
  assumes "Lower cu = Inr u" and "f \<in> set (FuncDefs u)" and "b \<in> set (ir_Blocks f)"
    and "Suc i < length (blk_Instructions b)" and "isRet (blk_Instructions b ! i)"
  shows "isLabel (blk_Instructions b ! Suc i)"
proof -
  from assms(1) obtain v where v: "VisitFuncs (cu_Funcs cu) newVisitor = Inr v" and u: "u = unit v"
    by (auto simp: Lower_def VisitCompilationUnit_def split: sum.splits)
  have "funcsOK (FuncDefs (unit newVisitor))" by (simp add: funcsOK_def newVisitor_def)
  from VisitFuncs_funcsOK[OF v this] have "funcsOK (FuncDefs u)" using u by simp
  then have "retThenLabel (blk_Instructions b)" using assms(2,3) by (auto simp: funcsOK_def)
  then show ?thesis using assms(4,5) by (rule retThenLabel_nth)
qed

theorem C4_ret_followed_by_label_witness:
  "Lower exIfElse = Inr exIfElseIR \<and> isRet (blk_Instructions exIfElseBlock ! 3)
   \<and> isLabel (blk_Instructions exIfElseBlock ! Suc 3)"
proof -
  have b: "exIfElseFunc \<in> set (FuncDefs exIfElseIR)" by (simp add: exIfElseIR_def)
  have c: "exIfElseBlock \<in> set (ir_Blocks exIfElseFunc)" by (simp add: exIfElseFunc_def)
  have d: "Suc 3 < length (blk_Instructions exIfElseBlock)"
    by (simp add: exIfElseBlock_def exIfElseInstrs_def)
  have e: "isRet (blk_Instructions exIfElseBlock ! 3)"
    by (simp add: exIfElseBlock_def exIfElseInstrs_def)
  from C4_ret_followed_by_label[OF exIfElse_lowered b c d e] exIfElse_lowered e
  show ?thesis by simp
qed

section \<open>Claim C10: one counter for all generated identifiers\<close>

lemma freshSegment_empty [simp]: "freshSegment A lo hi {}"
  by (simp add: freshSegment_def)

lemma freshSegment_union:
  "freshSegment A lo mid N1 \<Longrightarrow> freshSegment A mid hi N2 \<Longrightarrow> lo \<le> mid \<Longrightarrow> mid \<le> hi \<Longrightarrow> freshSegment A lo hi (N1 \<union> N2)"
  unfolding freshSegment_def
  apply (intro conjI ballI)
   apply (elim conjE UnE)
    apply (metis le_trans)
   apply (metis le_less_trans)
  apply (intro impI)
  apply (elim conjE UnE)
     apply blast
    apply (metis identNumber_fmtIdent not_le)
   apply (metis identNumber_fmtIdent not_le)
  apply blast
  done

lemma freshSegment_user: "X \<subseteq> A \<Longrightarrow> freshSegment A lo hi X"
  by (auto simp: freshSegment_def)

lemma freshSegment_single: "p \<in> identKinds \<Longrightarrow> lo < k \<Longrightarrow> k \<le> hi \<Longrightarrow> X \<subseteq> {fmtIdent p k} \<Longrightarrow> freshSegment A lo hi X"
  by (auto simp: freshSegment_def)

lemma extends_refl [simp]: "extends A v v"
  by (auto simp: extends_def intro: exI[of _ "{}"])

lemma extends_trans: "extends A a b \<Longrightarrow> extends A b c \<Longrightarrow> extends A a c"
  unfolding extends_def
  apply (elim conjE exE)
  subgoal for N M
    apply (intro conjI)
      apply simp
     apply simp
    apply (rule exI[of _ "N \<union> M"])
    apply (auto intro: freshSegment_union)
    done
  done

lemma definedSoFar_upd [simp]:
  "definedSoFar (v\<lparr>lastVal := x\<rparr>) = definedSoFar v"
  "definedSoFar (v\<lparr>lastType := y\<rparr>) = definedSoFar v"
  "definedSoFar (v\<lparr>lastParam := z\<rparr>) = definedSoFar v"
  "definedSoFar (v\<lparr>labelCounter := n\<rparr>) = definedSoFar v"
  "definedSoFar (v\<lparr>tmpCounter := m\<rparr>) = definedSoFar v"
  by (simp_all add: definedSoFar_def)

lemma definedSoFar_append [simp]: "definedSoFar (appendInstruction i v) = definedSoFar v \<union> set (instrDests i)"
  by (cases i) (auto simp: definedSoFar_def appendInstruction_def Let_def definedIn_def)

lemma extends_upd [simp]:
  "extends A v (w\<lparr>lastVal := x\<rparr>) = extends A v w"
  "extends A v (w\<lparr>lastType := y\<rparr>) = extends A v w"
  "extends A v (w\<lparr>lastParam := z\<rparr>) = extends A v w"
  "extends A v (w\<lparr>labelCounter := n\<rparr>) = extends A v w"
  "extends A (v\<lparr>lastVal := x\<rparr>) w = extends A v w"
  "extends A (v\<lparr>lastType := y\<rparr>) w = extends A v w"
  "extends A (v\<lparr>lastParam := z\<rparr>) w = extends A v w"
  "extends A (v\<lparr>labelCounter := n\<rparr>) w = extends A v w"
  by (simp_all add: extends_def)

lemma extends_append: "set (instrDests i) \<subseteq> A \<Longrightarrow> extends A v w \<Longrightarrow> extends A v (appendInstruction i w)"
  apply (rule extends_trans, assumption)
  apply (simp add: extends_def)
  apply (rule exI[of _ "set (instrDests i)"])
  apply (simp add: freshSegment_user)
  done

lemma extends_gen:
  assumes "extends A v1 v2" and "tmpCounter v1 = Suc (tmpCounter v0)"
    and "FuncDefs (unit v1) = FuncDefs (unit v0)"
    and "definedSoFar v1 = definedSoFar v0 \<union> X1" and "X1 \<subseteq> {fmtIdent p (Suc (tmpCounter v0))}"
    and "p \<in> identKinds"
    and "tmpCounter v3 = tmpCounter v2" and "FuncDefs (unit v3) = FuncDefs (unit v2)"
    and "definedSoFar v3 = definedSoFar v2 \<union> X3" and "X3 \<subseteq> {fmtIdent p (Suc (tmpCounter v0))}"
  shows "extends A v0 v3"
proof -
  from assms(1) obtain N where N: "definedSoFar v2 = definedSoFar v1 \<union> N" "freshSegment A (tmpCounter v1) (tmpCounter v2) N"
    and le: "tmpCounter v1 \<le> tmpCounter v2" and f: "FuncDefs (unit v2) = FuncDefs (unit v1)"
    by (auto simp: extends_def)
  have s1: "freshSegment A (tmpCounter v0) (Suc (tmpCounter v0)) (X1 \<union> X3)"
    by (rule freshSegment_single[OF assms(6)]) (use assms(5,10) in auto)
  have "freshSegment A (tmpCounter v0) (tmpCounter v2) ((X1 \<union> X3) \<union> N)"
    by (rule freshSegment_union[OF s1]) (use N(2) le assms(2) in auto)
  moreover have "definedSoFar v3 = definedSoFar v0 \<union> ((X1 \<union> X3) \<union> N)"
    using assms(4,9) N(1) by auto
  ultimately show ?thesis
    unfolding extends_def using le f assms(2,3,7,8) by auto
qed

lemma identKinds_simps [simp]: "''tmp'' \<in> identKinds" "''str'' \<in> identKinds" "''idx'' \<in> identKinds"
  by (simp_all add: identKinds_def)

lemma finishBinop_extends:
  assumes "finishBinop op ty (Some (NewValIdent rid)) l lt r rt v = Inr v'"
  shows "\<exists>w. extends A v w \<and> tmpCounter v' = tmpCounter w \<and> FuncDefs (unit v') = FuncDefs (unit w)
             \<and> definedSoFar v' = definedSoFar w \<union> {rid}"
proof (cases "(op = ast_BinOpAdd \<or> op = ast_BinOpSub) \<and> isPointer lt \<noteq> isPointer rt
                \<and> elemSizeOf (if isPointer lt then lt else rt) \<noteq> 1")
  case True
  let ?idx = "fmtIdent ''idx'' (Suc (tmpCounter v))"
  let ?w = "appendInstruction (NewBinop BinOpMul (Some (NewValIdent ?idx))
               (if isPointer lt then r else l)
               (Some (NewValInteger (elemSizeOf (if isPointer lt then lt else rt)))))
             (v\<lparr>tmpCounter := Suc (tmpCounter v)\<rparr>)"
  have "extends A v ?w"
    by (rule extends_gen[where ?v1.0 = "v\<lparr>tmpCounter := Suc (tmpCounter v)\<rparr>"
          and ?v2.0 = "v\<lparr>tmpCounter := Suc (tmpCounter v)\<rparr>" and p = "''idx''"
          and ?X1.0 = "{}" and ?X3.0 = "{?idx}"]) simp_all
  then show ?thesis using assms True
    by (intro exI[of _ ?w]) (auto simp: finishBinop_def Let_def split: option.splits)
next
  case False
  then show ?thesis using assms
    by (intro exI[of _ v]) (auto simp: finishBinop_def Let_def split: option.splits)
qed

lemma VisitArgs_extends:
  assumes "\<And>e t v v'. (e, t) \<in> set as \<Longrightarrow> VisitExpr e v = Inr v' \<Longrightarrow> extends A v v'"
  shows "VisitArgs as args v = Inr (args', v') \<Longrightarrow> extends A v v'"
  using assms
proof (induction as arbitrary: args v)
  case Nil
  then show ?case by auto
next
  case (Cons a as)
  from Cons.prems(1) obtain v1 where
    v1: "VisitExpr (fst a) (v\<lparr>lastVal := None\<rparr>) = Inr v1"
    and r: "VisitArgs as (args @ [NewArgRegular (mapTypeToAbiTy (snd a)) (lastVal v1)]) v1 = Inr (args', v')"
    by (auto split: sum.splits)
  have "extends A v v1" using Cons.prems(2)[of "fst a" "snd a", OF _ v1] by simp
  moreover have "extends A v1 v'" using Cons.IH[OF r] Cons.prems(2) by auto
  ultimately show ?case by (rule extends_trans)
qed

lemma VisitExpr_extends: "VisitExpr e v = Inr v' \<Longrightarrow> extends A v v'"
proof (induction e arbitrary: v v')
  case (Literal ty i b s)
  show ?case
  proof (cases "\<exists>t. ty = Some t \<and> Kind t = TypeString")
    case True
    let ?id = "fmtIdent ''str'' (Suc (tmpCounter v))"
    have "extends A v v'"
      by (rule extends_gen[where ?v1.0 = "v\<lparr>tmpCounter := Suc (tmpCounter v)\<rparr>"
          and ?v2.0 = "v\<lparr>tmpCounter := Suc (tmpCounter v)\<rparr>" and p = "''str''"
          and ?X1.0 = "{}" and ?X3.0 = "{?id}"])
         (use Literal True in \<open>auto simp: Let_def definedSoFar_def NewDataDefStringZ_def\<close>)
    then show ?thesis .
  next
    case False
    then show ?thesis using Literal
      by (auto split: option.splits TypeKind.splits)
  qed
next
  case (Binop op lhs rhs ty)
  from Binop.prems obtain v1 where v1: "VisitExpr lhs (v\<lparr>lastVal := None, lastType := None\<rparr>) = Inr v1"
    by (auto split: sum.splits)
  have s1: "extends A v v1" using Binop.IH(1)[OF v1] by simp
  let ?rid = "fmtIdent ''tmp'' (Suc (tmpCounter v1))"
  let ?v2 = "v1\<lparr>tmpCounter := Suc (tmpCounter v1)\<rparr>"
  have sc: "extends A v1 v'" if
      a: "tmpCounter v10 = Suc (tmpCounter v1)" "FuncDefs (unit v10) = FuncDefs (unit v1)"
         "definedSoFar v10 = definedSoFar v1 \<union> {?rid}"
      and b: "VisitExpr rhs v10 = Inr v11"
      and c: "tmpCounter v' = tmpCounter v11" "FuncDefs (unit v') = FuncDefs (unit v11)"
         "definedSoFar v' = definedSoFar v11 \<union> {?rid}" for v10 v11
    by (rule extends_gen[where ?v1.0 = v10 and ?v2.0 = v11 and p = "''tmp''"
              and ?X1.0 = "{?rid}" and ?X3.0 = "{?rid}"])
       (use a c Binop.IH(2)[OF b] in auto)
  consider (land) "op = ast_BinOpLogAnd" | (lor) "op = ast_BinOpLogOr"
    | (other) "op \<noteq> ast_BinOpLogAnd" "op \<noteq> ast_BinOpLogOr" by blast
  then have "extends A v1 v'"
  proof cases
    case land
    show ?thesis using Binop.prems v1 land
      apply (simp add: Let_def split: sum.splits)
      apply (erule sc[rotated 3])
      apply (clarsimp simp del: nextLabel_eq)+
      done
  next
    case lor
    show ?thesis using Binop.prems v1 lor
      apply (simp add: Let_def split: sum.splits)
      apply (erule sc[rotated 3])
      apply (clarsimp simp del: nextLabel_eq)+
      done
  next
    case other
    then obtain v3 where
      b: "VisitExpr rhs (?v2\<lparr>lastVal := None, lastType := None\<rparr>) = Inr v3"
      and c: "finishBinop op ty (Some (NewValIdent ?rid)) (lastVal v1) (lastType v1) (lastVal v3) (lastType v3) v3 = Inr v'"
      using Binop.prems v1
      by (auto simp: Let_def split: sum.splits)
    from finishBinop_extends[OF c, of A] obtain w where
      w: "extends A v3 w" "tmpCounter v' = tmpCounter w" "FuncDefs (unit v') = FuncDefs (unit w)"
         "definedSoFar v' = definedSoFar w \<union> {?rid}" by blast
    have "extends A ?v2 v3" using Binop.IH(2)[OF b] by simp
    then have "extends A ?v2 w" using w(1) by (rule extends_trans)
    then show ?thesis
      by (rule extends_gen[where p = "''tmp''" and ?X1.0 = "{}" and ?X3.0 = "{?rid}"])
         (use w in auto)
  qed
  with s1 show ?case by (rule extends_trans)
next
  case (VariableRef ident ty)
  then show ?case by auto
next
  case (Deref e ty)
  from Deref.prems obtain v1 where v1: "VisitExpr e v = Inr v1"
    by (auto split: sum.splits)
  let ?t = "fmtIdent ''tmp'' (Suc (tmpCounter v1))"
  have "extends A v1 v'"
    by (rule extends_gen[where ?v1.0 = "v1\<lparr>tmpCounter := Suc (tmpCounter v1)\<rparr>"
          and ?v2.0 = "v1\<lparr>tmpCounter := Suc (tmpCounter v1)\<rparr>" and p = "''tmp''"
          and ?X1.0 = "{}" and ?X3.0 = "{?t}"])
       (use Deref.prems v1 in \<open>auto simp: Let_def\<close>)
  with Deref.IH[OF v1] show ?case by (rule extends_trans)
next
  case (Call ident cargs ty)
  have h: "\<And>e t v v'. (e, t) \<in> set cargs \<Longrightarrow> VisitExpr e v = Inr v' \<Longrightarrow> extends A v v'"
    using Call.IH by fastforce
  from Call.prems obtain args b where ab: "VisitArgs cargs [] v = Inr (args, b)"
    by (auto simp: Let_def split: sum.splits)
  have s: "extends A v b" by (rule VisitArgs_extends[of cargs, OF _ ab]) (rule h)
  let ?t = "fmtIdent ''tmp'' (Suc (tmpCounter b))"
  define i where "i =
     (case ty of
        None \<Rightarrow> NewCall (NewValGlobal (lookupLinkName (FuncDefs (unit v)) ident)) args
      | Some cty \<Rightarrow>
          if Kind cty \<noteq> TypeVoid
          then WithRet (NewCall (NewValGlobal (lookupLinkName (FuncDefs (unit v)) ident)) args) ?t
                 (mapTypeToAbiTy ty)
          else NewCall (NewValGlobal (lookupLinkName (FuncDefs (unit v)) ident)) args)"
  have i: "v' = (appendInstruction i (b\<lparr>tmpCounter := Suc (tmpCounter b)\<rparr>))\<lparr>lastVal := Some (NewValIdent ?t)\<rparr>"
       "set (instrDests i) \<subseteq> {?t}"
    using Call.prems ab by (auto simp: Let_def i_def NewCall_def split: option.splits)
  define X where "X = set (instrDests i)"
  have X: "X \<subseteq> {?t}" "definedSoFar v' = definedSoFar b \<union> X" "tmpCounter v' = Suc (tmpCounter b)"
      "FuncDefs (unit v') = FuncDefs (unit b)"
    using i by (simp_all add: X_def)
  have "extends A b v'"
    by (rule extends_gen[where ?v1.0 = "b\<lparr>tmpCounter := Suc (tmpCounter b)\<rparr>"
          and ?v2.0 = "b\<lparr>tmpCounter := Suc (tmpCounter b)\<rparr>" and p = "''tmp''"
          and ?X1.0 = "{}" and ?X3.0 = X])
       (use X in auto)
  with s show ?case by (rule extends_trans)
qed

lemma extends_trans': "extends A b c \<Longrightarrow> extends A a b \<Longrightarrow> extends A a c"
  by (rule extends_trans)

lemma assignedInList_eq: "assignedInList is = (\<Union>i \<in> set is. assignedIn i)"
  by (induction "is") auto

lemma VisitBody_extends_aux:
  assumes "\<forall>i \<in> set is. \<forall>v v'. VisitInstr i v = Inr v' \<longrightarrow> assignedIn i \<subseteq> A \<longrightarrow> extends A v v'"
  shows "VisitBody is v = Inr v' \<Longrightarrow> assignedInList is \<subseteq> A \<Longrightarrow> extends A v v'"
  using assms
proof (induction "is" arbitrary: v)
  case Nil
  then show ?case by auto
next
  case (Cons i "is")
  from Cons.prems(1) obtain v1 where v1: "VisitInstr i v = Inr v1" and r: "VisitBody is v1 = Inr v'"
    by (auto split: sum.splits)
  have "extends A v v1" using Cons.prems(2,3) v1 by simp
  moreover have "extends A v1 v'" using Cons.IH[OF r] Cons.prems(2,3) by auto
  ultimately show ?case by (rule extends_trans)
qed

lemma VisitInstr_extends: "VisitInstr i v = Inr v' \<Longrightarrow> assignedIn i \<subseteq> A \<Longrightarrow> extends A v v'"
proof (induction i arbitrary: v v')
  case (Declare x ty)
  then show ?case by auto
next
  case (Assign lhs val)
  from Assign.prems(1) obtain v1 where v1: "VisitExpr val (v\<lparr>lastVal := None\<rparr>) = Inr v1"
    by (auto split: sum.splits)
  have s1: "extends A v v1" using VisitExpr_extends[OF v1, of A] by simp
  show ?case
  proof (cases lhs)
    case (VariableRef x xty)
    then show ?thesis using Assign.prems v1 s1
      by (auto simp: Let_def intro!: extends_append)
  next
    case (Deref p pty)
    then obtain v3 where v3: "VisitExpr p (v1\<lparr>lastVal := None\<rparr>) = Inr v3"
      and e: "v' = appendInstruction (NewStore (lastVal v3) (lastVal v1)) v3"
      using Assign.prems v1 by (auto simp: Let_def split: sum.splits)
    have "extends A v1 v3" using VisitExpr_extends[OF v3, of A] by simp
    with s1 have "extends A v v3" by (rule extends_trans)
    then show ?thesis unfolding e by (rule extends_append[rotated]) simp
  qed (use Assign.prems v1 in \<open>auto simp: Let_def\<close>)
next
  case (CallStmt ident cargs ty)
  then show ?case using VisitExpr_extends[of "Call ident cargs ty" v v' A] by simp
next
  case (Return r)
  then show ?case
    by (auto simp: Let_def split: sum.splits option.splits dest!: VisitExpr_extends[where A = A]
        intro!: extends_append)
next
  case (If init cond thn els)
  have A: "assignedInList init \<subseteq> A" "assignedInList thn \<subseteq> A"
      "\<And>i. els = Some i \<Longrightarrow> assignedIn i \<subseteq> A"
    using If.prems(2) by auto
  have "\<forall>i \<in> set init. \<forall>v v'. VisitInstr i v = Inr v' \<longrightarrow> assignedIn i \<subseteq> A \<longrightarrow> extends A v v'"
    using If.IH(1) by blast
  note B1 = VisitBody_extends_aux[OF this _ A(1)]
  have "\<forall>i \<in> set thn. \<forall>v v'. VisitInstr i v = Inr v' \<longrightarrow> assignedIn i \<subseteq> A \<longrightarrow> extends A v v'"
    using If.IH(2) by blast
  note B2 = VisitBody_extends_aux[OF this _ A(2)]
  note B3 = If.IH(3)
  from If.prems(1) obtain v4 v5 v8 v11 where
    a: "VisitBody init (v\<lparr>labelCounter := Suc (Suc (Suc (labelCounter v)))\<rparr>) = Inr v4"
    and b: "VisitExpr cond v4 = Inr v5"
    and c: "VisitBody thn (appendInstruction (NewLabel (fmtLabel (Suc (labelCounter v)) ''then''))
              (appendInstruction (NewJnz (lastVal v5) (fmtLabel (Suc (labelCounter v)) ''then'')
                 (fmtLabel (Suc (Suc (labelCounter v))) ''else'')) v5)) = Inr v8"
    and d: "(case els of None \<Rightarrow> Inr (appendInstruction (NewLabel (fmtLabel (Suc (Suc (labelCounter v))) ''else''))
              (appendInstruction (NewJmp (fmtLabel (Suc (Suc (Suc (labelCounter v)))) ''end'')) v8))
            | Some i \<Rightarrow> VisitInstr i (appendInstruction (NewLabel (fmtLabel (Suc (Suc (labelCounter v))) ''else''))
              (appendInstruction (NewJmp (fmtLabel (Suc (Suc (Suc (labelCounter v)))) ''end'')) v8))) = Inr v11"
    and e: "v' = appendInstruction (NewLabel (fmtLabel (Suc (Suc (Suc (labelCounter v)))) ''end'')) v11"
    by (auto simp: Let_def split: sum.splits)
  have "extends A v v4" using B1[OF a] by simp
  then have "extends A v v5" using VisitExpr_extends[OF b, of A] by (auto elim: extends_trans)
  then have "extends A v v8" using B2[OF c] by (auto elim!: extends_trans' intro!: extends_append)
  then have "extends A v v11"
  proof (cases els)
    case None
    then show ?thesis using d \<open>extends A v v8\<close> by (auto intro!: extends_append)
  next
    case (Some i)
    then have "extends A (appendInstruction (NewLabel (fmtLabel (Suc (Suc (labelCounter v))) ''else''))
              (appendInstruction (NewJmp (fmtLabel (Suc (Suc (Suc (labelCounter v)))) ''end'')) v8)) v11"
      using d B3[of i] A(3) by simp
    then show ?thesis using \<open>extends A v v8\<close> by (auto elim!: extends_trans' intro!: extends_append)
  qed
  then show ?case using e by (auto intro!: extends_append)
next
  case (For init cond post body)
  have A: "assignedInList init \<subseteq> A" "assignedInList post \<subseteq> A" "assignedInList body \<subseteq> A"
    using For.prems(2) by auto
  have "\<forall>i \<in> set init. \<forall>v v'. VisitInstr i v = Inr v' \<longrightarrow> assignedIn i \<subseteq> A \<longrightarrow> extends A v v'"
    using For.IH(1) by blast
  note B1 = VisitBody_extends_aux[OF this _ A(1)]
  have "\<forall>i \<in> set post. \<forall>v v'. VisitInstr i v = Inr v' \<longrightarrow> assignedIn i \<subseteq> A \<longrightarrow> extends A v v'"
    using For.IH(2) by blast
  note B2 = VisitBody_extends_aux[OF this _ A(2)]
  have "\<forall>i \<in> set body. \<forall>v v'. VisitInstr i v = Inr v' \<longrightarrow> assignedIn i \<subseteq> A \<longrightarrow> extends A v v'"
    using For.IH(3) by blast
  note B3 = VisitBody_extends_aux[OF this _ A(3)]
  from For.prems(1) obtain v4 v6 v9 v10 where
    a: "VisitBody init (v\<lparr>labelCounter := Suc (Suc (Suc (labelCounter v)))\<rparr>) = Inr v4"
    and b: "VisitExpr cond (appendInstruction (NewLabel (fmtLabel (Suc (labelCounter v)) ''for'')) v4) = Inr v6"
    and c: "VisitBody body (appendInstruction (NewLabel (fmtLabel (Suc (Suc (labelCounter v))) ''body''))
              (appendInstruction (NewJnz (lastVal v6) (fmtLabel (Suc (Suc (labelCounter v))) ''body'')
                 (fmtLabel (Suc (Suc (Suc (labelCounter v)))) ''end'')) v6)) = Inr v9"
    and d: "VisitBody post v9 = Inr v10"
    and e: "v' = appendInstruction (NewLabel (fmtLabel (Suc (Suc (Suc (labelCounter v)))) ''end''))
              (appendInstruction (NewJmp (fmtLabel (Suc (labelCounter v)) ''for'')) v10)"
    by (auto simp: Let_def split: sum.splits)
  have "extends A v v4" using B1[OF a] by simp
  then have "extends A v v6" using VisitExpr_extends[OF b, of A] by (auto elim!: extends_trans' intro!: extends_append)
  then have "extends A v v9" using B3[OF c] by (auto elim!: extends_trans' intro!: extends_append)
  then have "extends A v v10" using B2[OF d] by (auto elim: extends_trans)
  then show ?case using e by (auto intro!: extends_append)
next
  case (Body b)
  then show ?case using VisitBody_extends_aux[of b A v v'] by auto
qed

lemma VisitBody_extends: "VisitBody is v = Inr v' \<Longrightarrow> assignedInList is \<subseteq> A \<Longrightarrow> extends A v v'"
  by (rule VisitBody_extends_aux) (auto intro: VisitInstr_extends)

lemma extendsUnit_refl [simp]: "extendsUnit A v v"
  by (auto simp: extendsUnit_def intro: exI[of _ "{}"])

lemma extendsUnit_trans: "extendsUnit A a b \<Longrightarrow> extendsUnit A b c \<Longrightarrow> extendsUnit A a c"
  unfolding extendsUnit_def
  apply (elim conjE exE)
  subgoal for N M
    apply (intro conjI)
     apply simp
    apply (rule exI[of _ "N \<union> M"])
    apply (auto intro: freshSegment_union)
    done
  done

lemma definedIdents_D:
  "set (definedIdents u) =
     set (map dd_Ident (DataDefs u))
     \<union> (\<Union>f \<in> set (FuncDefs u). \<Union>b \<in> set (ir_Blocks f). set (definedIn (blk_Instructions b)))"
  by (auto simp: definedIdents_def)

lemma VisitFuncDef_extendsUnit:
  assumes "VisitFuncDef fd v = Inr v'"
    and "(case fd_Body fd of None \<Rightarrow> {} | Some b \<Rightarrow> assignedInList b) \<subseteq> A"
  shows "extendsUnit A v v'"
proof -
  obtain params v1 where p: "lowerParams (fd_Params fd) [] (v\<lparr>labelCounter := 0, lastInstructions := []\<rparr>) = (params, v1)"
    by (cases "lowerParams (fd_Params fd) [] (v\<lparr>labelCounter := 0, lastInstructions := []\<rparr>)")
  have l1: "lastInstructions v1 = []" and u1: "unit v1 = unit v" and t1: "tmpCounter v1 = tmpCounter v"
    using lowerParams_fields(1,3,4)[of "fd_Params fd" "[]" "v\<lparr>labelCounter := 0, lastInstructions := []\<rparr>"] p by auto
  show ?thesis
  proof (cases "fd_Body fd")
    case None
    from None assms(1) p u1 obtain f where f: "v' = v1\<lparr>unit := (unit v)\<lparr>FuncDefs := FuncDefs (unit v) @ [f]\<rparr>\<rparr>"
        "ir_Blocks f = []"
      by (auto simp: VisitFuncDef_def Let_def NewFuncDef_def split: sum.splits option.splits AttrValue.splits if_splits)
    show ?thesis unfolding extendsUnit_def
      by (intro conjI exI[of _ "{}"]) (simp_all add: f t1 definedIdents_D)
  next
    case (Some body)
    with assms(1) p obtain v2 where v2: "VisitBody body v1 = Inr v2"
      by (auto simp: VisitFuncDef_def Let_def split: sum.splits option.splits AttrValue.splits if_splits)
    from Some assms(1) p v2 obtain f where f: "v' = v2\<lparr>unit := (unit v2)\<lparr>FuncDefs := FuncDefs (unit v2) @ [f]\<rparr>\<rparr>"
        "ir_Blocks f = [\<lparr>blk_Label = ''start'', blk_Instructions = lastInstructions v2\<rparr>]"
      by (auto simp: VisitFuncDef_def Let_def NewFuncDef_def split: sum.splits option.splits AttrValue.splits if_splits)
    have "extends A v1 v2" using VisitBody_extends[OF v2] assms(2) Some by simp
    then obtain N where N: "definedSoFar v2 = definedSoFar v1 \<union> N" "freshSegment A (tmpCounter v1) (tmpCounter v2) N"
      and le: "tmpCounter v1 \<le> tmpCounter v2" and fd: "FuncDefs (unit v2) = FuncDefs (unit v1)"
      by (auto simp: extends_def)
    have "set (definedIdents (unit v')) = set (definedIdents (unit v)) \<union> N"
      using N(1) fd l1 u1 by (auto simp: f definedIdents_D definedSoFar_def definedIn_def)
    then show ?thesis unfolding extendsUnit_def using N(2) le t1 by (auto simp: f)
  qed
qed

lemma VisitFuncs_extendsUnit:
  "VisitFuncs fds v = Inr v' \<Longrightarrow>
   (\<Union>fd \<in> set fds. case fd_Body fd of None \<Rightarrow> {} | Some b \<Rightarrow> assignedInList b) \<subseteq> A \<Longrightarrow>
   extendsUnit A v v'"
proof (induction fds arbitrary: v)
  case Nil
  then show ?case by simp
next
  case (Cons fd fds)
  from Cons.prems(1) obtain v1 where v1: "VisitFuncDef fd v = Inr v1" and r: "VisitFuncs fds v1 = Inr v'"
    by (auto split: sum.splits)
  have "extendsUnit A v v1" by (rule VisitFuncDef_extendsUnit[OF v1]) (use Cons.prems(2) in auto)
  moreover have "extendsUnit A v1 v'" by (rule Cons.IH[OF r]) (use Cons.prems(2) in auto)
  ultimately show ?case by (rule extendsUnit_trans)
qed

lemma Lower_freshSegment:
  assumes "Lower cu = Inr u"
  shows "\<exists>n. freshSegment (assignedVars cu) 0 n (set (definedIdents u))"
proof -
  from assms obtain v where v: "VisitFuncs (cu_Funcs cu) newVisitor = Inr v" and u: "u = unit v"
    by (auto simp: Lower_def VisitCompilationUnit_def split: sum.splits)
  have "extendsUnit (assignedVars cu) newVisitor v"
    by (rule VisitFuncs_extendsUnit[OF v]) (simp add: assignedVars_def)
  then show ?thesis using u
    by (auto simp: extendsUnit_def newVisitor_def definedIdents_def)
qed

lemma exCallStr_lowered: "Lower exCallStr = Inr exCallStrIR"
  apply (simp add: exCallStr_def exCallStrIR_def eval1)
  apply (simp add: eval2)
  apply (simp add: eval3)
  done

text \<open>
  Claim C10. \<^verbatim>\<open>nextIdent\<close> returns the name with the number one above the counter and
  increments the counter, whatever the prefix. In the IR a successful lowering produces,
  every defined name (data definition, destination of an instruction, result of a call)
  that is not a variable the source program assigns to is a generated name
  \<^verbatim>\<open>_tmp_NNNN\<close>, \<^verbatim>\<open>_str_NNNN\<close> or \<^verbatim>\<open>_idx_NNNN\<close> with a positive number, and two different
  such names never have the same number, in whichever functions of the unit they occur.
  Lowering, from the initial visitor, a call whose first argument is a string literal gives
  \<^verbatim>\<open>_str_0001\<close> to the literal and \<^verbatim>\<open>_tmp_0002\<close> to the call's result.
\<close>

theorem C10_shared_counter:
  "fst (nextIdent p v) = fmtIdent p (tmpCounter v + 1)
   \<and> tmpCounter (snd (nextIdent p v)) = tmpCounter v + 1
   \<and> (Lower cu = Inr u \<and> x \<in> generatedIdents cu u \<and> y \<in> generatedIdents cu u \<and> x \<noteq> y
        \<longrightarrow> (\<exists>q k. q \<in> {''tmp'', ''str'', ''idx''} \<and> 0 < k \<and> x = fmtIdent q k)
            \<and> identNumber x \<noteq> identNumber y)
   \<and> (\<exists>w. VisitExpr (Call f [(Literal (Some (Type TypeString None)) i b s, aty)] cty) newVisitor = Inr w
        \<and> map dd_Ident (DataDefs (unit w)) = [''_str_0001'']
        \<and> lastVal w = Some (NewValIdent ''_tmp_0002''))"
proof (intro conjI impI)
  assume h: "Lower cu = Inr u \<and> x \<in> generatedIdents cu u \<and> y \<in> generatedIdents cu u \<and> x \<noteq> y"
  then obtain n where n: "freshSegment (assignedVars cu) 0 n (set (definedIdents u))"
    using Lower_freshSegment by blast
  from h have m: "x \<in> set (definedIdents u)" "x \<notin> assignedVars cu"
      "y \<in> set (definedIdents u)" "y \<notin> assignedVars cu" "x \<noteq> y"
    by (auto simp: generatedIdents_def)
  from n m show "\<exists>q k. q \<in> {''tmp'', ''str'', ''idx''} \<and> 0 < k \<and> x = fmtIdent q k"
    unfolding freshSegment_def identKinds_def by blast
  from n m show "identNumber x \<noteq> identNumber y"
    unfolding freshSegment_def by blast
next
  show "\<exists>w. VisitExpr (Call f [(Literal (Some (Type TypeString None)) i b s, aty)] cty) newVisitor = Inr w
        \<and> map dd_Ident (DataDefs (unit w)) = [''_str_0001'']
        \<and> lastVal w = Some (NewValIdent ''_tmp_0002'')"
    by (simp add: eval1 eval3)
qed simp_all

theorem C10_shared_counter_witness:
  "Lower exCallStr = Inr exCallStrIR
   \<and> ''_str_0001'' \<in> generatedIdents exCallStr exCallStrIR
   \<and> ''_tmp_0002'' \<in> generatedIdents exCallStr exCallStrIR
   \<and> identNumber ''_str_0001'' \<noteq> identNumber ''_tmp_0002''"
proof -
  have a: "assignedVars exCallStr = {}"
    by (simp add: assignedVars_def exCallStr_def)
  have d: "definedIdents exCallStrIR = [''_str_0001'', ''_tmp_0002'']"
    by (simp add: definedIdents_def exCallStrIR_def definedIn_def NewDataDefStringZ_def)
  have g: "''_str_0001'' \<in> generatedIdents exCallStr exCallStrIR"
      "''_tmp_0002'' \<in> generatedIdents exCallStr exCallStrIR"
    by (simp_all add: generatedIdents_def a d)
  from C10_shared_counter[of _ _ exCallStr exCallStrIR "''_str_0001''" "''_tmp_0002''"]
    exCallStr_lowered g
  have "identNumber ''_str_0001'' \<noteq> identNumber ''_tmp_0002''" by simp
  with exCallStr_lowered g show ?thesis by (intro conjI)
qed

section \<open>Claim C2: which counters are reset at a function boundary\<close>

lemma exPick_visited: "VisitFuncDef (hd (cu_Funcs exIfElse)) newVisitor = Inr exAfterPick"
  apply (simp add: exIfElse_def exBody_def exAfterPick_def exIfElseIR_def exIfElseFunc_def
      exIfElseBlock_def exIfElseInstrs_def eval1)
  apply (simp add: eval2)
  apply (simp add: eval3)
  done

lemma exPick2_visited: "VisitFuncDef exPick2 exAfterPick = Inr exAfterPick2"
  apply (simp add: exPick2_def exBody_def exAfterPick_def exAfterPick2_def exIfElseIR_def
      exIfElseFunc_def exIfElseBlock_def exIfElseInstrs_def exPick2Func_def exPick2Instrs_def
      eval1)
  apply (simp add: eval2)
  apply (simp add: eval3)
  done

text \<open>
  Claim C2, as stated, fails: of two functions with the same body the second gets the
  temporary \<^verbatim>\<open>_tmp_0002\<close>, while its labels start again at \<^verbatim>\<open>L0001\<close>.
\<close>

theorem C2_counterexample:
  "Lower exTwoFuncs = Inr \<lparr>DataDefs = [], FuncDefs = [exIfElseFunc, exPick2Func]\<rparr>
   \<and> blk_Instructions (hd (ir_Blocks exPick2Func)) ! 0 =
       NewBinop BinOpEq (Some (NewValIdent ''_tmp_0002'')) (Some (NewValIdent ''x''))
         (Some (NewValInteger 1))"
  apply (simp add: exTwoFuncs_def exPick2_def exIfElse_def exBody_def exIfElseFunc_def
      exIfElseBlock_def exIfElseInstrs_def exPick2Func_def exPick2Instrs_def eval1)
  apply (simp add: eval2)
  apply (simp add: eval3)
  done

text \<open>
  Claim C2, amended. At a function boundary the visitor resets the label counter and the
  instruction list, and nothing else: lowering a function gives the same result whatever
  the label counter and the instruction list were before, so its labels number as in a
  function lowered first. The identifier counter is not reset: it never decreases over a
  function, and every name the function adds to the unit's defined names, other than a
  variable it assigns to, is \<^verbatim>\<open>_tmp_NNNN\<close>, \<^verbatim>\<open>_str_NNNN\<close> or \<^verbatim>\<open>_idx_NNNN\<close> with a number
  above the value the counter had when the function was entered.
\<close>

theorem C2_label_counter_reset_only:
  "VisitFuncDef fd (v\<lparr>labelCounter := n, lastInstructions := xs\<rparr>) = VisitFuncDef fd v
   \<and> (VisitFuncDef fd v = Inr v' \<longrightarrow> tmpCounter v \<le> tmpCounter v')
   \<and> (VisitFuncDef fd v = Inr v' \<and> x \<in> set (definedIdents (unit v'))
        \<and> x \<notin> set (definedIdents (unit v))
        \<and> x \<notin> (case fd_Body fd of None \<Rightarrow> {} | Some b \<Rightarrow> assignedInList b)
      \<longrightarrow> (\<exists>q. q \<in> {''tmp'', ''str'', ''idx''} \<and> x = fmtIdent q (identNumber x))
          \<and> tmpCounter v < identNumber x \<and> identNumber x \<le> tmpCounter v')"
proof (intro conjI impI)
  show "VisitFuncDef fd (v\<lparr>labelCounter := n, lastInstructions := xs\<rparr>) = VisitFuncDef fd v"
    by (simp add: VisitFuncDef_def)
next
  assume "VisitFuncDef fd v = Inr v'"
  from VisitFuncDef_extendsUnit[OF this subset_refl]
  show "tmpCounter v \<le> tmpCounter v'" by (simp add: extendsUnit_def)
next
  let ?A = "case fd_Body fd of None \<Rightarrow> {} | Some b \<Rightarrow> assignedInList b"
  assume h: "VisitFuncDef fd v = Inr v' \<and> x \<in> set (definedIdents (unit v'))
        \<and> x \<notin> set (definedIdents (unit v)) \<and> x \<notin> ?A"
  then have "extendsUnit ?A v v'" using VisitFuncDef_extendsUnit[OF _ subset_refl] by blast
  then obtain N where N: "set (definedIdents (unit v')) = set (definedIdents (unit v)) \<union> N"
      "freshSegment ?A (tmpCounter v) (tmpCounter v') N"
    by (auto simp: extendsUnit_def)
  from h N(1) have "x \<in> N" by blast
  with N(2) h obtain q k where qk: "q \<in> identKinds" "tmpCounter v < k" "k \<le> tmpCounter v'"
      "x = fmtIdent q k"
    unfolding freshSegment_def by blast
  then have k: "identNumber x = k" by simp
  show "\<exists>q. q \<in> {''tmp'', ''str'', ''idx''} \<and> x = fmtIdent q (identNumber x)"
    using qk k by (auto simp: identKinds_def)
  show "tmpCounter v < identNumber x" using qk k by simp
  show "identNumber x \<le> tmpCounter v'" using qk k by simp
qed

theorem C2_label_counter_reset_only_witness:
  "VisitFuncDef exPick2 exAfterPick = Inr exAfterPick2
   \<and> labelCounter exAfterPick = 4 \<and> tmpCounter exAfterPick = 1
   \<and> VisitFuncDef exPick2 (exAfterPick\<lparr>labelCounter := 0, lastInstructions := []\<rparr>)
       = Inr exAfterPick2
   \<and> ''_tmp_0002'' \<in> set (definedIdents (unit exAfterPick2))
   \<and> 1 < identNumber ''_tmp_0002''"
proof -
  have a: "''_tmp_0002'' \<in> set (definedIdents (unit exAfterPick2))"
    by (simp add: exAfterPick2_def definedIdents_def exPick2Func_def exPick2Instrs_def
        exIfElseFunc_def exIfElseBlock_def exIfElseInstrs_def definedIn_def)
  have b: "''_tmp_0002'' \<notin> set (definedIdents (unit exAfterPick))"
    by (simp add: exAfterPick_def definedIdents_def exIfElseIR_def
        exIfElseFunc_def exIfElseBlock_def exIfElseInstrs_def definedIn_def)
  have c: "''_tmp_0002'' \<notin> (case fd_Body exPick2 of None \<Rightarrow> {} | Some b \<Rightarrow> assignedInList b)"
    by (simp add: exPick2_def exBody_def)
  have d: "tmpCounter exAfterPick = 1" "labelCounter exAfterPick = 4"
    by (simp_all add: exAfterPick_def)
  from C2_label_counter_reset_only[where fd = exPick2 and v = exAfterPick and n = 0 and xs = "[]"
      and v' = exAfterPick2 and x = "''_tmp_0002''"]
    exPick2_visited a b c d
  show ?thesis by simp
qed

section \<open>Claims C3 and C9: the tokenizer\<close>

lemma drop_Scan_Next:
  "drop (sc_pos s) (sc_input s) = x # xs \<Longrightarrow>
   Scan_Next s = Inr (x, s\<lparr>sc_pos := Suc (sc_pos s)\<rparr>) \<and> drop (Suc (sc_pos s)) (sc_input s) = xs"
proof -
  assume a: "drop (sc_pos s) (sc_input s) = x # xs"
  then have l: "sc_pos s < length (sc_input s)" by (cases "sc_pos s < length (sc_input s)") auto
  from a have "sc_input s ! sc_pos s = x" by (metis l hd_drop_conv_nth list.sel(1))
  moreover from a have "drop (Suc (sc_pos s)) (sc_input s) = xs"
    by (metis drop_Suc list.sel(3) tl_drop)
  ultimately show ?thesis using l by (simp add: Scan_Next_def)
qed

lemma scanNumber_digits:
  assumes "drop (sc_pos s) (sc_input s) = ds @ c # rest" "list_all isNumeric ds" "\<not> isNumeric c"
  shows "scanNumber buf start s =
     (case Atoi (buf @ ds) of
        Inl e \<Rightarrow> Inl e
      | Inr num \<Rightarrow> Inr ((simpleToken lexer_TypeNumber (buf @ ds) start)\<lparr>tk_NumberVal := num\<rparr>,
                        s\<lparr>sc_pos := sc_pos s + length ds\<rparr>))"
  using assms
proof (induction ds arbitrary: buf s)
  case Nil
  then show ?case using drop_Scan_Next[of s c rest]
    by (subst scanNumber.simps) (simp add: Scan_Unread_def split: sum.splits)
next
  case (Cons d ds)
  from Cons.prems(1) drop_Scan_Next[of s d "ds @ c # rest"]
  have n: "Scan_Next s = Inr (d, s\<lparr>sc_pos := Suc (sc_pos s)\<rparr>)"
    and r: "drop (sc_pos (s\<lparr>sc_pos := Suc (sc_pos s)\<rparr>)) (sc_input (s\<lparr>sc_pos := Suc (sc_pos s)\<rparr>)) = ds @ c # rest"
    by auto
  have "scanNumber buf start s = scanNumber (buf @ [d]) start (s\<lparr>sc_pos := Suc (sc_pos s)\<rparr>)"
    using Cons.prems(2) by (subst scanNumber.simps) (simp add: n)
  also have "\<dots> = (case Atoi ((buf @ [d]) @ ds) of
        Inl e \<Rightarrow> Inl e
      | Inr num \<Rightarrow> Inr ((simpleToken lexer_TypeNumber ((buf @ [d]) @ ds) start)\<lparr>tk_NumberVal := num\<rparr>,
                        (s\<lparr>sc_pos := Suc (sc_pos s)\<rparr>)\<lparr>sc_pos := sc_pos (s\<lparr>sc_pos := Suc (sc_pos s)\<rparr>) + length ds\<rparr>))"
    using Cons.IH[OF r _ Cons.prems(3)] Cons.prems(2) by simp
  finally show ?case by (simp split: sum.splits)
qed

lemma isNumeric_not_special:
  "isNumeric d \<Longrightarrow> d \<noteq> CHR ''='' \<and> d \<noteq> CHR ''('' \<and> d \<noteq> CHR '')'' \<and> d \<noteq> CHR ''{'' \<and> d \<noteq> CHR ''}''
     \<and> d \<noteq> CHR '','' \<and> d \<noteq> CHR '':'' \<and> d \<noteq> CHR ''@'' \<and> d \<noteq> CHR ''+'' \<and> d \<noteq> CHR ''/''
     \<and> d \<noteq> CHR ''-'' \<and> d \<noteq> CHR ''>'' \<and> \<not> isWhitespace d \<and> d \<noteq> CHR 0x22"
  by (auto simp: isNumeric_def isWhitespace_def)

lemma nextLoop_number:
  assumes "drop (sc_pos s) (sc_input s) = ds @ c # rest" "ds \<noteq> []" "list_all isNumeric ds" "\<not> isNumeric c"
  shows "nextLoop buf s =
     (case Atoi (buf @ ds) of
        Inl e \<Rightarrow> Inl e
      | Inr num \<Rightarrow> Inr ((simpleToken lexer_TypeNumber (buf @ ds) (Suc (sc_pos s)))\<lparr>tk_NumberVal := num\<rparr>,
                        s\<lparr>sc_pos := sc_pos s + length ds\<rparr>))"
proof -
  obtain d ds' where ds: "ds = d # ds'" using assms(2) by (cases ds) auto
  from assms(1) ds drop_Scan_Next[of s d "ds' @ c # rest"]
  have n: "Scan_Next s = Inr (d, s\<lparr>sc_pos := Suc (sc_pos s)\<rparr>)"
    and r: "drop (sc_pos (s\<lparr>sc_pos := Suc (sc_pos s)\<rparr>)) (sc_input (s\<lparr>sc_pos := Suc (sc_pos s)\<rparr>)) = ds' @ c # rest"
    by auto
  have d: "isNumeric d" and ds': "list_all isNumeric ds'" using assms(3) ds by auto
  have "nextLoop buf s = scanNumber (buf @ [d]) (Suc (sc_pos s)) (s\<lparr>sc_pos := Suc (sc_pos s)\<rparr>)"
    using isNumeric_not_special[OF d] d
    by (subst nextLoop.simps) (simp add: n Let_def Scan_Location_def)
  also note scanNumber_digits[OF r ds' assms(4)]
  finally show ?thesis using ds by (simp split: sum.splits)
qed

lemma nextLoop_minus_number:
  assumes "drop (sc_pos s) (sc_input s) = CHR ''-'' # ds @ c # rest" "ds \<noteq> []"
    "list_all isNumeric ds" "\<not> isNumeric c"
  shows "nextLoop buf s =
     (case Atoi (buf @ CHR ''-'' # ds) of
        Inl e \<Rightarrow> Inl e
      | Inr num \<Rightarrow> Inr ((simpleToken lexer_TypeNumber (buf @ CHR ''-'' # ds) (Suc (Suc (sc_pos s))))\<lparr>tk_NumberVal := num\<rparr>,
                        s\<lparr>sc_pos := Suc (sc_pos s) + length ds\<rparr>))"
proof -
  obtain d ds' where ds: "ds = d # ds'" using assms(2) by (cases ds) auto
  let ?s1 = "s\<lparr>sc_pos := Suc (sc_pos s)\<rparr>"
  from assms(1) drop_Scan_Next[of s "CHR ''-''" "ds @ c # rest"]
  have n: "Scan_Next s = Inr (CHR ''-'', ?s1)"
    and r: "drop (sc_pos ?s1) (sc_input ?s1) = ds @ c # rest"
    by auto
  from r ds drop_Scan_Next[of ?s1 d "ds' @ c # rest"]
  have n2: "Scan_Next ?s1 = Inr (d, ?s1\<lparr>sc_pos := Suc (sc_pos ?s1)\<rparr>)" by auto
  have d: "isNumeric d" using assms(3) ds by auto
  have "nextLoop buf s = nextLoop (buf @ ''-'') ?s1"
    using isNumeric_not_special[OF d] d
    by (subst nextLoop.simps) (simp add: n n2 Let_def Scan_Unread_def)
  also note nextLoop_number[OF r assms(2,3,4)]
  finally show ?thesis by (simp split: sum.splits)
qed


lemmas tok_eval = Tokens_def NewTokenizer_def TokensLoop.simps Tokenizer_next_def nextLoop.simps
  skipLine.simps scanNumber.simps scanString.simps scanIdent.simps Scan_Next_def Scan_Unread_def
  Scan_Location_def Atoi_def isNumeric_def isAlpha_def isAlphanumeric_def isWhitespace_def
  decVal_def digitVal_def simpleToken_def emptyToken_def checkKeyword_def Let_def

text \<open>
  Claim C9, as stated, fails: in \<^verbatim>\<open>1-2\<close> the \<^verbatim>\<open>-\<close> follows a number, which can be the
  left operand of a binary minus, and is still folded into the literal \<^verbatim>\<open>-2\<close>.
\<close>

theorem C9_counterexample:
  "Tokens (NewTokenizer \<lparr>sc_input = ''1-2 '', sc_pos = 0\<rparr>) =
     Inr [\<lparr>tk_Type = lexer_TypeNumber, tk_Keyword = KeywordNone, tk_Identifier = '''',
           tk_StringVal = ''1'', tk_NumberVal = 1, tk_Location = 1\<rparr>,
          \<lparr>tk_Type = lexer_TypeNumber, tk_Keyword = KeywordNone, tk_Identifier = '''',
           tk_StringVal = ''-2'', tk_NumberVal = - 2, tk_Location = 3\<rparr>]"
  by (simp add: tok_eval)

text \<open>
  Claim C3, as stated, fails: a string literal that is still open at the end of the input
  makes \<^verbatim>\<open>Tokens\<close> return successfully, here with no token at all.
\<close>

theorem C3_counterexample:
  "Tokens (NewTokenizer \<lparr>sc_input = [CHR 0x22, CHR ''a'', CHR ''b''], sc_pos = 0\<rparr>) = Inr []"
  by (simp add: tok_eval)


lemma Atoi_negative:
  assumes "ds \<noteq> []" "list_all isNumeric ds" "int (decVal ds) \<le> 2 ^ 63"
  shows "Atoi (CHR ''-'' # ds) = Inr (- int (decVal ds))"
  using assms by (simp add: Atoi_def Let_def)

lemma Atoi_overflow:
  assumes "ds \<noteq> []" "list_all isNumeric ds" "2 ^ 63 \<le> int (decVal ds)"
  shows "Atoi ds = Inl (NumError ''value out of range'')"
proof -
  from assms(1,2) have "isNumeric (hd ds)" by (cases ds) auto
  then have "hd ds \<noteq> CHR ''-''" "hd ds \<noteq> CHR ''+''" by (auto simp: isNumeric_def)
  then show ?thesis using assms by (simp add: Atoi_def Let_def)
qed

text \<open>
  Claim C9, amended. Whenever a \<^verbatim>\<open>-\<close> is immediately followed by a decimal numeral (and
  a further byte ends the numeral), the tokenizer produces one negative number token for
  both, whatever tokens were produced before (\<open>acc\<close>): the previous token plays no role.
\<close>

theorem C9_minus_folded_after_any_tokens:
  assumes "Buffer t = []"
    and "drop (sc_pos (Scan t)) (sc_input (Scan t)) = CHR ''-'' # ds @ c # rest"
    and "ds \<noteq> []" and "list_all isNumeric ds" and "\<not> isNumeric c"
    and "int (decVal ds) \<le> 2 ^ 63"
  shows "\<exists>tok t'. Tokenizer_next t = Inr (tok, t')
           \<and> tk_Type tok = lexer_TypeNumber \<and> tk_StringVal tok = CHR ''-'' # ds
           \<and> tk_NumberVal tok = - int (decVal ds)
           \<and> drop (sc_pos (Scan t')) (sc_input (Scan t')) = c # rest
           \<and> (\<forall>acc. TokensLoop acc t = TokensLoop (acc @ [tok]) t')"
proof -
  let ?tok = "(simpleToken lexer_TypeNumber (CHR ''-'' # ds) (Suc (Suc (sc_pos (Scan t)))))
                \<lparr>tk_NumberVal := - int (decVal ds)\<rparr>"
  let ?t' = "t\<lparr>Scan := (Scan t)\<lparr>sc_pos := Suc (sc_pos (Scan t)) + length ds\<rparr>\<rparr>"
  have n: "nextLoop [] (Scan t) = Inr (?tok, Scan ?t')"
    using nextLoop_minus_number[OF assms(2,3,4,5), of "[]"] Atoi_negative[OF assms(3,4,6)]
    by simp
  then have a: "Tokenizer_next t = Inr (?tok, ?t')"
    using assms(1) by (simp add: Tokenizer_next_def)
  have "drop (Suc (sc_pos (Scan t)) + length ds) (sc_input (Scan t)) = c # rest"
  proof -
    have "drop (Suc (length ds)) (drop (sc_pos (Scan t)) (sc_input (Scan t))) = c # rest"
      by (simp add: assms(2))
    then show ?thesis by (simp add: add.commute)
  qed
  then have d: "drop (sc_pos (Scan ?t')) (sc_input (Scan ?t')) = c # rest" by simp
  have l: "TokensLoop acc t = TokensLoop (acc @ [?tok]) ?t'" for acc
    by (subst TokensLoop.simps) (simp add: a)
  show ?thesis using a d l by (intro exI[of _ ?tok] exI[of _ ?t']) (simp add: simpleToken_def)
qed

theorem C9_minus_folded_after_any_tokens_witness:
  "Buffer (\<lparr>Scan = \<lparr>sc_input = ''1-2 '', sc_pos = 1\<rparr>, Buffer = []\<rparr>) = []
   \<and> (\<exists>tok t'. Tokenizer_next \<lparr>Scan = \<lparr>sc_input = ''1-2 '', sc_pos = 1\<rparr>, Buffer = []\<rparr> = Inr (tok, t')
        \<and> tk_Type tok = lexer_TypeNumber \<and> tk_StringVal tok = ''-2'' \<and> tk_NumberVal tok = - 2)"
proof -
  have "decVal ''2'' = 2" by (simp add: decVal_def digitVal_def)
  then show ?thesis
    using C9_minus_folded_after_any_tokens[of "\<lparr>Scan = \<lparr>sc_input = ''1-2 '', sc_pos = 1\<rparr>, Buffer = []\<rparr>"
        "''2''" "CHR '' ''" "[]"]
    by (simp add: isNumeric_def) blast
qed

text \<open>
  Claim C3, amended. At any point of the tokenization, a numeric literal whose value does
  not fit a 64-bit \<^verbatim>\<open>int\<close> and which is followed by a further byte makes \<^verbatim>\<open>next\<close> and
  \<^verbatim>\<open>Tokens\<close> fail with the conversion error (a message, no location); an invalid
  character is no error: it is skipped and tokenization goes on with the next byte.
\<close>

theorem C3_overflow_fails_invalid_char_skipped:
  assumes "Buffer t = []"
  shows "(drop (sc_pos (Scan t)) (sc_input (Scan t)) = ds @ c # rest \<and> ds \<noteq> []
            \<and> list_all isNumeric ds \<and> \<not> isNumeric c \<and> 2 ^ 63 \<le> int (decVal ds)
          \<longrightarrow> Tokenizer_next t = Inl (NumError ''value out of range'')
              \<and> TokensLoop acc t = Inl (NumError ''value out of range''))
       \<and> (drop (sc_pos (Scan t)) (sc_input (Scan t)) = c # rest \<and> invalidChar c
          \<longrightarrow> Tokenizer_next t = Tokenizer_next (t\<lparr>Scan := (Scan t)\<lparr>sc_pos := Suc (sc_pos (Scan t))\<rparr>\<rparr>)
              \<and> TokensLoop acc t = TokensLoop acc (t\<lparr>Scan := (Scan t)\<lparr>sc_pos := Suc (sc_pos (Scan t))\<rparr>\<rparr>))"
proof (intro conjI impI)
  assume h: "drop (sc_pos (Scan t)) (sc_input (Scan t)) = ds @ c # rest \<and> ds \<noteq> []
            \<and> list_all isNumeric ds \<and> \<not> isNumeric c \<and> 2 ^ 63 \<le> int (decVal ds)"
  then have "nextLoop [] (Scan t) = Inl (NumError ''value out of range'')"
    using nextLoop_number[of "Scan t" ds c rest "[]"] Atoi_overflow[of ds] by simp
  then show a: "Tokenizer_next t = Inl (NumError ''value out of range'')"
    using assms by (simp add: Tokenizer_next_def)
  show "TokensLoop acc t = Inl (NumError ''value out of range'')"
    by (subst TokensLoop.simps) (simp add: a)
next
  assume h: "drop (sc_pos (Scan t)) (sc_input (Scan t)) = c # rest \<and> invalidChar c"
  let ?t' = "t\<lparr>Scan := (Scan t)\<lparr>sc_pos := Suc (sc_pos (Scan t))\<rparr>\<rparr>"
  from h drop_Scan_Next[of "Scan t" c rest]
  have n: "Scan_Next (Scan t) = Inr (c, (Scan t)\<lparr>sc_pos := Suc (sc_pos (Scan t))\<rparr>)" by simp
  have "nextLoop [] (Scan t) = nextLoop [] ((Scan t)\<lparr>sc_pos := Suc (sc_pos (Scan t))\<rparr>)"
    using h by (subst nextLoop.simps) (simp add: n Let_def invalidChar_def)
  then show a: "Tokenizer_next t = Tokenizer_next ?t'"
    using assms by (simp add: Tokenizer_next_def split: sum.splits)
  show "TokensLoop acc t = TokensLoop acc ?t'"
    by (simp add: TokensLoop.simps[of acc t] TokensLoop.simps[of acc ?t'] a)
qed


theorem C3_overflow_fails_invalid_char_skipped_witness:
  "Buffer (NewTokenizer \<lparr>sc_input = ''9223372036854775808 '', sc_pos = 0\<rparr>) = []
   \<and> Tokens (NewTokenizer \<lparr>sc_input = ''9223372036854775808 '', sc_pos = 0\<rparr>)
       = Inl (NumError ''value out of range'')
   \<and> invalidChar (CHR ''#'')
   \<and> Tokens (NewTokenizer \<lparr>sc_input = ''#1 '', sc_pos = 0\<rparr>)
       = TokensLoop [] (NewTokenizer \<lparr>sc_input = ''#1 '', sc_pos = 0\<rparr>
                          \<lparr>Scan := \<lparr>sc_input = ''#1 '', sc_pos = Suc 0\<rparr>\<rparr>)"
proof -
  have d: "decVal ''9223372036854775808'' = 9223372036854775808"
    by (simp add: decVal_def digitVal_def)
  have i: "invalidChar (CHR ''#'')"
    by (simp add: invalidChar_def isWhitespace_def isNumeric_def isAlpha_def)
  have b: "Buffer (NewTokenizer s) = []" for s by (simp add: NewTokenizer_def)
  have 1: "Tokens (NewTokenizer \<lparr>sc_input = ''9223372036854775808 '', sc_pos = 0\<rparr>)
       = Inl (NumError ''value out of range'')"
    using C3_overflow_fails_invalid_char_skipped[OF b,
        of "\<lparr>sc_input = ''9223372036854775808 '', sc_pos = 0\<rparr>" "''9223372036854775808''"
           "CHR '' ''" "[]" "[]"] d
    by (simp add: Tokens_def NewTokenizer_def isNumeric_def)
  have 2: "Tokens (NewTokenizer \<lparr>sc_input = ''#1 '', sc_pos = 0\<rparr>)
       = TokensLoop [] (NewTokenizer \<lparr>sc_input = ''#1 '', sc_pos = 0\<rparr>
                          \<lparr>Scan := \<lparr>sc_input = ''#1 '', sc_pos = Suc 0\<rparr>\<rparr>)"
    using C3_overflow_fails_invalid_char_skipped[OF b,
        of "\<lparr>sc_input = ''#1 '', sc_pos = 0\<rparr>" "[]" "CHR ''#''" "''1 ''" "[]"] i
    by (simp add: Tokens_def NewTokenizer_def)
  show ?thesis using b 1 i 2 by blast
qed

section \<open>The expression parser\<close>





lemma peek_other:
  assumes "index p < length (tok p)" "tk_Type (tok p ! index p) \<notin> set tts"
  shows "peekType tts p = (tok p ! index p, None, p)"
  using assms by (simp add: peekType_def expectType_def nextToken_def)








section \<open>Claim C8: the implicit return\<close>

lemma parseBlockLoop_stops_at_rbrace:
  "parseBlockLoop n is p = Inr (is', p') \<Longrightarrow>
     index p' < length (tok p') \<and> tk_Type (tok p' ! index p') = lexer_TypeRbrace"
proof (induction n arbitrary: "is" p)
  case 0
  then show ?case by (simp add: parseBlockLoop.simps)
next
  case (Suc n)
  show ?case
    using Suc.prems
    by (auto simp: parseBlockLoop.simps nextToken_def split: if_splits sum.splits prod.splits
          dest: Suc.IH)
qed

lemma parseBlock_stops_at_rbrace:
  "parseBlock n lb p = Inr (is', p') \<Longrightarrow>
     expectOrFail [lexer_TypeRbrace] p' = Inr (tok p' ! index p', p'\<lparr>index := Suc (index p')\<rparr>)"
  by (cases n)
     (auto simp: parseBlock.simps expectOrFail_def expectType_def nextToken_def split: if_splits
        dest!: parseBlockLoop_stops_at_rbrace)

text \<open>
  Claim C8. Let \<^verbatim>\<open>parseFunc\<close> have parsed the signature of a function that is not
  \<^verbatim>\<open>extern\<close>, the opening brace and the block of its body. If the body is empty or its last
  instruction is not a \<^verbatim>\<open>Return\<close>, then for a return type of kind \<^verbatim>\<open>Void\<close> the function is
  recorded with an empty \<^verbatim>\<open>Return\<close> appended to the body, and for any other return type
  \<^verbatim>\<open>parseFunc\<close> fails with the error \<^verbatim>\<open>expected return statement\<close>. If the last instruction
  is a \<^verbatim>\<open>Return\<close>, the body is recorded as parsed. (The block always stops in front of a
  closing brace, so the brace that follows is never what fails.)
\<close>

theorem C8_implicit_return:
  assumes "parseFuncSignature n name p = Inr (def, retType, p5)"
    and "AttrKeyExtern \<notin> dom (fd_Attributes def)"
    and "expectOrFail [lexer_TypeLbrace] p5 = Inr (lbrace, p6)"
    and "parseBlock n lbrace p6 = Inr (instructions, p7)"
  shows "((instructions = [] \<or> \<not> isReturn (last instructions)) \<and> Kind retType = TypeVoid \<longrightarrow>
            parseFunc n name p =
              Inr (p7\<lparr>index := Suc (index p7),
                      p_unit := (p_unit p7)\<lparr>cu_Funcs := cu_Funcs (p_unit p7) @
                        [def\<lparr>fd_Body := Some (instructions @ [Return None])\<rparr>]\<rparr>\<rparr>))
       \<and> ((instructions = [] \<or> \<not> isReturn (last instructions)) \<and> Kind retType \<noteq> TypeVoid \<longrightarrow>
            parseFunc n name p = Inl (ParseError ''expected return statement''))
       \<and> (instructions \<noteq> [] \<and> isReturn (last instructions) \<longrightarrow>
            parseFunc n name p =
              Inr (p7\<lparr>index := Suc (index p7),
                      p_unit := (p_unit p7)\<lparr>cu_Funcs := cu_Funcs (p_unit p7) @
                        [def\<lparr>fd_Body := Some instructions\<rparr>]\<rparr>\<rparr>))"
  using assms parseBlock_stops_at_rbrace[OF assms(4)]
  by (auto simp: parseFunc_def addImplicitReturn_def Let_def last_conv_nth)

lemmas parse_eval = parseFuncSignature_def parseFuncParams.simps parseFuncParam_def
  parseFuncReturnType_def expectOrFail_def peekOrFail_def expectType_def peekType_def
  nextToken_def Parser_New_def tokenOf_def keywordToken_def simpleToken_def identToken_def emptyToken_def
  ast_NewFuncDef_def Let_def parseBlock.simps parseBlockLoop.simps parseSimpleStatement_def
  parseLValue_def parseCall.simps parseCallLoop.simps parseExpressionPratt.simps
  parsePrimary.simps starters_def ast_NewCall_def CallInstr_def NewVariableRef_def
  ast_NewCompilationUnit_def parseType_def parseTypeCarets.simps

theorem C8_implicit_return_witness:
  "parseFunc 8 (identToken ''f'') (Parser_New exVoidFuncToks) =
     Inr ((Parser_New exVoidFuncToks)
            \<lparr>index := 7,
             p_unit := ast_NewCompilationUnit
               \<lparr>cu_Funcs :=
                  [\<lparr>fd_Ident = ''f'', fd_Attributes = Map.empty, fd_Params = [],
                    fd_ReturnType = Some (Type TypeVoid None),
                    fd_Body = Some [CallStmt ''g'' [] None, Return None]\<rparr>]\<rparr>\<rparr>)
   \<and> parseFunc 8 (identToken ''f'') (Parser_New exIntFuncToks) =
       Inl (ParseError ''expected return statement'')"
proof -
  have f: "(8::nat) = Suc (Suc (Suc (Suc (Suc (Suc (Suc (Suc 0)))))))" by simp
  let ?d = "\<lparr>fd_Ident = ''f'', fd_Attributes = Map.empty, fd_Params = [],
             fd_ReturnType = Some (Type TypeVoid None), fd_Body = None\<rparr>"
  let ?p = "Parser_New exVoidFuncToks"
  have s1: "parseFuncSignature 8 (identToken ''f'') ?p = Inr (?d, Type TypeVoid None, ?p\<lparr>index := 2\<rparr>)"
    unfolding f by (simp add: parse_eval exVoidFuncToks_def)
  have e1: "AttrKeyExtern \<notin> dom (fd_Attributes ?d)" by simp
  have l1: "expectOrFail [lexer_TypeLbrace] (?p\<lparr>index := 2\<rparr>) =
              Inr (tokenOf lexer_TypeLbrace ''{'', ?p\<lparr>index := 3\<rparr>)"
    by (simp add: parse_eval exVoidFuncToks_def)
  have b1: "parseBlock 8 (tokenOf lexer_TypeLbrace ''{'') (?p\<lparr>index := 3\<rparr>) =
              Inr ([CallStmt ''g'' [] None], ?p\<lparr>index := 6\<rparr>)"
    unfolding f by (simp add: parse_eval exVoidFuncToks_def)
  let ?d2 = "\<lparr>fd_Ident = ''f'', fd_Attributes = Map.empty, fd_Params = [],
             fd_ReturnType = Some (Type TypeInt None), fd_Body = None\<rparr>"
  let ?q = "Parser_New exIntFuncToks"
  have s2: "parseFuncSignature 8 (identToken ''f'') ?q =
              Inr (?d2, Type TypeInt None, ?q\<lparr>index := 4, currentRetType := KeywordInt\<rparr>)"
    unfolding f by (simp add: parse_eval exIntFuncToks_def)
  have e2: "AttrKeyExtern \<notin> dom (fd_Attributes ?d2)" by simp
  have l2: "expectOrFail [lexer_TypeLbrace] (?q\<lparr>index := 4, currentRetType := KeywordInt\<rparr>) =
              Inr (tokenOf lexer_TypeLbrace ''{'', ?q\<lparr>index := 5, currentRetType := KeywordInt\<rparr>)"
    by (simp add: parse_eval exIntFuncToks_def)
  have b2: "parseBlock 8 (tokenOf lexer_TypeLbrace ''{'') (?q\<lparr>index := 5, currentRetType := KeywordInt\<rparr>) =
              Inr ([], ?q\<lparr>index := 5, currentRetType := KeywordInt\<rparr>)"
    unfolding f by (simp add: parse_eval exIntFuncToks_def)
  from C8_implicit_return[OF s1 e1 l1 b1] C8_implicit_return[OF s2 e2 l2 b2]
  show ?thesis by (simp add: Parser_New_def ast_NewCompilationUnit_def)
qed

end
